(* ===== verification/Prelude.thy ===== *)
theory Prelude
  imports Main "HOL-Library.Monad_Syntax"
begin

text \<open>
  Vocabulary shared by every theory of the development: the result of a C function as an
  option, a total-correctness predicate over such results, and the signed view of a
  \<open>char\<close> that the range tests of the C macros work on.

  A C function that can touch memory returns an \<open>option\<close>: \<^const>\<open>None\<close> is undefined behaviour
  (an access outside a live block, a bad \<open>free\<close>) or, for the loops that the source leaves
  without a bound, a run that never returns.  \<open>returns x Q\<close> therefore says at once that the
  call neither faults nor diverges and that its result satisfies \<open>Q\<close>.
\<close>

named_theorems contract \<open>total-correctness rules of the modelled C functions\<close>
named_theorems cclass \<open>definitions of the character class macros\<close>

section \<open>Results of C functions\<close>

definition returns :: "'r option \<Rightarrow> ('r \<Rightarrow> bool) \<Rightarrow> bool" where
  "returns x Q = (case x of None \<Rightarrow> False | Some r \<Rightarrow> Q r)"

lemma returns_Some [simp]: "returns (Some r) Q = Q r"
  by (simp add: returns_def)

lemma returns_None [simp]: "\<not> returns None Q"
  by (simp add: returns_def)

lemma returns_bind [simp]:
  "returns (Option.bind x f) Q = returns x (\<lambda>r. returns (f r) Q)"
  by (cases x) auto

lemma returns_iff: "returns x Q \<longleftrightarrow> (\<exists>r. x = Some r \<and> Q r)"
  by (cases x) auto

lemma returnsE:
  assumes "returns x Q"
  obtains r where "x = Some r" and "Q r"
  using assms by (auto simp: returns_iff)

lemma returns_mono: "returns x P \<Longrightarrow> (\<And>r. P r \<Longrightarrow> Q r) \<Longrightarrow> returns x Q"
  by (cases x) auto

lemma returns_mono2:
  "returns x (\<lambda>(a, b). P a b) \<Longrightarrow> (\<And>a b. P a b \<Longrightarrow> Q (a, b)) \<Longrightarrow> returns x Q"
  by (cases x) auto

lemma returns_mono3:
  "returns x (\<lambda>(a, b, c). P a b c) \<Longrightarrow> (\<And>a b c. P a b c \<Longrightarrow> Q (a, b, c)) \<Longrightarrow> returns x Q"
  by (cases x) auto

lemma returns_mono4:
  "returns x (\<lambda>(a, b, c, d). P a b c d) \<Longrightarrow> (\<And>a b c d. P a b c d \<Longrightarrow> Q (a, b, c, d)) \<Longrightarrow>
   returns x Q"
  by (cases x) auto

lemma returns_True_iff: "returns x (\<lambda>_. True) \<longleftrightarrow> (\<exists>r. x = Some r)"
  by (cases x) auto

section \<open>Characters\<close>

text \<open>
  \<open>char\<close> is a signed 8-bit integer on the platforms the library is written for.  The HOL
  type \<^typ>\<open>char\<close> is the byte; \<open>schar\<close> reads it as the C code compares it.
\<close>

abbreviation NUL :: char where "NUL \<equiv> CHR 0x00"
abbreviation CR :: char where "CR \<equiv> CHR 0x0D"
abbreviation LF :: char where "LF \<equiv> CHR 0x0A"
abbreviation SP :: char where "SP \<equiv> CHR 0x20"
abbreviation HT :: char where "HT \<equiv> CHR 0x09"

definition schar :: "char \<Rightarrow> int" where
  "schar c = (let n = of_char c in if n < 128 then n else n - 256)"

definition in_range :: "char \<Rightarrow> char \<Rightarrow> char \<Rightarrow> bool" where
  "in_range lo hi c \<longleftrightarrow> schar lo \<le> schar c \<and> schar c \<le> schar hi"

text \<open>\<open>_toupper\<close> and \<open>_tolower\<close> of \<open><ctype.h>\<close>, in the C locale.\<close>

definition c_toupper :: "char \<Rightarrow> char" where
  "c_toupper c = (if in_range (CHR ''a'') (CHR ''z'') c then char_of (of_char c - 32 :: nat) else c)"

definition c_tolower :: "char \<Rightarrow> char" where
  "c_tolower c = (if in_range (CHR ''A'') (CHR ''Z'') c then char_of (of_char c + 32 :: nat) else c)"

lemma of_char_tolower:
  "(of_char (c_tolower c) :: nat) =
    (if 65 \<le> (of_char c :: nat) \<and> (of_char c :: nat) \<le> 90 then of_char c + 32 else of_char c)"
proof -
  define n where "n = (of_char c :: nat)"
  have "n < 256" "(of_char c :: int) = int n" "(of_char c :: nat) = n"
    by (simp_all add: n_def of_nat_of_char)
  then show ?thesis by (auto simp: c_tolower_def in_range_def schar_def Let_def)
qed

lemma of_char_toupper:
  "(of_char (c_toupper c) :: nat) =
    (if 97 \<le> (of_char c :: nat) \<and> (of_char c :: nat) \<le> 122 then of_char c - 32 else of_char c)"
proof -
  define n where "n = (of_char c :: nat)"
  have "n < 256" "(of_char c :: int) = int n" "(of_char c :: nat) = n"
    by (simp_all add: n_def of_nat_of_char)
  then show ?thesis by (auto simp: c_toupper_def in_range_def schar_def Let_def)
qed

lemma char_eq_nat: "c = d \<longleftrightarrow> (of_char c :: nat) = of_char d"
  by simp

section \<open>Integer conversions\<close>

text \<open>
  Sizes and positions are \<open>size_t\<close>; they count bytes of buffers that exist in memory, and the
  model keeps them as natural numbers.  Where the code stores one in an \<open>int\<close>, the conversion
  keeps the low 32 bits and reads them as two's complement.
\<close>

definition to_int :: "nat \<Rightarrow> int" where
  "to_int n = (let k = int n mod 2 ^ 32 in if k < 2 ^ 31 then k else k - 2 ^ 32)"

lemma to_int_small [simp]: "n < 2 ^ 31 \<Longrightarrow> to_int n = int n"
  by (simp add: to_int_def Let_def)

section \<open>Lists\<close>

text \<open>The character at a position of some data, \<open>NUL\<close> past its end, as the reader sees it.\<close>

definition peek :: "char list \<Rightarrow> nat \<Rightarrow> char" where
  "peek cs p = (if p < length cs then cs ! p else NUL)"

lemma peek_in [simp]: "p < length cs \<Longrightarrow> peek cs p = cs ! p"
  by (simp add: peek_def)

lemma peek_out [simp]: "length cs \<le> p \<Longrightarrow> peek cs p = NUL"
  by (simp add: peek_def)

end
