(* ===== verification/Memory.thy ===== *)
theory Memory
  imports Prelude
begin

text \<open>
  The store that the C code reads and writes: live blocks of bytes, addressed by a block
  number and an offset.  An access outside its block, through \<open>NULL\<close> or through a freed block
  is undefined behaviour and has the result \<^const>\<open>None\<close>; so has a \<open>free\<close> of anything but the
  start of a live block.  \<open>malloc\<close> may fail: \<open>oom\<close> says for each call, by its number, whether
  it does, and \<open>junk\<close> gives the indeterminate bytes of a block that is fresh, so that a
  theorem about every \<open>mem\<close> is a theorem about every behaviour of the allocator.
\<close>

section \<open>Pointers and blocks\<close>

datatype cptr = Null | Ptr nat nat

record mem =
  blocks :: "nat \<rightharpoonup> char list"
  nalloc :: nat
  oom :: "nat \<Rightarrow> bool"
  junk :: "nat \<Rightarrow> nat \<Rightarrow> char"

text \<open>Pointer arithmetic, \<open>p + n\<close>.\<close>

fun padd :: "cptr \<Rightarrow> nat \<Rightarrow> cptr" where
  "padd Null n = Null"
| "padd (Ptr a off) n = Ptr a (off + n)"

lemma padd_0 [simp]: "padd p 0 = p"
  by (cases p) auto

lemma padd_padd [simp]: "padd (padd p i) j = padd p (i + j)"
  by (cases p) auto

lemma padd_Null_iff [simp]: "padd p n = Null \<longleftrightarrow> p = Null"
  by (cases p) auto

text \<open>The bytes from a pointer to the end of its block.\<close>

fun region :: "mem \<Rightarrow> cptr \<Rightarrow> char list option" where
  "region m Null = None"
| "region m (Ptr a off) = (case blocks m a of None \<Rightarrow> None
     | Some bs \<Rightarrow> if off \<le> length bs then Some (drop off bs) else None)"

section \<open>Loads and stores\<close>

definition load :: "mem \<Rightarrow> cptr \<Rightarrow> nat \<Rightarrow> char option" where
  "load m p i = (case region m p of None \<Rightarrow> None
     | Some bs \<Rightarrow> if i < length bs then Some (bs ! i) else None)"

definition load_n :: "mem \<Rightarrow> cptr \<Rightarrow> nat \<Rightarrow> char list option" where
  "load_n m p n = (if n = 0 then Some [] else case region m p of None \<Rightarrow> None
     | Some bs \<Rightarrow> if n \<le> length bs then Some (take n bs) else None)"

fun store_n :: "mem \<Rightarrow> cptr \<Rightarrow> char list \<Rightarrow> mem option" where
  "store_n m p [] = Some m"
| "store_n m Null (c # cs) = None"
| "store_n m (Ptr a off) (c # cs) = (case blocks m a of None \<Rightarrow> None
     | Some bs \<Rightarrow> if off + length (c # cs) \<le> length bs
         then Some (m\<lparr>blocks := (blocks m)(a \<mapsto>
                take off bs @ (c # cs) @ drop (off + length (c # cs)) bs)\<rparr>)
         else None)"

definition store :: "mem \<Rightarrow> cptr \<Rightarrow> nat \<Rightarrow> char \<Rightarrow> mem option" where
  "store m p i c = store_n m (padd p i) [c]"

definition c_memmove :: "mem \<Rightarrow> cptr \<Rightarrow> cptr \<Rightarrow> nat \<Rightarrow> mem option" where
  "c_memmove m dst src n = do { cs \<leftarrow> load_n m src n; store_n m dst cs }"

text \<open>\<open>memcpy\<close> is undefined on ranges that overlap.\<close>

fun overlap :: "cptr \<Rightarrow> cptr \<Rightarrow> nat \<Rightarrow> bool" where
  "overlap (Ptr a i) (Ptr b j) n = (a = b \<and> i < j + n \<and> j < i + n)"
| "overlap _ _ n = False"

definition c_memcpy :: "mem \<Rightarrow> cptr \<Rightarrow> cptr \<Rightarrow> nat \<Rightarrow> mem option" where
  "c_memcpy m dst src n = (if overlap dst src n then None else c_memmove m dst src n)"

text \<open>\<open>strlen\<close>: the position of the first zero byte, undefined when the block has none.\<close>

fun nul_index :: "char list \<Rightarrow> nat option" where
  "nul_index [] = None"
| "nul_index (c # cs) = (if c = NUL then Some 0 else map_option Suc (nul_index cs))"

lemma nul_index_nul: "NUL \<notin> set cs \<Longrightarrow> nul_index (cs @ NUL # r) = Some (length cs)"
  by (induction cs) auto

lemma nul_index_some: "NUL \<in> set cs \<Longrightarrow> \<exists>k. nul_index cs = Some k"
  by (induction cs) auto

definition c_strlen :: "mem \<Rightarrow> cptr \<Rightarrow> nat option" where
  "c_strlen m p = do { bs \<leftarrow> region m p; nul_index bs }"

lemma c_strlen_block: "blocks m a = Some bs \<Longrightarrow> NUL \<in> set bs \<Longrightarrow> \<exists>k. c_strlen m (Ptr a 0) = Some k"
  by (simp add: c_strlen_def nul_index_some)

section \<open>Allocation\<close>

definition c_malloc :: "mem \<Rightarrow> nat \<Rightarrow> cptr \<times> mem" where
  "c_malloc m n = (let a = nalloc m in
     if oom m a then (Null, m\<lparr>nalloc := Suc a\<rparr>)
     else (Ptr a 0, m\<lparr>blocks := (blocks m)(a \<mapsto> map (junk m a) [0..<n]), nalloc := Suc a\<rparr>))"

fun c_free :: "mem \<Rightarrow> cptr \<Rightarrow> mem option" where
  "c_free m Null = Some m"
| "c_free m (Ptr a off) = (if off = 0 \<and> a \<in> dom (blocks m)
     then Some (m\<lparr>blocks := (blocks m)(a := None)\<rparr>) else None)"

text \<open>A string literal: a block that holds its bytes and the terminating zero.\<close>

definition literal :: "mem \<Rightarrow> string \<Rightarrow> cptr \<times> mem" where
  "literal m cs = (Ptr (nalloc m) 0,
     m\<lparr>blocks := (blocks m)(nalloc m \<mapsto> cs @ [NUL]), nalloc := Suc (nalloc m)\<rparr>)"

text \<open>Blocks are numbered in the order of allocation.\<close>

definition mem_ok :: "mem \<Rightarrow> bool" where
  "mem_ok m \<longleftrightarrow> (\<forall>a \<ge> nalloc m. blocks m a = None)"

definition empty_mem :: mem where
  "empty_mem = \<lparr>blocks = Map.empty, nalloc = 0, oom = (\<lambda>_. False), junk = (\<lambda>_ _. NUL)\<rparr>"

lemma mem_ok_empty: "mem_ok empty_mem"
  by (simp add: mem_ok_def empty_mem_def)

section \<open>Laws\<close>

lemma region_padd:
  "region m p = Some bs \<Longrightarrow> n \<le> length bs \<Longrightarrow> region m (padd p n) = Some (drop n bs)"
  by (cases p) (auto split: option.splits if_splits simp: add.commute)

lemma load_region: "region m p = Some bs \<Longrightarrow> i < length bs \<Longrightarrow> load m p i = Some (bs ! i)"
  by (simp add: load_def)

lemma load_n_region: "region m p = Some bs \<Longrightarrow> n \<le> length bs \<Longrightarrow> load_n m p n = Some (take n bs)"
  by (simp add: load_n_def)

lemma mem_ok_lt: "mem_ok m \<Longrightarrow> blocks m a = Some bs \<Longrightarrow> a < nalloc m"
  by (metis mem_ok_def not_le_imp_less option.distinct(1))

lemma load_n_in:
  "blocks m a = Some bs \<Longrightarrow> off + n \<le> length bs \<Longrightarrow>
   load_n m (Ptr a off) n = Some (take n (drop off bs))"
  by (auto simp: load_n_def)

lemma load_n_same: "blocks m' a = blocks m a \<Longrightarrow> load_n m' (Ptr a off) n = load_n m (Ptr a off) n"
  by (simp add: load_n_def)

lemma load_n_block: "load_n m p n = Some cs \<Longrightarrow> n > 0 \<Longrightarrow>
    \<exists>a off bs. p = Ptr a off \<and> blocks m a = Some bs \<and> off + n \<le> length bs \<and> cs = take n (drop off bs)"
  by (cases p) (auto simp: load_n_def split: if_splits option.splits)

lemma store_n_in:
  "blocks m a = Some bs \<Longrightarrow> off + length cs \<le> length bs \<Longrightarrow>
   store_n m (Ptr a off) cs =
     Some (m\<lparr>blocks := (blocks m)(a \<mapsto> take off bs @ cs @ drop (off + length cs) bs)\<rparr>)"
  by (cases cs) (auto simp: fun_upd_idem)

lemma store_in:
  "blocks m a = Some bs \<Longrightarrow> off + i < length bs \<Longrightarrow>
   store m (Ptr a off) i c = Some (m\<lparr>blocks := (blocks m)(a \<mapsto> bs[off + i := c])\<rparr>)"
  by (simp add: store_def store_n_in upd_conv_take_nth_drop)

lemma store_n_region:
  assumes "region m p = Some bs" and "length cs \<le> length bs"
  shows "\<exists>m'. store_n m p cs = Some m' \<and> region m' p = Some (cs @ drop (length cs) bs)
    \<and> nalloc m' = nalloc m \<and> oom m' = oom m \<and> junk m' = junk m
    \<and> (\<forall>a off. p = Ptr a off \<longrightarrow> (\<forall>b. b \<noteq> a \<longrightarrow> blocks m' b = blocks m b)
         \<and> blocks m' a = Some (take off (the (blocks m a)) @ cs @ drop (length cs) bs))"
proof (cases p)
  case Null
  with assms show ?thesis by simp
next
  case (Ptr a off)
  with assms(1) obtain bb where bb: "blocks m a = Some bb" "off \<le> length bb" "bs = drop off bb"
    by (auto split: option.splits if_splits)
  show ?thesis
  proof (cases cs)
    case Nil
    with Ptr bb show ?thesis by auto
  next
    case (Cons c cs')
    with Ptr bb assms(2) show ?thesis
      by (auto simp: add.commute)
  qed
qed

lemma store_region:
  assumes "region m p = Some bs" and "i < length bs"
  shows "\<exists>m'. store m p i c = Some m' \<and> region m' p = Some (bs[i := c])
    \<and> nalloc m' = nalloc m \<and> oom m' = oom m \<and> junk m' = junk m
    \<and> (\<forall>b. (\<forall>off. p \<noteq> Ptr b off) \<longrightarrow> blocks m' b = blocks m b)"
proof (cases p)
  case Null
  with assms show ?thesis by simp
next
  case (Ptr a off)
  with assms(1) obtain bb where bb: "blocks m a = Some bb" "off \<le> length bb" "bs = drop off bb"
    by (auto split: option.splits if_splits)
  then have "off + i < length bb" using assms(2) by simp
  then have "drop off (take (off + i) bb @ c # drop (Suc (off + i)) bb) = bs[i := c]"
    using bb assms(2) by (simp add: upd_conv_take_nth_drop add.commute drop_take)
  with Ptr bb assms(2) show ?thesis
    by (auto simp: store_def)
qed

lemma c_malloc_cases:
  obtains (fail) "oom m (nalloc m)" and "c_malloc m n = (Null, m\<lparr>nalloc := Suc (nalloc m)\<rparr>)"
  | (ok) "\<not> oom m (nalloc m)" and "c_malloc m n = (Ptr (nalloc m) 0,
      m\<lparr>blocks := (blocks m)(nalloc m \<mapsto> map (junk m (nalloc m)) [0..<n]), nalloc := Suc (nalloc m)\<rparr>)"
  by (cases "oom m (nalloc m)") (auto simp: c_malloc_def Let_def)

end
