(* ===== verification/Stringaa.thy ===== *)
theory Stringaa
  imports Memory
begin

text \<open>
  The string library, \<open>src/string/stringaa.h\<close>: the \<open>stringaa\<close> struct, the operations that move
  its read and write position, the access to one character, and the operations that make a
  string a view of another buffer.  The operations that allocate and copy are in theory
  \<open>Stringaa_Buffer\<close>, the search in \<open>Stringaa_Find\<close>.

  A \<open>stringaa\<close> is a pointer with a size and two positions; the bytes are in the \<^typ>\<open>mem\<close>, so two
  strings may be views of one block, as in the code.  The bit fields of the flags union are
  five booleans, and an assignment to the union is \<open>set_flags\<close>.  The \<open>prev_link\<close> and
  \<open>next_link\<close> pointers to other structs are struct numbers; only \<open>stringaa_free\<close> reads them.
\<close>

section \<open>The struct\<close>

record stringaa =
  buf :: cptr
  buf_size :: nat
  read_pos :: nat
  write_pos :: nat
  buf_data_size :: nat
  buf_original :: cptr
  prev_link :: "nat option"
  next_link :: "nat option"
  is_init :: bool
  is_alloc :: bool
  is_null_terminated :: bool
  is_link :: bool
  is_binary :: bool

datatype stringaa_flags = STRINGAA_IS_INIT | STRINGAA_IS_ALLOC | STRINGAA_IS_NULL_TERMINATED
  | STRINGAA_IS_LINK | STRINGAA_IS_BINARY

text \<open>\<open>s->flags = f1 | f2 | ...\<close>\<close>

definition set_flags :: "stringaa_flags list \<Rightarrow> stringaa \<Rightarrow> stringaa" where
  "set_flags fs s = s\<lparr>is_init := List.member fs STRINGAA_IS_INIT,
     is_alloc := List.member fs STRINGAA_IS_ALLOC,
     is_null_terminated := List.member fs STRINGAA_IS_NULL_TERMINATED,
     is_link := List.member fs STRINGAA_IS_LINK,
     is_binary := List.member fs STRINGAA_IS_BINARY\<rparr>"

text \<open>\<open>memset(s, 0, sizeof( *s))\<close>, and the value of a static or zeroed struct.\<close>

definition stringaa_zero :: stringaa where
  "stringaa_zero = \<lparr>buf = Null, buf_size = 0, read_pos = 0, write_pos = 0, buf_data_size = 0,
     buf_original = Null, prev_link = None, next_link = None, is_init = False, is_alloc = False,
     is_null_terminated = False, is_link = False, is_binary = False\<rparr>"

lemma stringaa_zero_simps [simp]:
  "buf stringaa_zero = Null" "buf_size stringaa_zero = 0" "read_pos stringaa_zero = 0"
  "write_pos stringaa_zero = 0" "\<not> is_init stringaa_zero" "\<not> is_alloc stringaa_zero"
  "\<not> is_null_terminated stringaa_zero"
  by (simp_all add: stringaa_zero_def)

text \<open>\<open>s->buf_size ? s->buf_size - s->is_null_terminated : 0\<close>\<close>

definition end_of :: "stringaa \<Rightarrow> nat" where
  "end_of s = (if buf_size s \<noteq> 0 then buf_size s - of_bool (is_null_terminated s) else 0)"

section \<open>Read and write positions\<close>

definition stringaa_next_read_pos :: "stringaa \<Rightarrow> bool \<times> stringaa" where
  "stringaa_next_read_pos s = (if read_pos s + 1 < write_pos s
     then (True, s\<lparr>read_pos := read_pos s + 1\<rparr>)
     else (False, s\<lparr>read_pos := write_pos s\<rparr>))"

definition stringaa_prev_read_pos :: "stringaa \<Rightarrow> bool \<times> stringaa" where
  "stringaa_prev_read_pos s = (if read_pos s > 0 \<and> read_pos s \<le> write_pos s
     then (True, s\<lparr>read_pos := read_pos s - 1\<rparr>)
     else (False, s\<lparr>read_pos := write_pos s\<rparr>))"

definition stringaa_begin_read_pos :: "stringaa \<Rightarrow> bool \<times> stringaa" where
  "stringaa_begin_read_pos s = (True, s\<lparr>read_pos := 0\<rparr>)"

definition stringaa_end_read_pos :: "stringaa \<Rightarrow> bool \<times> stringaa" where
  "stringaa_end_read_pos s = (True,
     s\<lparr>read_pos := (if write_pos s > 0 then write_pos s - 1 else write_pos s)\<rparr>)"

definition stringaa_next_write_pos :: "stringaa \<Rightarrow> bool \<times> stringaa" where
  "stringaa_next_write_pos s = (if write_pos s + of_bool (is_null_terminated s) + 1 < buf_size s
     then (True, s\<lparr>write_pos := write_pos s + 1\<rparr>)
     else (False, s\<lparr>write_pos := end_of s\<rparr>))"

definition stringaa_prev_write_pos :: "stringaa \<Rightarrow> bool \<times> stringaa" where
  "stringaa_prev_write_pos s =
     (if write_pos s > 0 \<and> write_pos s + of_bool (is_null_terminated s) \<le> buf_size s
      then (True, s\<lparr>write_pos := write_pos s - 1\<rparr>)
      else (False, s\<lparr>write_pos := end_of s\<rparr>))"

definition stringaa_begin_write_pos :: "stringaa \<Rightarrow> bool \<times> stringaa" where
  "stringaa_begin_write_pos s = (True, s\<lparr>write_pos := 0\<rparr>)"

definition stringaa_end_write_pos :: "stringaa \<Rightarrow> bool \<times> stringaa" where
  "stringaa_end_write_pos s = (True,
     s\<lparr>write_pos := (if end_of s > 0 then end_of s - 1 else end_of s)\<rparr>)"

definition stringaa_clean :: "stringaa \<Rightarrow> bool \<times> stringaa" where
  "stringaa_clean s = (let (r, s) = stringaa_begin_read_pos s in
     if r then (let (w, s) = stringaa_begin_write_pos s in (w, s)) else (False, s))"

section \<open>Reading characters\<close>

definition stringaa_get_char :: "mem \<Rightarrow> stringaa \<Rightarrow> char option" where
  "stringaa_get_char m s =
     (if read_pos s < write_pos s then load m (buf s) (read_pos s) else Some NUL)"

definition stringaa_is_char :: "mem \<Rightarrow> stringaa \<Rightarrow> char \<Rightarrow> (bool \<times> stringaa) option" where
  "stringaa_is_char m s c = do {
     d \<leftarrow> stringaa_get_char m s;
     Some (if c = d then (True, snd (stringaa_next_read_pos s)) else (False, s)) }"

text \<open>The case-insensitive test reads the buffer without a test of the position.\<close>

definition stringaa_is_chari :: "mem \<Rightarrow> stringaa \<Rightarrow> char \<Rightarrow> (bool \<times> stringaa) option" where
  "stringaa_is_chari m s c = do {
     d \<leftarrow> load m (buf s) (read_pos s);
     Some (if c_toupper c = c_toupper d then (True, s\<lparr>read_pos := read_pos s + 1\<rparr>)
           else (False, s)) }"

text \<open>What \<open>stringaa_fprint\<close> writes: its result code and the bytes put on the stream.\<close>

definition stringaa_fprint :: "mem \<Rightarrow> stringaa \<Rightarrow> (int \<times> char list) option" where
  "stringaa_fprint m s = (if \<not> is_init s then Some (- 1, [])
     else do {
       let n = (if is_null_terminated s then write_pos s else write_pos s + 1);
       cs \<leftarrow> load_n m (buf s) n;
       Some (0, if is_binary s then map (\<lambda>c. char_of (or (of_char c :: nat) 0x30)) cs else cs) })"

definition stringaa_fprint_line :: "mem \<Rightarrow> stringaa \<Rightarrow> (int \<times> char list) option" where
  "stringaa_fprint_line m s = do { (r, cs) \<leftarrow> stringaa_fprint m s; Some (r, cs @ [CHR 0x0A]) }"

definition stringaa_print :: "mem \<Rightarrow> stringaa \<Rightarrow> (int \<times> char list) option" where
  "stringaa_print m s = stringaa_fprint m s"

definition stringaa_print_line :: "mem \<Rightarrow> stringaa \<Rightarrow> (int \<times> char list) option" where
  "stringaa_print_line m s = do { (r, cs) \<leftarrow> stringaa_print m s; Some (r, cs @ [CHR 0x0A]) }"

section \<open>Views of other buffers\<close>

definition stringaa_set_chars_size ::
  "mem \<Rightarrow> stringaa \<Rightarrow> cptr \<Rightarrow> nat \<Rightarrow> (bool \<times> stringaa \<times> mem) option" where
  "stringaa_set_chars_size m s b n = (if b \<noteq> Null \<and> n \<noteq> 0
     then do {
       m \<leftarrow> (if is_alloc s then c_free m (buf s) else Some m);
       let s = set_flags [STRINGAA_IS_INIT] (s\<lparr>buf := b, buf_size := n, read_pos := 0\<rparr>);
       Some (True, s\<lparr>write_pos := end_of s\<rparr>, m) }
     else Some (False, s, m))"

definition stringaa_set_chars :: "mem \<Rightarrow> stringaa \<Rightarrow> cptr \<Rightarrow> (bool \<times> stringaa \<times> mem) option" where
  "stringaa_set_chars m s b = (if b = Null then Some (False, s, m)
     else do {
       n \<leftarrow> c_strlen m b;
       if n > 0 then do {
         (ok, s, m) \<leftarrow> stringaa_set_chars_size m s b n;
         Some (if ok then (ok, s\<lparr>is_null_terminated := True, buf_size := buf_size s + 1\<rparr>, m)
               else (ok, s, m)) }
       else Some (False, s, m) })"

definition STRINGAA_READ_POS :: int where "STRINGAA_READ_POS = - 1"
definition STRINGAA_WRITE_POS :: int where "STRINGAA_WRITE_POS = - 2"

text \<open>\<open>s1\<close> becomes the view \<open>[pos1, pos2)\<close> of \<open>s2\<close>; the call reports success always.\<close>

definition stringaa_set_substring ::
  "mem \<Rightarrow> stringaa \<Rightarrow> stringaa \<Rightarrow> int \<Rightarrow> int \<Rightarrow> (bool \<times> stringaa \<times> mem) option" where
  "stringaa_set_substring m s1 s2 p1 p2 = (
     let p1 = (if p1 = STRINGAA_READ_POS then to_int (read_pos s2) else p1);
         p2 = (if p2 = STRINGAA_READ_POS then to_int (read_pos s2)
               else if p2 = STRINGAA_WRITE_POS then to_int (write_pos s2) else p2)
     in if 0 \<le> p1 \<and> p1 < p2 \<and> p2 \<le> int (write_pos s2)
        then do {
          m \<leftarrow> (if is_alloc s1 then c_free m (buf s1) else Some m);
          let s1 = set_flags [STRINGAA_IS_INIT] (s1\<lparr>buf := padd (buf s2) (nat p1),
                     buf_size := nat (p2 - p1), read_pos := 0\<rparr>);
          Some (True, s1\<lparr>write_pos := end_of s1\<rparr>, m) }
        else Some (True, s1, m))"

end
