(* ===== verification/Reader.thy ===== *)
theory Reader
  imports Stringaa
begin

text \<open>
  The interface between the string library and the two parsers: a cursor over some data, with
  the operations \<open>stringaa_get_char\<close>, \<open>stringaa_next_read_pos\<close>, \<open>stringaa_prev_read_pos\<close> and
  \<open>stringaa_is_char\<close> (\<open>src/string/stringaa.h\<close>).  The locale \<open>char_reader\<close> states what a parser
  may rely on; its interpretation on the model of the library discharges the laws.  The
  relation \<open>moved\<close> is the frame of every parser: only the read position changes, forward, and
  not past the data.
\<close>

section \<open>The reader interface\<close>

locale char_reader =
  fixes ok :: "'s \<Rightarrow> bool"
    and data :: "'s \<Rightarrow> char list"
    and pos :: "'s \<Rightarrow> nat"
    and get :: "'s \<Rightarrow> char option"
    and advance :: "'s \<Rightarrow> bool \<times> 's"
  assumes get_peek: "ok s \<Longrightarrow> get s = Some (peek (data s) (pos s))"
    and advance_more: "fst (advance s) \<longleftrightarrow> Suc (pos s) < length (data s)"
    and advance_pos: "pos (snd (advance s)) =
          (if Suc (pos s) < length (data s) then Suc (pos s) else length (data s))"
    and advance_data: "data (snd (advance s)) = data s"
    and advance_ok: "ok (snd (advance s)) = ok s"
begin

lemma advance_bound: "pos (snd (advance s)) \<le> length (data s)"
  by (simp add: advance_pos)

lemma advance_forward: "pos s \<le> length (data s) \<Longrightarrow> pos s \<le> pos (snd (advance s))"
  by (simp add: advance_pos)

lemma advance_min: "pos s \<le> length (data s) \<Longrightarrow>
    pos (snd (advance s)) = min (Suc (pos s)) (length (data s))"
  by (simp add: advance_pos)

lemma advance_measure: "fst (advance s) \<Longrightarrow>
    length (data s) - pos (snd (advance s)) < length (data s) - pos s"
  by (auto simp: advance_pos advance_more)

text \<open>Advancing \<open>n\<close> times visits the data in order and never leaves it.\<close>

lemma advance_pow_data: "data (((snd \<circ> advance) ^^ n) s) = data s"
  by (induction n) (auto simp: advance_data)

lemma advance_pow_ok: "ok (((snd \<circ> advance) ^^ n) s) = ok s"
  by (induction n) (auto simp: advance_ok)

lemma advance_pow_pos: "pos s \<le> length (data s) \<Longrightarrow>
    pos (((snd \<circ> advance) ^^ n) s) = min (pos s + n) (length (data s))"
  by (induction n) (auto simp: advance_pos advance_pow_data)

lemma advance_pow_get:
  assumes "ok s" and "pos s \<le> length (data s)"
  shows "get (((snd \<circ> advance) ^^ n) s) = Some (peek (data s) (pos s + n))"
proof -
  have "get (((snd \<circ> advance) ^^ n) s) =
      Some (peek (data s) (min (pos s + n) (length (data s))))"
    using assms by (simp add: get_peek advance_pow_ok advance_pow_data advance_pow_pos)
  then show ?thesis by (simp add: min_def)
qed

end

section \<open>Readable strings\<close>

text \<open>The bytes before the write position are in live memory; \<open>chars\<close> is those bytes.\<close>

definition readable :: "mem \<Rightarrow> stringaa \<Rightarrow> bool" where
  "readable m s \<longleftrightarrow> load_n m (buf s) (write_pos s) \<noteq> None"

definition chars :: "mem \<Rightarrow> stringaa \<Rightarrow> char list" where
  "chars m s = (case load_n m (buf s) (write_pos s) of None \<Rightarrow> replicate (write_pos s) NUL
     | Some cs \<Rightarrow> cs)"

lemma load_n_length: "load_n m p n = Some cs \<Longrightarrow> length cs = n"
  by (auto simp: load_n_def split: if_splits option.splits)

lemma length_chars [simp]: "length (chars m s) = write_pos s"
  by (auto simp: chars_def dest: load_n_length split: option.splits)

lemma readable_read_pos [simp]: "readable m (s\<lparr>read_pos := p\<rparr>) = readable m s"
  by (simp add: readable_def)

lemma chars_read_pos [simp]: "chars m (s\<lparr>read_pos := p\<rparr>) = chars m s"
  by (simp add: chars_def split: option.splits)

lemma load_readable:
  assumes "readable m s" and "i < write_pos s"
  shows "load m (buf s) i = Some (chars m s ! i)"
proof -
  from assms obtain bs where "region m (buf s) = Some bs" "write_pos s \<le> length bs"
    by (auto simp: readable_def load_n_def split: if_splits option.splits)
  with assms show ?thesis
    by (auto simp: load_def chars_def load_n_def)
qed

lemma load_n_readable:
  assumes "readable m s" and "p + n \<le> write_pos s"
  shows "load_n m (padd (buf s) p) n = Some (take n (drop p (chars m s)))"
proof (cases "n = 0")
  case True
  then show ?thesis by (simp add: load_n_def)
next
  case False
  from assms False obtain bs where bs: "region m (buf s) = Some bs" "write_pos s \<le> length bs"
    by (auto simp: readable_def load_n_def split: if_splits option.splits)
  with assms False have "region m (padd (buf s) p) = Some (drop p bs)"
    by (intro region_padd) auto
  moreover have "chars m s = take (write_pos s) bs"
    using bs by (auto simp: chars_def load_n_def)
  ultimately show ?thesis
    using assms bs False by (auto simp: load_n_def drop_take min_def)
qed

lemma stringaa_get_char_readable [simp]:
  "readable m s \<Longrightarrow> stringaa_get_char m s = Some (peek (chars m s) (read_pos s))"
  by (simp add: stringaa_get_char_def load_readable peek_def)

interpretation rd: char_reader "readable m" "chars m" read_pos "stringaa_get_char m"
    stringaa_next_read_pos for m
  by unfold_locales (auto simp: stringaa_next_read_pos_def)

section \<open>The frame of a parser\<close>

definition moved :: "stringaa \<Rightarrow> stringaa \<Rightarrow> bool" where
  "moved s s' \<longleftrightarrow> (\<exists>p. s' = s\<lparr>read_pos := p\<rparr> \<and> read_pos s \<le> p \<and> p \<le> write_pos s)"

text \<open>A string a parser may be called on.\<close>

definition cursor :: "mem \<Rightarrow> stringaa \<Rightarrow> bool" where
  "cursor m s \<longleftrightarrow> readable m s \<and> read_pos s \<le> write_pos s"

lemma read_pos_same [simp]: "s\<lparr>read_pos := read_pos s\<rparr> = s"
  by (cases s) simp

lemma movedI: "read_pos s \<le> p \<Longrightarrow> p \<le> write_pos s \<Longrightarrow> moved s (s\<lparr>read_pos := p\<rparr>)"
  unfolding moved_def by blast

lemma movedE:
  assumes "moved s s'"
  obtains p where "s' = s\<lparr>read_pos := p\<rparr>" and "read_pos s \<le> p" and "p \<le> write_pos s"
  using assms unfolding moved_def by blast

lemma moved_refl: "read_pos s \<le> write_pos s \<Longrightarrow> moved s s"
  using movedI [of s "read_pos s"] by simp

lemma moved_trans: "moved s s' \<Longrightarrow> moved s' s'' \<Longrightarrow> moved s s''"
  by (elim movedE) (auto intro: movedI)

lemma moved_write_pos: "moved s s' \<Longrightarrow> write_pos s' = write_pos s"
  by (auto simp: moved_def)

lemma moved_cursor: "moved s s' \<Longrightarrow> cursor m s \<Longrightarrow> cursor m s'"
  by (auto simp: moved_def cursor_def)

lemma moved_chars: "moved s s' \<Longrightarrow> chars m s' = chars m s"
  by (auto simp: moved_def)

lemma moved_le: "moved s s' \<Longrightarrow> read_pos s \<le> read_pos s' \<and> read_pos s' \<le> write_pos s"
  by (auto simp: moved_def)

lemma moved_eq: "moved s s' \<Longrightarrow> s' = s\<lparr>read_pos := read_pos s'\<rparr>"
  by (auto simp: moved_def)

section \<open>Strings in a given memory\<close>

text \<open>The memory with the given blocks, and the string that views the first bytes of one.\<close>

definition memory_of :: "char list list \<Rightarrow> mem" where
  "memory_of css = \<lparr>blocks = (\<lambda>a. if a < length css then Some (css ! a) else None),
     nalloc = length css, oom = (\<lambda>_. False), junk = (\<lambda>_ _. NUL)\<rparr>"

definition string_at :: "nat \<Rightarrow> nat \<Rightarrow> stringaa" where
  "string_at a n = stringaa_zero\<lparr>buf := Ptr a 0, buf_size := n, write_pos := n, is_init := True\<rparr>"

lemma memory_of_simps [simp]:
  "blocks (memory_of css) a = (if a < length css then Some (css ! a) else None)"
  "nalloc (memory_of css) = length css" "oom (memory_of css) i = False"
  "mem_ok (memory_of css)"
  by (simp_all add: memory_of_def mem_ok_def)

lemma string_at_simps [simp]:
  "buf (string_at a n) = Ptr a 0" "buf_size (string_at a n) = n" "write_pos (string_at a n) = n"
  "read_pos (string_at a n) = 0" "is_init (string_at a n)" "\<not> is_alloc (string_at a n)"
  "\<not> is_null_terminated (string_at a n)"
  by (simp_all add: string_at_def stringaa_zero_def)

lemma string_at_readable [simp]:
  "a < length css \<Longrightarrow> n \<le> length (css ! a) \<Longrightarrow> readable (memory_of css) (string_at a n)"
  "a < length css \<Longrightarrow> n \<le> length (css ! a) \<Longrightarrow> chars (memory_of css) (string_at a n) = take n (css ! a)"
  by (simp_all add: readable_def chars_def load_n_in)

end
