(* ===== verification/Uri_Chars.thy ===== *)
theory Uri_Chars
  imports Reader
begin

text \<open>
  The lexical layer of the URI parser, \<open>src/url/uriaa_rfc2396.h\<close>: the character class macros,
  \<open>escaped\<close>, and the two scanning loops that the parser functions repeat.  The class macros
  that contain \<open>ESCAPED_CHARS\<close> move the read position when an escape is found; they are
  \<open>esc_class pre post\<close>, where \<open>pre\<close> and \<open>post\<close> are the alternatives before and after the call.

  \<open>scan_end\<close> is the position where such a loop stops, as a function of the data; \<open>uri_scan_eq\<close>
  is the refinement of the loop to it.
\<close>

section \<open>Character classes\<close>

definition DIGIT_CHARS :: "char \<Rightarrow> bool" where [cclass]:
  "DIGIT_CHARS c \<longleftrightarrow> in_range (CHR ''0'') (CHR ''9'') c"

definition LOWALPHA_CHARS :: "char \<Rightarrow> bool" where [cclass]:
  "LOWALPHA_CHARS c \<longleftrightarrow> in_range (CHR ''a'') (CHR ''z'') c"

definition UPALPHA_CHARS :: "char \<Rightarrow> bool" where [cclass]:
  "UPALPHA_CHARS c \<longleftrightarrow> in_range (CHR ''A'') (CHR ''Z'') c"

definition ALPHA_CHARS :: "char \<Rightarrow> bool" where [cclass]:
  "ALPHA_CHARS c \<longleftrightarrow> LOWALPHA_CHARS c \<or> UPALPHA_CHARS c"

definition ALPHANUM_CHARS :: "char \<Rightarrow> bool" where [cclass]:
  "ALPHANUM_CHARS c \<longleftrightarrow> ALPHA_CHARS c \<or> DIGIT_CHARS c"

definition HEX_CHARS :: "char \<Rightarrow> bool" where [cclass]:
  "HEX_CHARS c \<longleftrightarrow> DIGIT_CHARS c \<or> in_range (CHR ''A'') (CHR ''F'') c
     \<or> in_range (CHR ''a'') (CHR ''f'') c"

definition MARK_CHARS :: "char \<Rightarrow> bool" where [cclass]:
  "MARK_CHARS c \<longleftrightarrow> c \<in> {CHR ''-'', CHR ''_'', CHR ''.'', CHR ''!'', CHR ''~'', CHR ''*'',
     CHR 0x27, CHR ''('', CHR '')''}"

definition UNRESERVED_CHARS :: "char \<Rightarrow> bool" where [cclass]:
  "UNRESERVED_CHARS c \<longleftrightarrow> ALPHANUM_CHARS c \<or> MARK_CHARS c"

definition RESERVED_CHARS :: "char \<Rightarrow> bool" where [cclass]:
  "RESERVED_CHARS c \<longleftrightarrow> c \<in> {CHR '';'', CHR ''/'', CHR ''?'', CHR '':'', CHR ''@'', CHR ''&'',
     CHR ''='', CHR ''+'', CHR ''$'', CHR '',''}"

definition SCHEME_CHARS :: "char \<Rightarrow> bool" where [cclass]:
  "SCHEME_CHARS c \<longleftrightarrow> ALPHA_CHARS c \<or> DIGIT_CHARS c \<or> c = CHR ''+'' \<or> c = CHR ''-'' \<or> c = CHR ''.''"

text \<open>The alternatives that follow \<open>UNRESERVED_CHARS || ESCAPED_CHARS\<close> in each macro.\<close>

definition pchar_post :: "char \<Rightarrow> bool" where [cclass]:
  "pchar_post c \<longleftrightarrow> c \<in> {CHR '':'', CHR ''@'', CHR ''&'', CHR ''='', CHR ''+'', CHR ''$'', CHR '',''}"

definition userinfo_post :: "char \<Rightarrow> bool" where [cclass]:
  "userinfo_post c \<longleftrightarrow> c \<in> {CHR '';'', CHR '':'', CHR ''&'', CHR ''='', CHR ''+'', CHR ''$'', CHR '',''}"

definition reg_name_post :: "char \<Rightarrow> bool" where [cclass]:
  "reg_name_post c \<longleftrightarrow> c \<in> {CHR ''$'', CHR '','', CHR '';'', CHR '':'', CHR ''@'', CHR ''&'',
     CHR ''='', CHR ''+''}"

definition rel_segment_post :: "char \<Rightarrow> bool" where [cclass]:
  "rel_segment_post c \<longleftrightarrow> c \<in> {CHR '';'', CHR ''@'', CHR ''&'', CHR ''='', CHR ''+'', CHR ''$'', CHR '',''}"

definition uric_no_slash_post :: "char \<Rightarrow> bool" where [cclass]:
  "uric_no_slash_post c \<longleftrightarrow> c \<in> {CHR '';'', CHR ''?'', CHR '':'', CHR ''@'', CHR ''&'', CHR ''='',
     CHR ''+'', CHR ''$'', CHR '',''}"

definition uric_pre :: "char \<Rightarrow> bool" where [cclass]:
  "uric_pre c \<longleftrightarrow> RESERVED_CHARS c \<or> UNRESERVED_CHARS c"

definition no_char :: "char \<Rightarrow> bool" where [cclass]:
  "no_char c \<longleftrightarrow> False"

text \<open>Excluded characters, for the escaping functions.\<close>

definition CONTROL_CHARS :: "char \<Rightarrow> bool" where [cclass]:
  "CONTROL_CHARS c \<longleftrightarrow> (0 \<le> schar c \<and> schar c \<le> 0x1f) \<or> schar c = 0x7f"

definition SPACE_CHARS :: "char \<Rightarrow> bool" where [cclass]:
  "SPACE_CHARS c \<longleftrightarrow> schar c = 0x20"

definition DELIMS_CHARS :: "char \<Rightarrow> bool" where [cclass]:
  "DELIMS_CHARS c \<longleftrightarrow> c \<in> {CHR ''<'', CHR ''>'', CHR ''#'', CHR ''%'', CHR 0x22}"

definition UNWISE_CHARS :: "char \<Rightarrow> bool" where [cclass]:
  "UNWISE_CHARS c \<longleftrightarrow> c \<in> {CHR ''{'', CHR ''}'', CHR ''|'', CHR 0x5C, CHR ''^'', CHR ''['',
     CHR '']'', CHR 0x60}"

lemmas range_defs = in_range_def schar_def

section \<open>Escapes\<close>

definition escaped :: "mem \<Rightarrow> stringaa \<Rightarrow> (bool \<times> stringaa) option" where
  "escaped m uri = (let pos = read_pos uri in do {
     c \<leftarrow> stringaa_get_char m uri;
     if c = CHR ''%''
     then (let (nx, uri) = stringaa_next_read_pos uri in
       if nx then do {
         c \<leftarrow> stringaa_get_char m uri;
         if HEX_CHARS c
         then (let (nx, uri) = stringaa_next_read_pos uri in
           if nx then do {
             c \<leftarrow> stringaa_get_char m uri;
             if HEX_CHARS c then Some (True, snd (stringaa_next_read_pos uri))
             else Some (False, uri\<lparr>read_pos := pos\<rparr>) }
           else Some (False, uri\<lparr>read_pos := pos\<rparr>))
         else Some (False, uri\<lparr>read_pos := pos\<rparr>) }
       else Some (False, uri))
     else Some (False, uri) })"

text \<open>A class macro \<open>pre || ESCAPED_CHARS || post\<close> on the character \<open>c\<close> under the cursor.\<close>

definition esc_class ::
  "(char \<Rightarrow> bool) \<Rightarrow> (char \<Rightarrow> bool) \<Rightarrow> mem \<Rightarrow> stringaa \<Rightarrow> char \<Rightarrow> (bool \<times> stringaa) option" where
  "esc_class pre post m s c = (if pre c then Some (True, s)
     else do {
       (e, s) \<leftarrow> escaped m s;
       Some (e \<or> post c, s) })"

lemma next_measure: "stringaa_next_read_pos s = (True, s') \<Longrightarrow>
    write_pos s' = write_pos s \<and> write_pos s' - read_pos s' < write_pos s - read_pos s"
  by (auto simp: stringaa_next_read_pos_def split: if_splits)

lemma next_measure_le: "stringaa_next_read_pos s = (b, s') \<Longrightarrow>
    write_pos s' = write_pos s \<and> write_pos s' - read_pos s' \<le> write_pos s - read_pos s"
  by (auto simp: stringaa_next_read_pos_def split: if_splits)

lemma escaped_measure: "escaped m s = Some (b, s') \<Longrightarrow>
    write_pos s' = write_pos s \<and> write_pos s' - read_pos s' \<le> write_pos s - read_pos s"
  by (auto simp: escaped_def stringaa_next_read_pos_def Let_def bind_eq_Some_conv
      split: if_splits)

lemma esc_class_measure: "esc_class pre post m s c = Some (b, s') \<Longrightarrow>
    write_pos s' = write_pos s \<and> write_pos s' - read_pos s' \<le> write_pos s - read_pos s"
  by (auto simp: esc_class_def bind_eq_Some_conv dest: escaped_measure split: if_splits)

section \<open>The scanning loops\<close>

text \<open>\<open>while (CLASS) { if (stringaa_next_read_pos(uri)) c = stringaa_get_char(uri); else break; }\<close>\<close>

function uri_scan ::
  "(char \<Rightarrow> bool) \<Rightarrow> (char \<Rightarrow> bool) \<Rightarrow> mem \<Rightarrow> stringaa \<Rightarrow> char \<Rightarrow> stringaa option" where
  "uri_scan pre post m s c = do {
     (b, s) \<leftarrow> esc_class pre post m s c;
     if b then (case stringaa_next_read_pos s of (nx, s) \<Rightarrow>
       if nx then do { c \<leftarrow> stringaa_get_char m s; uri_scan pre post m s c } else Some s)
     else Some s }"
  by pat_completeness auto
termination
  by (relation "measure (\<lambda>(pre, post, m, s, c). write_pos s - read_pos s)")
    (auto dest!: esc_class_measure next_measure [OF sym])

text \<open>The same loop where the class has no escape.\<close>

function char_scan :: "(char \<Rightarrow> bool) \<Rightarrow> mem \<Rightarrow> stringaa \<Rightarrow> char \<Rightarrow> stringaa option" where
  "char_scan P m s c = (if P c
     then (case stringaa_next_read_pos s of (nx, s) \<Rightarrow>
       if nx then do { c \<leftarrow> stringaa_get_char m s; char_scan P m s c } else Some s)
     else Some s)"
  by pat_completeness auto
termination
  by (relation "measure (\<lambda>(P, m, s, c). write_pos s - read_pos s)")
    (auto dest!: next_measure [OF sym])

declare uri_scan.simps [simp del] char_scan.simps [simp del]

section \<open>What the loops compute\<close>

definition escape_at :: "char list \<Rightarrow> nat \<Rightarrow> bool" where
  "escape_at cs p \<longleftrightarrow> p + 2 < length cs \<and> cs ! p = CHR ''%'' \<and> HEX_CHARS (cs ! (p + 1))
     \<and> HEX_CHARS (cs ! (p + 2))"

function scan_end :: "(char \<Rightarrow> bool) \<Rightarrow> char list \<Rightarrow> nat \<Rightarrow> nat" where
  "scan_end P cs p = (if p < length cs
     then if P (cs ! p) then scan_end P cs (p + 1)
       else if escape_at cs p then scan_end P cs (min (length cs) (p + 4))
       else if cs ! p = CHR ''%'' \<and> p + 1 = length cs then length cs else p
     else p)"
  by pat_completeness auto
termination
  by (relation "measure (\<lambda>(P, cs, p). length cs - p)") auto

declare scan_end.simps [simp del]

lemma scan_end_bounds: "p \<le> length cs \<Longrightarrow> p \<le> scan_end P cs p \<and> scan_end P cs p \<le> length cs"
proof (induction P cs p rule: scan_end.induct)
  case (1 P cs p)
  then show ?case
    by (subst (1 2) scan_end.simps) (auto simp: min_def escape_at_def split: if_splits)
qed

lemma scan_end_out: "length cs \<le> p \<Longrightarrow> scan_end P cs p = p"
  by (simp add: scan_end.simps)

lemma escaped_eq:
  assumes "cursor m s"
  defines "cs \<equiv> chars m s" and "p \<equiv> read_pos s"
  shows "escaped m s = Some (
    if escape_at cs p then (True, s\<lparr>read_pos := min (length cs) (p + 3)\<rparr>)
    else if p < length cs \<and> cs ! p = CHR ''%'' \<and> p + 1 = length cs
      then (False, s\<lparr>read_pos := length cs\<rparr>)
    else (False, s))"
  using assms(1) unfolding cs_def p_def
  by (auto simp: escaped_def cursor_def stringaa_next_read_pos_def peek_def escape_at_def Let_def)

definition plain_class :: "(char \<Rightarrow> bool) \<Rightarrow> bool" where
  "plain_class P \<longleftrightarrow> \<not> P NUL \<and> \<not> P (CHR ''%'')"

lemma esc_class_eq:
  assumes "cursor m s" and "plain_class (\<lambda>c. pre c \<or> post c)"
  defines "cs \<equiv> chars m s" and "p \<equiv> read_pos s"
  shows "esc_class pre post m s (peek cs p) = Some (
    if pre (peek cs p) \<or> post (peek cs p) then (True, s)
    else if escape_at cs p then (True, s\<lparr>read_pos := min (length cs) (p + 3)\<rparr>)
    else if p < length cs \<and> cs ! p = CHR ''%'' \<and> p + 1 = length cs
      then (False, s\<lparr>read_pos := length cs\<rparr>)
    else (False, s))"
  using assms(1,2) unfolding cs_def p_def
  by (auto simp: esc_class_def escaped_eq plain_class_def escape_at_def)

lemma esc_class_range:
  assumes "cursor m s" and "plain_class (\<lambda>c. pre c \<or> post c)"
  shows "\<exists>b q. esc_class pre post m s (peek (chars m s) (read_pos s)) = Some (b, s\<lparr>read_pos := q\<rparr>)
    \<and> read_pos s \<le> q \<and> q \<le> write_pos s"
proof -
  let ?cs = "chars m s" and ?p = "read_pos s"
  have "?p \<le> write_pos s" using assms(1) by (simp add: cursor_def)
  then show ?thesis
    unfolding esc_class_eq [OF assms]
    by (cases "pre (peek ?cs ?p) \<or> post (peek ?cs ?p)"; cases "escape_at ?cs ?p")
      (auto intro: exI [of _ ?p] exI [of _ "min (length ?cs) (?p + 3)"] exI [of _ "length ?cs"])
qed

lemma uri_scan_eq:
  assumes "cursor m s" and "plain_class (\<lambda>c. pre c \<or> post c)"
    and "c = peek (chars m s) (read_pos s)"
  shows "uri_scan pre post m s c =
    Some (s\<lparr>read_pos := scan_end (\<lambda>c. pre c \<or> post c) (chars m s) (read_pos s)\<rparr>)"
  using assms
proof (induction "write_pos s - read_pos s" arbitrary: s c rule: less_induct)
  case less
  let ?cs = "chars m s" and ?p = "read_pos s" and ?P = "\<lambda>c. pre c \<or> post c"
  note cl = esc_class_eq [OF less(2,3), folded less(4)]
  have ok: "readable m s" "?p \<le> write_pos s" using less(2) by (auto simp: cursor_def)
  have rec: "uri_scan pre post m (s\<lparr>read_pos := q\<rparr>) (peek ?cs q) =
      Some (s\<lparr>read_pos := scan_end ?P ?cs q\<rparr>)" if "?p < q" "q \<le> length ?cs" for q
    using less(1) [of "s\<lparr>read_pos := q\<rparr>" "peek ?cs q"] that ok less(3)
    by (simp add: cursor_def)
  have step: "uri_scan pre post m s c = Some (s\<lparr>read_pos := scan_end ?P ?cs q\<rparr>)"
    if "esc_class pre post m s c = Some (True, s\<lparr>read_pos := q0\<rparr>)" "?p \<le> q0" "?p < length ?cs"
      "q = min (length ?cs) (q0 + 1)" for q q0
    using that rec [of q] ok
    by (subst uri_scan.simps) (auto simp: stringaa_next_read_pos_def min_def scan_end_out)
  show ?case
  proof (cases "?p < length ?cs")
    case False
    with ok less(3,4) cl show ?thesis
      by (simp add: uri_scan.simps scan_end_out plain_class_def escape_at_def)
  next
    case True
    then consider (plain) "?P c" | (esc) "\<not> ?P c" "escape_at ?cs ?p"
      | (other) "\<not> ?P c" "\<not> escape_at ?cs ?p" by blast
    then show ?thesis
    proof cases
      case plain
      with step [of ?p "?p + 1"] cl True less(4) show ?thesis
        by (subst scan_end.simps) (simp add: min_def)
    next
      case esc
      then have "?p + 3 \<le> length ?cs" by (simp add: escape_at_def)
      with esc step [of "min (length ?cs) (?p + 3)" "min (length ?cs) (?p + 4)"] cl True less(4)
      show ?thesis
        by (subst scan_end.simps) (auto simp: min_def add.commute)
    next
      case other
      with cl ok less(4) True show ?thesis
        by (subst uri_scan.simps, subst scan_end.simps) auto
    qed
  qed
qed

text \<open>The loop without escapes stops at the first character outside the class.\<close>

definition run_end :: "(char \<Rightarrow> bool) \<Rightarrow> char list \<Rightarrow> nat \<Rightarrow> nat" where
  "run_end P cs p = p + length (takeWhile P (drop p cs))"

lemma run_end_step: "p < length cs \<Longrightarrow>
    run_end P cs p = (if P (cs ! p) then run_end P cs (Suc p) else p)"
  by (simp add: run_end_def Cons_nth_drop_Suc [symmetric])

lemma run_end_out: "length cs \<le> p \<Longrightarrow> run_end P cs p = p"
  by (simp add: run_end_def)

lemma run_end_bounds: "p \<le> length cs \<Longrightarrow> p \<le> run_end P cs p \<and> run_end P cs p \<le> length cs"
  using length_takeWhile_le [of P "drop p cs"] by (simp add: run_end_def)

lemma char_scan_eq:
  assumes "cursor m s" and "\<not> P NUL" and "c = peek (chars m s) (read_pos s)"
  shows "char_scan P m s c = Some (s\<lparr>read_pos := run_end P (chars m s) (read_pos s)\<rparr>)"
  using assms
proof (induction "write_pos s - read_pos s" arbitrary: s c rule: less_induct)
  case less
  let ?cs = "chars m s" and ?p = "read_pos s"
  have ok: "readable m s" "?p \<le> write_pos s" using less(2) by (auto simp: cursor_def)
  show ?case
  proof (cases "?p < length ?cs \<and> P c")
    case False
    with ok less(3,4) show ?thesis
      by (subst char_scan.simps) (auto simp: run_end_out run_end_step peek_def split: if_splits)
  next
    case True
    with less(1) [of "s\<lparr>read_pos := ?p + 1\<rparr>" "peek ?cs (?p + 1)"] ok less(3,4) show ?thesis
      by (subst char_scan.simps, subst run_end_step)
        (auto simp: stringaa_next_read_pos_def cursor_def run_end_out)
  qed
qed

lemma uri_scan_measure: "uri_scan pre post m s c = Some s' \<Longrightarrow>
    write_pos s' = write_pos s \<and> write_pos s' - read_pos s' \<le> write_pos s - read_pos s"
proof (induction "write_pos s - read_pos s" arbitrary: s c s' rule: less_induct)
  case less
  from less(2) obtain b s1 where s1: "esc_class pre post m s c = Some (b, s1)"
    by (subst (asm) uri_scan.simps) (auto simp: bind_eq_Some_conv)
  obtain nx s2 where s2: "stringaa_next_read_pos s1 = (nx, s2)" by fastforce
  show ?case
  proof (cases "b \<and> nx")
    case True
    with less(2) s1 s2 obtain d where d: "uri_scan pre post m s2 d = Some s'"
      by (subst (asm) uri_scan.simps) (auto simp: bind_eq_Some_conv)
    with less(1) [OF _ d] True esc_class_measure [OF s1] next_measure [of s1 s2] s2
    show ?thesis by auto
  next
    case False
    with less(2) s1 s2 esc_class_measure [OF s1] next_measure_le [OF s2] show ?thesis
      by (subst (asm) uri_scan.simps) (auto split: if_splits)
  qed
qed

lemma char_scan_measure: "char_scan P m s c = Some s' \<Longrightarrow>
    write_pos s' = write_pos s \<and> write_pos s' - read_pos s' \<le> write_pos s - read_pos s"
proof (induction "write_pos s - read_pos s" arbitrary: s c s' rule: less_induct)
  case less
  obtain nx s2 where s2: "stringaa_next_read_pos s = (nx, s2)" by fastforce
  show ?case
  proof (cases "P c \<and> nx")
    case True
    with less(2) s2 obtain d where d: "char_scan P m s2 d = Some s'"
      by (subst (asm) char_scan.simps) (auto simp: bind_eq_Some_conv)
    with less(1) [OF _ d] True next_measure [of s s2] s2 show ?thesis by auto
  next
    case False
    with less(2) s2 next_measure_le [OF s2] show ?thesis
      by (subst (asm) char_scan.simps) (auto split: if_splits)
  qed
qed

lemma is_char_measure: "stringaa_is_char m s c = Some (True, s') \<Longrightarrow> c \<noteq> NUL \<Longrightarrow>
    write_pos s' = write_pos s \<and> write_pos s' - read_pos s' < write_pos s - read_pos s"
  by (auto simp: stringaa_is_char_def stringaa_get_char_def stringaa_next_read_pos_def
      bind_eq_Some_conv split: if_splits)

end
