(* ===== verification/Uri_Parser.thy ===== *)
theory Uri_Parser
  imports Uri_Chars
begin

text \<open>
  The recursive-descent parser of \<open>src/url/uriaa_rfc2396.h\<close>, one definition per function and in
  its terms: each takes the \<open>uriaa\<close> struct, moves the read position of its string \<open>uri\<close>,
  records the part it recognised as a view of that string, and says whether it succeeded.
  The struct fields carry the prefix \<open>u_\<close>, because the functions have their names.
\<close>

section \<open>The struct\<close>

record uriaa =
  u_uri :: stringaa
  u_scheme :: stringaa
  u_authority :: stringaa
  u_userinfo :: stringaa
  u_host :: stringaa
  u_port :: stringaa
  u_path :: stringaa
  u_net_path :: stringaa
  u_abs_path :: stringaa
  u_rel_path :: stringaa
  u_opaque_part :: stringaa
  u_query :: stringaa
  u_fragment :: stringaa

definition uriaa_zero :: uriaa where
  "uriaa_zero = \<lparr>u_uri = stringaa_zero, u_scheme = stringaa_zero, u_authority = stringaa_zero,
     u_userinfo = stringaa_zero, u_host = stringaa_zero, u_port = stringaa_zero,
     u_path = stringaa_zero, u_net_path = stringaa_zero, u_abs_path = stringaa_zero,
     u_rel_path = stringaa_zero, u_opaque_part = stringaa_zero, u_query = stringaa_zero,
     u_fragment = stringaa_zero\<rparr>"

text \<open>
  The four assignments that record a part: \<open>buf\<close>, \<open>buf_size\<close>, \<open>write_pos\<close> and \<open>is_init\<close> of \<open>x\<close>,
  for the bytes \<open>[pos, pos2)\<close> of the string \<open>s\<close>.
\<close>

definition part_of :: "stringaa \<Rightarrow> nat \<Rightarrow> nat \<Rightarrow> stringaa \<Rightarrow> stringaa" where
  "part_of s pos pos2 x = (let x = x\<lparr>buf := padd (buf s) pos, buf_size := pos2 - pos\<rparr>
     in x\<lparr>write_pos := end_of x, is_init := True\<rparr>)"

text \<open>The assignments that discard a part.\<close>

definition no_part :: "stringaa \<Rightarrow> stringaa" where
  "no_part x = x\<lparr>buf_size := 0, write_pos := 0, is_init := False\<rparr>"

definition u_pos :: "uriaa \<Rightarrow> nat" where
  "u_pos u = read_pos (u_uri u)"

definition set_u_pos :: "nat \<Rightarrow> uriaa \<Rightarrow> uriaa" where
  "set_u_pos p u = u\<lparr>u_uri := (u_uri u)\<lparr>read_pos := p\<rparr>\<rparr>"

text \<open>Calls on \<open>&uri_reference->uri\<close>.\<close>

definition uri_is_char :: "mem \<Rightarrow> uriaa \<Rightarrow> char \<Rightarrow> (bool \<times> uriaa) option" where
  "uri_is_char m u c = do {
     (b, s) \<leftarrow> stringaa_is_char m (u_uri u) c;
     Some (b, u\<lparr>u_uri := s\<rparr>) }"

text \<open>\<open>c = stringaa_get_char(uri);\<close> followed by one of the scanning loops.\<close>

definition scan_class :: "(char \<Rightarrow> bool) \<Rightarrow> (char \<Rightarrow> bool) \<Rightarrow> mem \<Rightarrow> uriaa \<Rightarrow> uriaa option" where
  "scan_class pre post m u = do {
     c \<leftarrow> stringaa_get_char m (u_uri u);
     s \<leftarrow> uri_scan pre post m (u_uri u) c;
     Some (u\<lparr>u_uri := s\<rparr>) }"

text \<open>
  The shape of \<open>rel_segment\<close>, \<open>reg_name\<close>, \<open>scheme\<close> and \<open>opaque_part\<close>: the first character is
  tested against one class, then the loop runs over another.
\<close>

definition first_then_scan :: "(char \<Rightarrow> bool) \<Rightarrow> (char \<Rightarrow> bool) \<Rightarrow> (char \<Rightarrow> bool) \<Rightarrow> (char \<Rightarrow> bool) \<Rightarrow>
    mem \<Rightarrow> uriaa \<Rightarrow> (bool \<times> uriaa) option" where
  "first_then_scan pre1 post1 pre post m u = do {
     c \<leftarrow> stringaa_get_char m (u_uri u);
     (b, s) \<leftarrow> esc_class pre1 post1 m (u_uri u) c;
     if b then (case stringaa_next_read_pos s of (nx, s) \<Rightarrow>
       if nx then do {
         c \<leftarrow> stringaa_get_char m s;
         s \<leftarrow> uri_scan pre post m s c;
         Some (True, u\<lparr>u_uri := s\<rparr>) }
       else Some (True, u\<lparr>u_uri := s\<rparr>))
     else Some (False, u\<lparr>u_uri := s\<rparr>) }"

section \<open>Query, fragment and path\<close>

definition fragment :: "mem \<Rightarrow> uriaa \<Rightarrow> (bool \<times> uriaa) option" where
  "fragment m u = (let pos = u_pos u in do {
     u \<leftarrow> scan_class uric_pre no_char m u;
     Some (True, u\<lparr>u_fragment := part_of (u_uri u) pos (u_pos u) (u_fragment u)\<rparr>) })"

definition query :: "mem \<Rightarrow> uriaa \<Rightarrow> (bool \<times> uriaa) option" where
  "query m u = (let pos = u_pos u in do {
     u \<leftarrow> scan_class uric_pre no_char m u;
     Some (True, u\<lparr>u_query := part_of (u_uri u) pos (u_pos u) (u_query u)\<rparr>) })"

definition param :: "mem \<Rightarrow> uriaa \<Rightarrow> (bool \<times> uriaa) option" where
  "param m u = do {
     u \<leftarrow> scan_class UNRESERVED_CHARS pchar_post m u;
     Some (True, u) }"

definition rest :: "uriaa \<Rightarrow> nat" where
  "rest u = write_pos (u_uri u) - read_pos (u_uri u)"

lemma scan_class_rest: "scan_class pre post m u = Some u' \<Longrightarrow> rest u' \<le> rest u"
  by (auto simp: scan_class_def rest_def bind_eq_Some_conv dest!: uri_scan_measure)

lemma param_rest: "param m u = Some (b, u') \<Longrightarrow> rest u' \<le> rest u"
  by (auto simp: param_def bind_eq_Some_conv dest: scan_class_rest)

lemma uri_is_char_rest: "uri_is_char m u c = Some (True, u') \<Longrightarrow> c \<noteq> NUL \<Longrightarrow> rest u' < rest u"
  by (auto simp: uri_is_char_def rest_def bind_eq_Some_conv dest!: is_char_measure)

lemma uri_is_char_rest_le: "uri_is_char m u c = Some (b, u') \<Longrightarrow> rest u' \<le> rest u"
  by (auto simp: uri_is_char_def rest_def stringaa_is_char_def bind_eq_Some_conv
      stringaa_next_read_pos_def split: if_splits)

text \<open>The loop over \<open>;param\<close> of \<open>segment\<close>.\<close>

function segment_params :: "mem \<Rightarrow> uriaa \<Rightarrow> uriaa option" where
  "segment_params m u = do {
     (b, u) \<leftarrow> uri_is_char m u (CHR '';'');
     if b then do {
       (p, u) \<leftarrow> param m u;
       if p then segment_params m u else Some u }
     else Some u }"
  by pat_completeness auto
termination
proof (relation "measure (\<lambda>(m, u). rest u)", goal_cases)
  case 1 show ?case by simp
next
  case (2 m u a b u1 a' p u2)
  then show ?case using uri_is_char_rest [of m u "CHR '';''" u1] param_rest [of m u1 p u2] by auto
qed

declare segment_params.simps [simp del]

definition segment :: "mem \<Rightarrow> uriaa \<Rightarrow> (bool \<times> uriaa) option" where
  "segment m u = do {
     u \<leftarrow> scan_class UNRESERVED_CHARS pchar_post m u;
     u \<leftarrow> segment_params m u;
     Some (True, u) }"

lemma segment_params_rest: "segment_params m u = Some u' \<Longrightarrow> rest u' \<le> rest u"
proof (induction "rest u" arbitrary: u rule: less_induct)
  case less
  from less(2) obtain b u1 where u1: "uri_is_char m u (CHR '';'') = Some (b, u1)"
    by (subst (asm) segment_params.simps) (auto simp: bind_eq_Some_conv)
  show ?case
  proof (cases b)
    case True
    with less(2) u1 obtain p u2 where u2: "param m u1 = Some (p, u2)"
      "(if p then segment_params m u2 else Some u2) = Some u'"
      by (subst (asm) segment_params.simps) (auto simp: bind_eq_Some_conv)
    with less(1) [of u2] uri_is_char_rest [of m u _ u1] param_rest [OF u2(1)] u1 True
    show ?thesis by (fastforce split: if_splits)
  next
    case False
    with less(2) u1 uri_is_char_rest_le [OF u1] show ?thesis
      by (subst (asm) segment_params.simps) auto
  qed
qed

lemma segment_rest: "segment m u = Some (b, u') \<Longrightarrow> rest u' \<le> rest u"
  by (fastforce simp: segment_def bind_eq_Some_conv dest!: scan_class_rest segment_params_rest)

text \<open>The loop over \<open>/segment\<close> of \<open>path_segments\<close>.\<close>

function more_segments :: "mem \<Rightarrow> uriaa \<Rightarrow> uriaa option" where
  "more_segments m u = do {
     (b, u) \<leftarrow> uri_is_char m u (CHR ''/'');
     if b then do {
       (p, u) \<leftarrow> segment m u;
       if p then more_segments m u else Some u }
     else Some u }"
  by pat_completeness auto
termination
proof (relation "measure (\<lambda>(m, u). rest u)", goal_cases)
  case 1 show ?case by simp
next
  case (2 m u a b u1 a' p u2)
  then show ?case using uri_is_char_rest [of m u "CHR ''/''" u1] segment_rest [of m u1 p u2] by auto
qed

declare more_segments.simps [simp del]

definition path_segments :: "mem \<Rightarrow> uriaa \<Rightarrow> (bool \<times> uriaa) option" where
  "path_segments m u = (let pos = u_pos u in do {
     (is_segment, u) \<leftarrow> segment m u;
     u \<leftarrow> (if is_segment then more_segments m u else Some u);
     Some (if is_segment then (True, u) else (False, set_u_pos pos u)) })"

definition abs_path :: "mem \<Rightarrow> uriaa \<Rightarrow> (bool \<times> uriaa) option" where
  "abs_path m u = (let pos = u_pos u in do {
     (b, u) \<leftarrow> uri_is_char m u (CHR ''/'');
     (is_abs_path, u) \<leftarrow> (if b then path_segments m u else Some (False, u));
     Some (if is_abs_path
       then (True, u\<lparr>u_abs_path := part_of (u_uri u) pos (u_pos u) (u_abs_path u)\<rparr>)
       else (False, set_u_pos pos u)) })"

definition opaque_part :: "mem \<Rightarrow> uriaa \<Rightarrow> (bool \<times> uriaa) option" where
  "opaque_part m u = (let pos = u_pos u in do {
     (b, u) \<leftarrow> first_then_scan UNRESERVED_CHARS uric_no_slash_post uric_pre no_char m u;
     Some (if b
       then (True, u\<lparr>u_opaque_part := part_of (u_uri u) pos (u_pos u) (u_opaque_part u)\<rparr>)
       else (False, u)) })"

definition path :: "mem \<Rightarrow> uriaa \<Rightarrow> (bool \<times> uriaa) option" where
  "path m u = (let pos = u_pos u in do {
     (is_abs_path, u) \<leftarrow> abs_path m u;
     (is_path, u) \<leftarrow> (if is_abs_path then Some (True, u) else opaque_part m u);
     Some (if is_path
       then (True, u\<lparr>u_path := part_of (u_uri u) pos (u_pos u) (u_path u)\<rparr>)
       else (False, set_u_pos pos u)) })"

definition rel_segment :: "mem \<Rightarrow> uriaa \<Rightarrow> (bool \<times> uriaa) option" where
  "rel_segment m u = first_then_scan UNRESERVED_CHARS rel_segment_post
     UNRESERVED_CHARS rel_segment_post m u"

definition rel_path :: "mem \<Rightarrow> uriaa \<Rightarrow> (bool \<times> uriaa) option" where
  "rel_path m u = (let pos = u_pos u in do {
     (is_rel_segment, u) \<leftarrow> rel_segment m u;
     (is_abs_path, u) \<leftarrow> (if is_rel_segment then abs_path m u else Some (False, u));
     Some (if is_rel_segment
       then (True, u\<lparr>u_rel_path := part_of (u_uri u) pos (u_pos u) (u_rel_path u)\<rparr>)
       else (False, set_u_pos pos u)) })"

section \<open>Authority\<close>

definition port :: "mem \<Rightarrow> uriaa \<Rightarrow> (bool \<times> uriaa) option" where
  "port m u = (let pos = u_pos u in do {
     c \<leftarrow> stringaa_get_char m (u_uri u);
     s \<leftarrow> char_scan DIGIT_CHARS m (u_uri u) c;
     let is_port = DIGIT_CHARS c;
     let u = u\<lparr>u_uri := s\<rparr>;
     Some (if is_port
       then (True, u\<lparr>u_port := part_of (u_uri u) pos (u_pos u) (u_port u)\<rparr>)
       else (False, set_u_pos pos u)) })"

text \<open>
  The loop of \<open>IPv4address\<close>, with \<open>r\<close> rounds left and \<open>d\<close> groups counted; it returns the
  final count.  A round whose first character is no digit does nothing.
\<close>

fun ipv4_groups :: "nat \<Rightarrow> mem \<Rightarrow> stringaa \<Rightarrow> nat \<Rightarrow> (nat \<times> stringaa) option" where
  "ipv4_groups 0 m s d = Some (d, s)"
| "ipv4_groups (Suc r) m s d = do {
     c \<leftarrow> stringaa_get_char m s;
     if DIGIT_CHARS c
     then (case stringaa_next_read_pos s of (nx, s) \<Rightarrow>
       if \<not> nx then Some (d, s)
       else do {
         c \<leftarrow> stringaa_get_char m s;
         s \<leftarrow> char_scan DIGIT_CHARS m s c;
         if r > 0 then do {
           (dot, s) \<leftarrow> stringaa_is_char m s (CHR ''.'');
           if dot then ipv4_groups r m s (d + 1) else Some (d, s) }
         else ipv4_groups r m s (d + 1) })
     else ipv4_groups r m s d }"

definition IPv4address :: "mem \<Rightarrow> uriaa \<Rightarrow> (bool \<times> uriaa) option" where
  "IPv4address m u = (let pos = u_pos u in do {
     (d, s) \<leftarrow> ipv4_groups 4 m (u_uri u) 0;
     let u = u\<lparr>u_uri := s\<rparr>;
     Some (if d = 4 then (True, u) else (False, set_u_pos pos u)) })"

text \<open>The loop of \<open>domainlabel\<close> and \<open>toplabel\<close>: it fails on a label that ends in a hyphen.\<close>

function label_rest :: "mem \<Rightarrow> stringaa \<Rightarrow> (bool \<times> stringaa) option" where
  "label_rest m s = (case stringaa_next_read_pos s of (nx, s) \<Rightarrow>
     if nx then do {
       c \<leftarrow> stringaa_get_char m s;
       if ALPHANUM_CHARS c \<or> c = CHR ''-'' then label_rest m s
       else do {
         d \<leftarrow> load m (buf s) (read_pos s - 1);
         Some (d \<noteq> CHR ''-'', s) } }
     else Some (True, s))"
  by pat_completeness auto
termination
  by (relation "measure (\<lambda>(m, s). write_pos s - read_pos s)")
    (auto dest!: next_measure [OF sym])

declare label_rest.simps [simp del]

definition domain_label :: "(char \<Rightarrow> bool) \<Rightarrow> mem \<Rightarrow> uriaa \<Rightarrow> (bool \<times> uriaa) option" where
  "domain_label P m u = (let pos = u_pos u in do {
     c \<leftarrow> stringaa_get_char m (u_uri u);
     (is_label, s) \<leftarrow> (if P c then label_rest m (u_uri u) else Some (False, u_uri u));
     let u = u\<lparr>u_uri := s\<rparr>;
     Some (if is_label then (True, u) else (False, set_u_pos pos u)) })"

definition domainlabel :: "mem \<Rightarrow> uriaa \<Rightarrow> (bool \<times> uriaa) option" where
  "domainlabel = domain_label ALPHANUM_CHARS"

definition toplabel :: "mem \<Rightarrow> uriaa \<Rightarrow> (bool \<times> uriaa) option" where
  "toplabel = domain_label ALPHA_CHARS"

lemma label_rest_measure: "label_rest m s = Some (b, s') \<Longrightarrow>
    write_pos s' = write_pos s \<and> write_pos s' - read_pos s' \<le> write_pos s - read_pos s"
proof (induction "write_pos s - read_pos s" arbitrary: s rule: less_induct)
  case less
  obtain nx s2 where s2: "stringaa_next_read_pos s = (nx, s2)" by fastforce
  from less(2) s2 consider (rec) "nx" "label_rest m s2 = Some (b, s')" | (stop) "s' = s2"
    by (subst (asm) label_rest.simps) (auto simp: bind_eq_Some_conv split: if_splits)
  then show ?case
  proof cases
    case rec
    with less(1) [OF _ rec(2)] next_measure [of s s2] s2 show ?thesis by auto
  next
    case stop
    with next_measure_le [OF s2] show ?thesis by auto
  qed
qed

lemma domain_label_rest: "domain_label P m u = Some (b, u') \<Longrightarrow> rest u' \<le> rest u"
  by (auto simp: domain_label_def rest_def Let_def set_u_pos_def u_pos_def bind_eq_Some_conv
      dest!: label_rest_measure split: if_splits)

text \<open>The loop of \<open>hostname\<close> over dot-separated labels; it returns the start of the last one.\<close>

function host_labels :: "mem \<Rightarrow> uriaa \<Rightarrow> nat \<Rightarrow> (nat \<times> uriaa) option" where
  "host_labels m u label_pos = (let pos1 = u_pos u in do {
     (is_label, u) \<leftarrow> domainlabel m u;
     if is_label then do {
       (dot, u) \<leftarrow> uri_is_char m u (CHR ''.'');
       if dot then host_labels m u pos1 else Some (pos1, u) }
     else Some (label_pos, u) })"
  by pat_completeness auto
termination
proof (relation "measure (\<lambda>(m, u, l). rest u)", goal_cases)
  case 1 show ?case by simp
next
  case (2 m u l pos1 a b u1 a' d u2)
  then show ?case
    using domain_label_rest [of ALPHANUM_CHARS m u b u1] uri_is_char_rest [of m u1 "CHR ''.''" u2]
    by (auto simp: domainlabel_def)
qed

declare host_labels.simps [simp del]

definition hostname :: "mem \<Rightarrow> uriaa \<Rightarrow> (bool \<times> uriaa) option" where
  "hostname m u = (let pos = u_pos u in do {
     (label_pos, u) \<leftarrow> host_labels m u pos;
     let u = set_u_pos label_pos u;
     (is_toplabel, u) \<leftarrow> toplabel m u;
     (dot, u) \<leftarrow> (if is_toplabel then uri_is_char m u (CHR ''.'') else Some (False, u));
     Some (if is_toplabel then (True, u) else (False, set_u_pos pos u)) })"

definition host :: "mem \<Rightarrow> uriaa \<Rightarrow> (bool \<times> uriaa) option" where
  "host m u = (let pos = u_pos u in do {
     (is_hostname, u) \<leftarrow> hostname m u;
     (is_host, u) \<leftarrow> (if is_hostname then Some (True, u) else IPv4address m u);
     Some (if is_host
       then (True, u\<lparr>u_host := part_of (u_uri u) pos (u_pos u) (u_host u)\<rparr>)
       else (False, set_u_pos pos u)) })"

definition hostport :: "mem \<Rightarrow> uriaa \<Rightarrow> (bool \<times> uriaa) option" where
  "hostport m u = (let pos = u_pos u in do {
     (is_host, u) \<leftarrow> host m u;
     (colon, u) \<leftarrow> (if is_host then uri_is_char m u (CHR '':'') else Some (False, u));
     (is_port, u) \<leftarrow> (if colon then port m u else Some (False, u));
     Some (if is_host then (True, u) else (False, set_u_pos pos u)) })"

definition userinfo :: "mem \<Rightarrow> uriaa \<Rightarrow> (bool \<times> uriaa) option" where
  "userinfo m u = do {
     u \<leftarrow> scan_class UNRESERVED_CHARS userinfo_post m u;
     Some (True, u) }"

definition server :: "mem \<Rightarrow> uriaa \<Rightarrow> (bool \<times> uriaa) option" where
  "server m u = (let pos = u_pos u in do {
     (b, u) \<leftarrow> userinfo m u;
     (is_userinfo, u) \<leftarrow> (if b then uri_is_char m u (CHR ''@'') else Some (False, u));
     let u = (if is_userinfo
       then u\<lparr>u_userinfo := part_of (u_uri u) pos (u_pos u - 1) (u_userinfo u)\<rparr>
       else set_u_pos pos u);
     (is_hostport, u) \<leftarrow> hostport m u;
     Some (True, if is_hostport then u
       else (set_u_pos pos u)\<lparr>u_userinfo := no_part (u_userinfo u)\<rparr>) })"

definition reg_name :: "mem \<Rightarrow> uriaa \<Rightarrow> (bool \<times> uriaa) option" where
  "reg_name m u = first_then_scan UNRESERVED_CHARS reg_name_post UNRESERVED_CHARS reg_name_post m u"

definition authority :: "mem \<Rightarrow> uriaa \<Rightarrow> (bool \<times> uriaa) option" where
  "authority m u = (let pos = u_pos u in do {
     (is_server, u) \<leftarrow> server m u;
     (is_authority, u) \<leftarrow> (if is_server then Some (True, u) else reg_name m u);
     Some (if is_authority
       then (True, u\<lparr>u_authority := part_of (u_uri u) pos (u_pos u) (u_authority u)\<rparr>)
       else (False, set_u_pos pos u)) })"

definition net_path :: "mem \<Rightarrow> uriaa \<Rightarrow> (bool \<times> uriaa) option" where
  "net_path m u = (let pos = u_pos u in do {
     (b1, u) \<leftarrow> uri_is_char m u (CHR ''/'');
     (b2, u) \<leftarrow> (if b1 then uri_is_char m u (CHR ''/'') else Some (False, u));
     (is_authority, u) \<leftarrow> (if b2 then authority m u else Some (False, u));
     (is_abs_path, u) \<leftarrow> (if is_authority then abs_path m u else Some (False, u));
     Some (if is_authority
       then (True, u\<lparr>u_net_path := part_of (u_uri u) pos (u_pos u) (u_net_path u)\<rparr>)
       else (False, set_u_pos pos u)) })"

section \<open>URI references\<close>

definition scheme :: "mem \<Rightarrow> uriaa \<Rightarrow> (bool \<times> uriaa) option" where
  "scheme m u = (let pos = u_pos u in do {
     c \<leftarrow> stringaa_get_char m (u_uri u);
     (is_scheme, s) \<leftarrow> (if ALPHA_CHARS c
       then (case stringaa_next_read_pos (u_uri u) of (nx, s) \<Rightarrow>
         if nx then do {
           c \<leftarrow> stringaa_get_char m s;
           s \<leftarrow> char_scan SCHEME_CHARS m s c;
           Some (True, s) }
         else Some (True, s))
       else Some (False, u_uri u));
     let u = u\<lparr>u_uri := s\<rparr>;
     Some (if is_scheme
       then (True, u\<lparr>u_scheme := part_of (u_uri u) pos (u_pos u) (u_scheme u)\<rparr>)
       else (False, u)) })"

definition hier_part :: "mem \<Rightarrow> uriaa \<Rightarrow> (bool \<times> uriaa) option" where
  "hier_part m u = (let pos = u_pos u in do {
     (is_net_path, u) \<leftarrow> net_path m u;
     (is_abs_path, u) \<leftarrow> (if is_net_path then Some (False, u) else abs_path m u);
     (b, u) \<leftarrow> uri_is_char m u (CHR ''?'');
     (is_query, u) \<leftarrow> (if b then query m u else Some (False, u));
     Some (if is_net_path \<or> is_abs_path then (True, u) else (False, set_u_pos pos u)) })"

definition absoluteURI :: "mem \<Rightarrow> uriaa \<Rightarrow> (bool \<times> uriaa) option" where
  "absoluteURI m u = (let pos = u_pos u in do {
     (b, u) \<leftarrow> scheme m u;
     (is_scheme, u) \<leftarrow> (if b then uri_is_char m u (CHR '':'') else Some (False, u));
     (is_part, u) \<leftarrow> (if is_scheme
       then do {
         (is_hier_part, u) \<leftarrow> hier_part m u;
         if is_hier_part then Some (True, u) else opaque_part m u }
       else Some (False, if b then u\<lparr>u_scheme := no_part (u_scheme u)\<rparr> else u));
     Some (if is_scheme \<and> is_part then (True, u) else (False, set_u_pos pos u)) })"

definition relativeURI :: "mem \<Rightarrow> uriaa \<Rightarrow> (bool \<times> uriaa) option" where
  "relativeURI m u = (let pos = u_pos u in do {
     (is_net_path, u) \<leftarrow> net_path m u;
     (is_path, u) \<leftarrow> (if is_net_path then Some (True, u)
       else do {
         (is_abs_path, u) \<leftarrow> abs_path m u;
         if is_abs_path then Some (True, u) else rel_path m u });
     (b, u) \<leftarrow> uri_is_char m u (CHR ''?'');
     (is_query, u) \<leftarrow> (if b then query m u else Some (False, u));
     Some (if is_path then (True, u) else (False, set_u_pos pos u)) })"

definition URI_reference :: "mem \<Rightarrow> uriaa \<Rightarrow> (bool \<times> uriaa) option" where
  "URI_reference m u = (let pos = u_pos u in do {
     (is_absoluteURI, u) \<leftarrow> absoluteURI m u;
     (is_relativeURI, u) \<leftarrow> (if is_absoluteURI then Some (False, u) else relativeURI m u);
     (b, u) \<leftarrow> uri_is_char m u (CHR ''#'');
     (is_fragment, u) \<leftarrow> (if b then fragment m u else Some (False, u));
     Some (if is_absoluteURI \<or> is_relativeURI \<or> is_fragment then (True, u)
       else (False, set_u_pos pos u)) })"

definition uriaa_check_url :: "mem \<Rightarrow> uriaa \<Rightarrow> (bool \<times> uriaa) option" where
  "uriaa_check_url m u = (if buf (u_uri u) \<noteq> Null \<and> write_pos (u_uri u) > 0 \<and> is_init (u_uri u)
     then URI_reference m u else Some (False, u))"

end
