(* ===== verification/Uri_Contract.thy ===== *)
theory Uri_Contract
  imports Uri_Parser
begin

text \<open>
  The contract of every function of the URI parser, as the locale \<open>uri_scanner\<close>: called on a
  string whose bytes are in live memory, it returns (no fault, no endless loop), it changes
  nothing of that string but the read position, which moves forward and stays inside the
  data, and every part it records is a view inside that data.  Each parser function is an
  interpretation; the contract of a caller follows from those of the functions it calls.
\<close>

section \<open>The invariant\<close>

text \<open>A recorded part lies inside the string it was parsed from.\<close>

definition view_of :: "stringaa \<Rightarrow> stringaa \<Rightarrow> bool" where
  "view_of s x \<longleftrightarrow> (is_init x \<longrightarrow>
     (\<exists>k. buf x = padd (buf s) k \<and> k + write_pos x \<le> write_pos s))"

definition parts :: "uriaa \<Rightarrow> stringaa list" where
  "parts u = [u_scheme u, u_authority u, u_userinfo u, u_host u, u_port u, u_path u,
     u_net_path u, u_abs_path u, u_rel_path u, u_opaque_part u, u_query u, u_fragment u]"

definition uri_ok :: "mem \<Rightarrow> uriaa \<Rightarrow> bool" where
  "uri_ok m u \<longleftrightarrow> cursor m (u_uri u) \<and> (\<forall>x \<in> set (parts u). view_of (u_uri u) x)"

definition adv :: "mem \<Rightarrow> uriaa \<Rightarrow> uriaa \<Rightarrow> bool" where
  "adv m u u' \<longleftrightarrow> uri_ok m u \<and> uri_ok m u' \<and> moved (u_uri u) (u_uri u')"

lemma view_of_read_pos [simp]: "view_of (s\<lparr>read_pos := p\<rparr>) x = view_of s x"
  by (simp add: view_of_def)

lemma view_of_no_part [simp]: "view_of s (no_part x)"
  by (simp add: view_of_def no_part_def)

lemma view_of_part [simp]:
  assumes "p \<le> write_pos s" and "q \<le> write_pos s"
  shows "view_of s (part_of s p q x)"
proof -
  have "p + write_pos (part_of s p q x) \<le> write_pos s"
    using assms by (auto simp: part_of_def end_of_def Let_def)
  then show ?thesis
    by (auto simp: view_of_def part_of_def Let_def intro!: exI [of _ p])
qed

lemma adv_refl: "uri_ok m u \<Longrightarrow> adv m u u"
  by (simp add: adv_def uri_ok_def cursor_def moved_refl)

lemma adv_trans: "adv m u u' \<Longrightarrow> adv m u' u'' \<Longrightarrow> adv m u u''"
  by (auto simp: adv_def intro: moved_trans)

lemma adv_ok: "adv m u u' \<Longrightarrow> uri_ok m u'"
  by (simp add: adv_def)

lemma adv_write_pos: "adv m u u' \<Longrightarrow> write_pos (u_uri u') = write_pos (u_uri u)"
  by (simp add: adv_def moved_write_pos)

lemma adv_pos: "adv m u u' \<Longrightarrow> u_pos u \<le> u_pos u' \<and> u_pos u' \<le> write_pos (u_uri u)"
  by (auto simp: adv_def u_pos_def dest: moved_le)

lemma adv_uri: "adv m u u' \<Longrightarrow> \<exists>p. u_uri u' = (u_uri u)\<lparr>read_pos := p\<rparr>"
  by (auto simp: adv_def elim!: movedE)

text \<open>Moving the cursor of a struct to a position the call may reach.\<close>

lemma adv_uri_move:
  "adv m u u' \<Longrightarrow> moved (u_uri u) s \<Longrightarrow> adv m u (u'\<lparr>u_uri := s\<rparr>)"
  by (auto simp: adv_def uri_ok_def parts_def elim!: movedE)
    (auto simp: cursor_def intro: movedI)

lemma adv_set_pos:
  assumes "adv m u u'" and "u_pos u \<le> p" and "p \<le> write_pos (u_uri u)"
  shows "adv m u (set_u_pos p u')"
proof -
  from assms(1) obtain q where "u_uri u' = (u_uri u)\<lparr>read_pos := q\<rparr>"
    using adv_uri by blast
  with adv_uri_move [OF assms(1), of "(u_uri u)\<lparr>read_pos := p\<rparr>"] assms(2,3)
  show ?thesis by (simp add: set_u_pos_def u_pos_def movedI)
qed

lemma adv_reset: "adv m u u' \<Longrightarrow> adv m u (set_u_pos (u_pos u) u')"
  using adv_pos [of m u u'] adv_set_pos [of m u u' "u_pos u"] by simp

text \<open>Recording a part.\<close>

definition inside :: "uriaa \<Rightarrow> stringaa \<Rightarrow> bool" where
  "inside u x \<longleftrightarrow> view_of (u_uri u) x"

lemma adv_record:
  assumes "adv m u u'" and "inside u' x"
  shows "adv m u (u'\<lparr>u_scheme := x\<rparr>)" "adv m u (u'\<lparr>u_authority := x\<rparr>)"
    "adv m u (u'\<lparr>u_userinfo := x\<rparr>)" "adv m u (u'\<lparr>u_host := x\<rparr>)" "adv m u (u'\<lparr>u_port := x\<rparr>)"
    "adv m u (u'\<lparr>u_path := x\<rparr>)" "adv m u (u'\<lparr>u_net_path := x\<rparr>)" "adv m u (u'\<lparr>u_abs_path := x\<rparr>)"
    "adv m u (u'\<lparr>u_rel_path := x\<rparr>)" "adv m u (u'\<lparr>u_opaque_part := x\<rparr>)"
    "adv m u (u'\<lparr>u_query := x\<rparr>)" "adv m u (u'\<lparr>u_fragment := x\<rparr>)"
  using assms by (simp_all add: adv_def uri_ok_def parts_def inside_def)

lemma inside_part:
  "adv m u u' \<Longrightarrow> inside u' (part_of (u_uri u') (u_pos u) (u_pos u') x)"
  "adv m u u' \<Longrightarrow> inside u' (part_of (u_uri u') (u_pos u) (u_pos u' - 1) x)"
  using adv_pos [of m u u'] adv_write_pos [of m u u']
  by (auto simp: inside_def)

lemma inside_no_part: "inside u (no_part x)"
  by (simp add: inside_def)

section \<open>The interface\<close>

locale uri_scanner =
  fixes P :: "mem \<Rightarrow> uriaa \<Rightarrow> (bool \<times> uriaa) option"
  assumes total: "uri_ok m u \<Longrightarrow> returns (P m u) (\<lambda>(b, u'). adv m u u')"
begin

lemma from_start: "adv m u0 u \<Longrightarrow> (\<And>b u'. adv m u0 u' \<Longrightarrow> Q (b, u')) \<Longrightarrow> returns (P m u) Q"
  by (rule returns_mono2 [OF total]) (blast intro: adv_ok adv_trans)+

lemma no_fault: "uri_ok m u \<Longrightarrow> \<exists>b u'. P m u = Some (b, u')"
  using total [of m u] by (auto simp: returns_iff)

lemma keeps_data: "uri_ok m u \<Longrightarrow> P m u = Some (b, u') \<Longrightarrow> chars m (u_uri u') = chars m (u_uri u)"
  using total [of m u] by (auto simp: adv_def moved_chars)

lemma keeps_ok: "uri_ok m u \<Longrightarrow> P m u = Some (b, u') \<Longrightarrow> uri_ok m u'"
  using total [of m u] by (auto simp: adv_def)

lemma forward: "uri_ok m u \<Longrightarrow> P m u = Some (b, u') \<Longrightarrow>
    u_pos u \<le> u_pos u' \<and> u_pos u' \<le> write_pos (u_uri u)"
  using total [of m u] by (auto dest: adv_pos)

lemma parts_inside: "uri_ok m u \<Longrightarrow> P m u = Some (b, u') \<Longrightarrow> x \<in> set (parts u') \<Longrightarrow>
    view_of (u_uri u) x"
  using total [of m u] by (auto simp: adv_def uri_ok_def elim!: movedE)

end

text \<open>The primitives the functions are built from.\<close>

lemma uri_is_char_from:
  assumes "adv m u0 u" and "\<And>b u'. adv m u0 u' \<Longrightarrow> Q (b, u')"
  shows "returns (uri_is_char m u c) Q"
proof -
  from assms(1) have ok: "cursor m (u_uri u)" by (simp add: adv_def uri_ok_def)
  have "moved (u_uri u) (snd (stringaa_next_read_pos (u_uri u)))"
    using ok by (auto simp: cursor_def stringaa_next_read_pos_def intro: movedI)
  then have mv: "moved (u_uri u0) (snd (stringaa_next_read_pos (u_uri u)))"
    using assms(1) by (auto simp: adv_def intro: moved_trans)
  have "u\<lparr>u_uri := u_uri u\<rparr> = u" by simp
  with ok assms adv_uri_move [OF assms(1) mv] show ?thesis
    by (auto simp: uri_is_char_def stringaa_is_char_def cursor_def split: if_splits)
qed

lemma uri_is_char_shrinks:
  assumes "adv m u0 u" and "c \<noteq> NUL"
  shows "\<exists>b u1. uri_is_char m u c = Some (b, u1) \<and> adv m u0 u1 \<and> (b \<longrightarrow> rest u1 < rest u)"
proof -
  obtain b u1 where "uri_is_char m u c = Some (b, u1)" "adv m u0 u1"
    using uri_is_char_from [OF assms(1), where Q = "\<lambda>(b, u'). adv m u0 u'" and c = c]
    by (auto simp: returns_iff)
  with uri_is_char_rest [of m u c u1] assms(2) show ?thesis by auto
qed

lemma scan_class_from:
  assumes "adv m u0 u" and "plain_class (\<lambda>c. pre c \<or> post c)" and "\<And>u'. adv m u0 u' \<Longrightarrow> Q u'"
  shows "returns (scan_class pre post m u) Q"
proof -
  from assms(1) have ok: "cursor m (u_uri u)" by (simp add: adv_def uri_ok_def)
  let ?e = "scan_end (\<lambda>c. pre c \<or> post c) (chars m (u_uri u)) (read_pos (u_uri u))"
  have "moved (u_uri u) ((u_uri u)\<lparr>read_pos := ?e\<rparr>)"
    using ok scan_end_bounds [of "read_pos (u_uri u)" "chars m (u_uri u)"]
    by (auto simp: cursor_def intro: movedI)
  then have mv: "moved (u_uri u0) ((u_uri u)\<lparr>read_pos := ?e\<rparr>)"
    using assms(1) by (auto simp: adv_def intro: moved_trans)
  with ok assms(2,3) adv_uri_move [OF assms(1) mv] uri_scan_eq [OF ok assms(2) refl] show ?thesis
    by (auto simp: scan_class_def cursor_def)
qed

lemma first_then_scan_from:
  assumes adv: "adv m u0 u" and "plain_class (\<lambda>c. pre1 c \<or> post1 c)"
    and "plain_class (\<lambda>c. pre c \<or> post c)" and "\<And>b u'. adv m u0 u' \<Longrightarrow> Q (b, u')"
  shows "returns (first_then_scan pre1 post1 pre post m u) Q"
proof -
  let ?s = "u_uri u" and ?cs = "chars m (u_uri u)" and ?P = "\<lambda>c. pre c \<or> post c"
  from adv have ok: "cursor m ?s" by (simp add: adv_def uri_ok_def)
  have to: "Q (b, u\<lparr>u_uri := ?s\<lparr>read_pos := q\<rparr>\<rparr>)"
    if "read_pos ?s \<le> q" "q \<le> write_pos ?s" for b q
  proof -
    have "moved (u_uri u0) (?s\<lparr>read_pos := q\<rparr>)"
      using adv movedI [OF that] by (auto simp: adv_def intro: moved_trans)
    from adv_uri_move [OF adv this] show ?thesis by (rule assms(4))
  qed
  obtain b q where q: "esc_class pre1 post1 m ?s (peek ?cs (read_pos ?s)) = Some (b, ?s\<lparr>read_pos := q\<rparr>)"
      "read_pos ?s \<le> q" "q \<le> write_pos ?s"
    using esc_class_range [OF ok assms(2)] by blast
  have get: "stringaa_get_char m ?s = Some (peek ?cs (read_pos ?s))"
    using ok by (simp add: cursor_def)
  show ?thesis
  proof (cases "b \<and> Suc q < write_pos ?s")
    case True
    let ?e = "scan_end ?P ?cs (Suc q)"
    have "uri_scan pre post m (?s\<lparr>read_pos := Suc q\<rparr>) (peek ?cs (Suc q)) = Some (?s\<lparr>read_pos := ?e\<rparr>)"
      using uri_scan_eq [of m "?s\<lparr>read_pos := Suc q\<rparr>" pre post] ok True assms(3)
      by (simp add: cursor_def)
    moreover have "Suc q \<le> ?e" "?e \<le> write_pos ?s"
      using scan_end_bounds [of "Suc q" ?cs ?P] True by auto
    ultimately show ?thesis
      using get q True to [of ?e True] ok
      by (simp add: first_then_scan_def stringaa_next_read_pos_def cursor_def)
  next
    case False
    with get q to [of q False] to [of "write_pos ?s" True] show ?thesis
      by (auto simp: first_then_scan_def stringaa_next_read_pos_def)
  qed
qed

lemmas adv_intros = adv_refl adv_reset adv_record inside_part inside_no_part

section \<open>The classes of the grammar\<close>

lemma plain_classes [simp]:
  "plain_class (\<lambda>c. uric_pre c \<or> no_char c)"
  "plain_class (\<lambda>c. UNRESERVED_CHARS c \<or> pchar_post c)"
  "plain_class (\<lambda>c. UNRESERVED_CHARS c \<or> userinfo_post c)"
  "plain_class (\<lambda>c. UNRESERVED_CHARS c \<or> reg_name_post c)"
  "plain_class (\<lambda>c. UNRESERVED_CHARS c \<or> rel_segment_post c)"
  "plain_class (\<lambda>c. UNRESERVED_CHARS c \<or> uric_no_slash_post c)"
  by (simp_all add: plain_class_def cclass range_defs)

section \<open>The functions of the parser keep the contract\<close>

interpretation fragment_c: uri_scanner fragment
  by unfold_locales (auto simp: fragment_def Let_def intro!: scan_class_from adv_intros)

interpretation query_c: uri_scanner query
  by unfold_locales (auto simp: query_def Let_def intro!: scan_class_from adv_intros)

interpretation param_c: uri_scanner param
  by unfold_locales (auto simp: param_def intro!: scan_class_from adv_intros)

interpretation userinfo_c: uri_scanner userinfo
  by unfold_locales (auto simp: userinfo_def intro!: scan_class_from adv_intros)

interpretation opaque_part_c: uri_scanner opaque_part
  by unfold_locales (auto simp: opaque_part_def Let_def intro!: first_then_scan_from adv_intros)

interpretation rel_segment_c: uri_scanner rel_segment
  by unfold_locales (auto simp: rel_segment_def intro!: first_then_scan_from adv_intros)

interpretation reg_name_c: uri_scanner reg_name
  by unfold_locales (auto simp: reg_name_def intro!: first_then_scan_from adv_intros)

lemma segment_params_from:
  "adv m u0 u \<Longrightarrow> (\<And>u'. adv m u0 u' \<Longrightarrow> Q u') \<Longrightarrow> returns (segment_params m u) Q"
proof (induction "rest u" arbitrary: u rule: less_induct)
  case less
  obtain b u1 where u1: "uri_is_char m u (CHR '';'') = Some (b, u1)" "adv m u0 u1"
      "b \<longrightarrow> rest u1 < rest u" using uri_is_char_shrinks [OF less(2), of "CHR '';''"] by auto
  show ?case
  proof (cases b)
    case False
    with u1 less(3) show ?thesis by (simp add: segment_params.simps [of m u])
  next
    case True
    obtain p u2 where u2: "param m u1 = Some (p, u2)" "adv m u0 u2"
      using param_c.from_start [OF u1(2), where Q = "\<lambda>(b, u'). adv m u0 u'"]
      by (auto simp: returns_iff)
    with less(1) [of u2] less(3) u1 True param_rest [OF u2(1)] show ?thesis
      by (simp add: segment_params.simps [of m u])
  qed
qed

interpretation segment_c: uri_scanner segment
  by unfold_locales (auto simp: segment_def intro!: scan_class_from segment_params_from adv_intros)

lemma more_segments_from:
  "adv m u0 u \<Longrightarrow> (\<And>u'. adv m u0 u' \<Longrightarrow> Q u') \<Longrightarrow> returns (more_segments m u) Q"
proof (induction "rest u" arbitrary: u rule: less_induct)
  case less
  obtain b u1 where u1: "uri_is_char m u (CHR ''/'') = Some (b, u1)" "adv m u0 u1"
      "b \<longrightarrow> rest u1 < rest u" using uri_is_char_shrinks [OF less(2), of "CHR ''/''"] by auto
  show ?case
  proof (cases b)
    case False
    with u1 less(3) show ?thesis by (simp add: more_segments.simps [of m u])
  next
    case True
    obtain p u2 where u2: "segment m u1 = Some (p, u2)" "adv m u0 u2"
      using segment_c.from_start [OF u1(2), where Q = "\<lambda>(b, u'). adv m u0 u'"]
      by (auto simp: returns_iff)
    with less(1) [of u2] less(3) u1 True segment_rest [OF u2(1)] show ?thesis
      by (simp add: more_segments.simps [of m u])
  qed
qed

interpretation path_segments_c: uri_scanner path_segments
  by unfold_locales (auto simp: path_segments_def Let_def
      intro!: segment_c.from_start more_segments_from adv_intros)

interpretation abs_path_c: uri_scanner abs_path
  by unfold_locales (auto simp: abs_path_def Let_def
      intro!: uri_is_char_from path_segments_c.from_start adv_intros)

interpretation path_c: uri_scanner path
  by unfold_locales (auto simp: path_def Let_def
      intro!: abs_path_c.from_start opaque_part_c.from_start adv_intros)

interpretation rel_path_c: uri_scanner rel_path
  by unfold_locales (auto simp: rel_path_def Let_def
      intro!: abs_path_c.from_start rel_segment_c.from_start adv_intros)

text \<open>The functions that work on the string itself.\<close>

lemma moved_next: "cursor m s \<Longrightarrow> moved s (snd (stringaa_next_read_pos s))"
  by (auto simp: cursor_def stringaa_next_read_pos_def intro: movedI)

lemma moved_is_char:
  "cursor m s \<Longrightarrow> returns (stringaa_is_char m s c) (\<lambda>(b, s'). moved s s')"
  using moved_next [of m s] by (auto simp: stringaa_is_char_def cursor_def moved_refl)

lemma char_scan_moved:
  assumes "cursor m s" and "\<not> P NUL"
  shows "returns (char_scan P m s (peek (chars m s) (read_pos s))) (\<lambda>s'. moved s s')"
  using char_scan_eq [where P = P, OF assms refl] run_end_bounds [of "read_pos s" "chars m s" P] assms(1)
  by (auto simp: cursor_def intro: movedI)

lemma digit_not_nul [simp]: "\<not> DIGIT_CHARS NUL" "\<not> SCHEME_CHARS NUL" "\<not> ALPHA_CHARS NUL"
    "\<not> ALPHANUM_CHARS NUL"
  by (simp_all add: cclass range_defs)

lemma ipv4_groups_moved:
  "cursor m s \<Longrightarrow> returns (ipv4_groups r m s d) (\<lambda>(d', s'). moved s s')"
proof (induction r arbitrary: s d)
  case 0
  then show ?case by (simp add: cursor_def moved_refl)
next
  case (Suc r)
  have rec: "returns (ipv4_groups r m t e) (\<lambda>(d', s'). moved s s')" if "moved s t" for t e
    by (rule returns_mono2 [OF Suc.IH [OF moved_cursor [OF that Suc.prems]]])
      (simp add: moved_trans [OF that])
  let ?c = "peek (chars m s) (read_pos s)"
  have get: "stringaa_get_char m s = Some ?c" using Suc.prems by (simp add: cursor_def)
  obtain nx s1 where s1: "stringaa_next_read_pos s = (nx, s1)" by fastforce
  then have m1: "moved s s1" "cursor m s1"
    using moved_next [OF Suc.prems] moved_cursor [OF _ Suc.prems] by auto
  let ?c1 = "peek (chars m s1) (read_pos s1)"
  have get1: "stringaa_get_char m s1 = Some ?c1" using m1 by (simp add: cursor_def)
  obtain s2 where s2: "char_scan DIGIT_CHARS m s1 ?c1 = Some s2" "moved s1 s2"
    using char_scan_moved [OF m1(2), of DIGIT_CHARS] by (auto simp: returns_iff)
  then have m2: "cursor m s2" "moved s s2"
    using m1 by (auto intro: moved_cursor moved_trans)
  obtain b s3 where s3: "stringaa_is_char m s2 (CHR ''.'') = Some (b, s3)" "moved s2 s3"
    using moved_is_char [OF m2(1), of "CHR ''.''"] by (auto simp: returns_iff)
  then have m3: "moved s s3" using m2 by (auto intro: moved_trans)
  have "moved s s" using Suc.prems by (simp add: cursor_def moved_refl)
  then show ?case
    using get s1 get1 s2 s3 m1 m2 m3 by (auto intro!: rec)
qed

lemma label_rest_moved: "cursor m s \<Longrightarrow> returns (label_rest m s) (\<lambda>(b, s'). moved s s')"
proof (induction "write_pos s - read_pos s" arbitrary: s rule: less_induct)
  case less
  obtain nx s1 where s1: "stringaa_next_read_pos s = (nx, s1)" by fastforce
  then have m1: "moved s s1" "cursor m s1"
    using moved_next [OF less(2)] moved_cursor [OF _ less(2)] by auto
  show ?case
  proof (cases nx)
    case False
    with s1 m1 show ?thesis by (simp add: label_rest.simps [of m s])
  next
    case True
    with s1 have bnd: "read_pos s1 - 1 < write_pos s1" and lt: "write_pos s1 - read_pos s1 < write_pos s - read_pos s"
      by (auto simp: stringaa_next_read_pos_def split: if_splits)
    have "returns (label_rest m s1) (\<lambda>(b, s'). moved s s')"
      using less(1) [OF lt m1(2)] m1(1) by (auto elim!: returns_mono2 intro: moved_trans)
    with s1 m1 bnd True show ?thesis
      by (simp add: label_rest.simps [of m s] cursor_def load_readable)
  qed
qed

interpretation port_c: uri_scanner port
proof unfold_locales
  fix m u assume u: "uri_ok m u"
  then have c: "cursor m (u_uri u)" by (simp add: uri_ok_def)
  obtain s where s: "char_scan DIGIT_CHARS m (u_uri u) (peek (chars m (u_uri u)) (read_pos (u_uri u)))
      = Some s" "moved (u_uri u) s"
    using char_scan_moved [OF c, of DIGIT_CHARS] by (auto simp: returns_iff)
  have "adv m u (u\<lparr>u_uri := s\<rparr>)" using adv_uri_move [OF adv_refl [OF u] s(2)] .
  from adv_reset [OF this] inside_part(1) [OF this] adv_record(5) [OF this] s c
  show "returns (port m u) (\<lambda>(b, u'). adv m u u')"
    by (simp add: port_def Let_def cursor_def)
qed

interpretation IPv4address_c: uri_scanner IPv4address
proof unfold_locales
  fix m u assume u: "uri_ok m u"
  then have c: "cursor m (u_uri u)" by (simp add: uri_ok_def)
  obtain d s where s: "ipv4_groups 4 m (u_uri u) 0 = Some (d, s)" "moved (u_uri u) s"
    using ipv4_groups_moved [OF c, of 4 0] by (auto simp: returns_iff)
  have "adv m u (u\<lparr>u_uri := s\<rparr>)" using adv_uri_move [OF adv_refl [OF u] s(2)] .
  from this adv_reset [OF this] s show "returns (IPv4address m u) (\<lambda>(b, u'). adv m u u')"
    by (simp add: IPv4address_def Let_def)
qed

lemma domain_label_total:
  assumes u: "uri_ok m u"
  shows "returns (domain_label P m u) (\<lambda>(b, u'). adv m u u')"
proof -
  from u have c: "cursor m (u_uri u)" by (simp add: uri_ok_def)
  obtain d s where s: "label_rest m (u_uri u) = Some (d, s)" "moved (u_uri u) s"
    using label_rest_moved [OF c] by (auto simp: returns_iff)
  have a: "adv m u (u\<lparr>u_uri := s\<rparr>)" using adv_uri_move [OF adv_refl [OF u] s(2)] .
  have b: "adv m u (u\<lparr>u_uri := u_uri u\<rparr>)" using adv_refl [OF u] by simp
  from a adv_reset [OF a] adv_reset [OF b] s c show ?thesis
    by (simp add: domain_label_def Let_def cursor_def)
qed

interpretation domainlabel_c: uri_scanner domainlabel
  by unfold_locales (simp add: domainlabel_def domain_label_total)

interpretation toplabel_c: uri_scanner toplabel
  by unfold_locales (simp add: toplabel_def domain_label_total)

lemma host_labels_from:
  "adv m u0 u \<Longrightarrow> u_pos u0 \<le> l \<Longrightarrow> l \<le> write_pos (u_uri u0) \<Longrightarrow>
   (\<And>l' u'. adv m u0 u' \<Longrightarrow> u_pos u0 \<le> l' \<Longrightarrow> l' \<le> write_pos (u_uri u0) \<Longrightarrow> Q (l', u')) \<Longrightarrow>
   returns (host_labels m u l) Q"
proof (induction "rest u" arbitrary: u l rule: less_induct)
  case less
  obtain b u1 where u1: "domainlabel m u = Some (b, u1)" "adv m u0 u1"
    using domainlabel_c.from_start [OF less(2), where Q = "\<lambda>(b, u'). adv m u0 u'"]
    by (auto simp: returns_iff)
  obtain d u2 where u2: "uri_is_char m u1 (CHR ''.'') = Some (d, u2)" "adv m u0 u2"
      "d \<longrightarrow> rest u2 < rest u1" using uri_is_char_shrinks [OF u1(2), of "CHR ''.''"] by auto
  have "rest u1 \<le> rest u" using u1(1) domain_label_rest by (simp add: domainlabel_def)
  with less u1 u2 adv_pos [OF less(2)] show ?case
    by (auto simp: host_labels.simps [of m u l] Let_def)
qed

interpretation hostname_c: uri_scanner hostname
  by unfold_locales (auto simp: hostname_def Let_def dest: adv_pos [OF adv_refl]
      intro!: host_labels_from toplabel_c.from_start uri_is_char_from adv_set_pos adv_intros)

interpretation host_c: uri_scanner host
  by unfold_locales (auto simp: host_def Let_def
      intro!: hostname_c.from_start IPv4address_c.from_start adv_intros)

interpretation hostport_c: uri_scanner hostport
  by unfold_locales (auto simp: hostport_def Let_def
      intro!: host_c.from_start port_c.from_start uri_is_char_from adv_intros)

interpretation server_c: uri_scanner server
proof unfold_locales
  fix m u assume u: "uri_ok m u"
  note hp = hostport_c.from_start [of m u]
  note part = inside_part(2) [unfolded One_nat_def, of m u]
  show "returns (server m u) (\<lambda>(b, u'). adv m u u')"
    using u by (auto simp: server_def Let_def
      intro!: userinfo_c.from_start [of m u] hp uri_is_char_from [of m u] part adv_intros)
qed

interpretation authority_c: uri_scanner authority
  by unfold_locales (auto simp: authority_def Let_def
      intro!: server_c.from_start reg_name_c.from_start adv_intros)

interpretation net_path_c: uri_scanner net_path
  by unfold_locales (auto simp: net_path_def Let_def
      intro!: authority_c.from_start abs_path_c.from_start uri_is_char_from adv_intros)

interpretation scheme_c: uri_scanner scheme
proof unfold_locales
  fix m u assume u: "uri_ok m u"
  then have c: "cursor m (u_uri u)" by (simp add: uri_ok_def)
  obtain nx s1 where s1: "stringaa_next_read_pos (u_uri u) = (nx, s1)" by fastforce
  then have m1: "moved (u_uri u) s1" "cursor m s1"
    using moved_next [OF c] moved_cursor [OF _ c] by auto
  obtain s2 where s2: "char_scan SCHEME_CHARS m s1 (peek (chars m s1) (read_pos s1)) = Some s2"
      "moved s1 s2" using char_scan_moved [OF m1(2), of SCHEME_CHARS] by (auto simp: returns_iff)
  have a: "adv m u (u\<lparr>u_uri := t\<rparr>)" if "moved (u_uri u) t" for t
    using adv_uri_move [OF adv_refl [OF u] that] .
  have r: "adv m u (v\<lparr>u_scheme := part_of (u_uri v) (u_pos u) (u_pos v) (u_scheme u)\<rparr>)"
    if "adv m u v" for v using adv_record(1) [OF that inside_part(1) [OF that]] .
  from r [OF a [OF m1(1)]] r [OF a [OF moved_trans [OF m1(1) s2(2)]]] adv_refl [OF u] s1 s2 m1 c
  show "returns (scheme m u) (\<lambda>(b, u'). adv m u u')"
    by (auto simp: scheme_def Let_def cursor_def)
qed

interpretation hier_part_c: uri_scanner hier_part
  by unfold_locales (auto simp: hier_part_def Let_def
      intro!: net_path_c.from_start abs_path_c.from_start query_c.from_start uri_is_char_from adv_intros)

interpretation absoluteURI_c: uri_scanner absoluteURI
  by unfold_locales (auto simp: absoluteURI_def Let_def
      intro!: scheme_c.from_start hier_part_c.from_start opaque_part_c.from_start uri_is_char_from
        adv_intros)

interpretation relativeURI_c: uri_scanner relativeURI
  by unfold_locales (auto simp: relativeURI_def Let_def
      intro!: net_path_c.from_start abs_path_c.from_start rel_path_c.from_start query_c.from_start
        uri_is_char_from adv_intros)

interpretation URI_reference_c: uri_scanner URI_reference
  by unfold_locales (auto simp: URI_reference_def Let_def
      intro!: absoluteURI_c.from_start relativeURI_c.from_start fragment_c.from_start
        uri_is_char_from adv_intros)

interpretation uriaa_check_url_c: uri_scanner uriaa_check_url
  by unfold_locales (auto simp: uriaa_check_url_def intro!: URI_reference_c.from_start adv_intros)

end
