(* ===== verification/Uri_Properties.thy ===== *)
theory Uri_Properties
  imports Uri_Contract
begin

text \<open>
  The properties of the URI parser: it is total and its parts stay inside the input, and the
  functional behaviour of its main productions, as functions of the characters of the input.
\<close>

section \<open>Safety of a whole parse\<close>

text \<open>C6: on a reference whose bytes are in live memory, \<open>uriaa_check_url\<close> returns; the input string
  keeps its bytes, only its read position moves, forward and not past the end, and every part
  recorded in the struct is a view inside the input.\<close>

theorem uriaa_check_url_safe:
  assumes "uri_ok m u"
  shows "returns (uriaa_check_url m u) (\<lambda>(b, u'). moved (u_uri u) (u_uri u')
    \<and> chars m (u_uri u') = chars m (u_uri u) \<and> (\<forall>x \<in> set (parts u'). view_of (u_uri u) x))"
proof -
  obtain b u' where 1: "uriaa_check_url m u = Some (b, u')"
    using uriaa_check_url_c.no_fault [OF assms] by blast
  have "adv m u u'" using uriaa_check_url_c.total [OF assms] 1 by simp
  with 1 uriaa_check_url_c.parts_inside [OF assms 1] show ?thesis
    by (simp add: adv_def moved_chars)
qed

definition uri_at :: "nat \<Rightarrow> nat \<Rightarrow> uriaa" where
  "uri_at a n = uriaa_zero\<lparr>u_uri := string_at a n\<rparr>"

lemma uri_at_simps [simp]:
  "u_uri (uri_at a n) = string_at a n" "u_pos (uri_at a n) = 0"
  "u_port (uri_at a n) = stringaa_zero" "u_abs_path (uri_at a n) = stringaa_zero"
  by (simp_all add: uri_at_def uriaa_zero_def u_pos_def)

lemma uri_at_ok:
  "a < length css \<Longrightarrow> n \<le> length (css ! a) \<Longrightarrow> uri_ok (memory_of css) (uri_at a n)"
  by (simp add: uri_ok_def uri_at_def cursor_def parts_def view_of_def uriaa_zero_def)

lemma uriaa_check_url_safe_witness:
  "returns (uriaa_check_url (memory_of [''http://a/b'']) (uri_at 0 10))
    (\<lambda>(b, u'). moved (u_uri (uri_at 0 10)) (u_uri u'))"
  using uriaa_check_url_safe [OF uri_at_ok [of 0 "[''http://a/b'']" 10]]
  by (auto simp: returns_iff)

section \<open>The scanning loop\<close>

text \<open>C32: the loop that every production repeats stops where the reference \<open>scan_end\<close> says: after the
  longest run of characters of its class and of complete escapes, except that each escape also
  takes along the character that follows it.\<close>

theorem uri_scan_reference:
  assumes "cursor m s" and "plain_class (\<lambda>c. pre c \<or> post c)"
  shows "uri_scan pre post m s (peek (chars m s) (read_pos s)) =
    Some (s\<lparr>read_pos := scan_end (\<lambda>c. pre c \<or> post c) (chars m s) (read_pos s)\<rparr>)"
  by (rule uri_scan_eq [OF assms refl])

lemma uri_scan_reference_witness:
  "uri_scan uric_pre no_char (memory_of [''ab c'']) (string_at 0 4) (CHR ''a'') =
    Some ((string_at 0 4)\<lparr>read_pos := 2\<rparr>)"
proof -
  have "scan_end (\<lambda>c. uric_pre c \<or> no_char c) ''ab c'' 0 = 2"
    by (simp add: scan_end.simps cclass range_defs escape_at_def)
  with uri_scan_reference [of "memory_of [''ab c'']" "string_at 0 4" uric_pre no_char]
  show ?thesis by (simp add: cursor_def)
qed

text \<open>A segment that begins with a complete escape takes in the character after the escape,
  whatever it is: the loop moves past the escape and then moves on once more without a test.\<close>

theorem segment_swallows_after_escape:
  assumes "uri_ok m u" and "escape_at (chars m (u_uri u)) (u_pos u)"
    and "u_pos u + 3 < write_pos (u_uri u)"
  shows "returns (segment m u) (\<lambda>(b, u'). u_pos u + 4 \<le> u_pos u')"
proof -
  let ?P = "\<lambda>c. UNRESERVED_CHARS c \<or> pchar_post c"
  let ?cs = "chars m (u_uri u)" and ?p = "u_pos u"
  have c: "cursor m (u_uri u)" using assms(1) by (simp add: uri_ok_def)
  have "?cs ! ?p = CHR ''%''" "?p < length ?cs" using assms(2) by (auto simp: escape_at_def)
  moreover have "\<not> ?P (CHR ''%'')" using plain_classes(2) unfolding plain_class_def by blast
  moreover have "min (length ?cs) (?p + 4) = ?p + 4" using assms(3) by simp
  ultimately have "scan_end ?P ?cs ?p = scan_end ?P ?cs (?p + 4)"
    using assms(2) by (subst scan_end.simps) simp
  then have e: "?p + 4 \<le> scan_end ?P ?cs ?p" "scan_end ?P ?cs ?p \<le> length ?cs"
    using scan_end_bounds [of "?p + 4" ?cs ?P] assms(3) by auto
  let ?u = "u\<lparr>u_uri := (u_uri u)\<lparr>read_pos := scan_end ?P ?cs ?p\<rparr>\<rparr>"
  have sc: "scan_class UNRESERVED_CHARS pchar_post m u = Some ?u"
    using uri_scan_eq [OF c plain_classes(2) refl] c
    by (simp add: scan_class_def cursor_def u_pos_def)
  have "moved (u_uri u) ((u_uri u)\<lparr>read_pos := scan_end ?P ?cs ?p\<rparr>)"
    using e by (intro movedI) (auto simp: u_pos_def)
  from adv_uri_move [OF adv_refl [OF assms(1)] this] have "uri_ok m ?u" by (rule adv_ok)
  from segment_params_from [OF adv_refl [OF this], of "\<lambda>u'. u_pos ?u \<le> u_pos u'"]
  have "returns (segment_params m ?u) (\<lambda>u'. u_pos ?u \<le> u_pos u')"
    using adv_pos by blast
  then show ?thesis
    using e by (auto simp: segment_def sc returns_iff u_pos_def)
qed

lemma segment_swallows_after_escape_witness:
  "returns (segment (memory_of [''%20 x'']) (uri_at 0 5)) (\<lambda>(b, u'). 4 \<le> u_pos u')"
proof -
  have "escape_at ''%20 x'' 0" by (simp add: escape_at_def cclass range_defs)
  with segment_swallows_after_escape [OF uri_at_ok [of 0 "[''%20 x'']" 5]]
  show ?thesis by simp
qed

section \<open>The productions as functions of the characters\<close>

lemma set_u_pos_simps [simp]:
  "u_pos (set_u_pos p u) = p" "set_u_pos q (set_u_pos p u) = set_u_pos q u"
  "u_uri (set_u_pos p u) = (u_uri u)\<lparr>read_pos := p\<rparr>" "set_u_pos (u_pos u) u = u"
  by (simp_all add: u_pos_def set_u_pos_def)

lemma part_of_read_pos [simp]: "part_of (s\<lparr>read_pos := r\<rparr>) p q x = part_of s p q x"
  by (simp add: part_of_def Let_def)

lemma set_u_pos_parts [simp]:
  "u_scheme (set_u_pos p u) = u_scheme u" "u_authority (set_u_pos p u) = u_authority u"
  "u_port (set_u_pos p u) = u_port u" "u_abs_path (set_u_pos p u) = u_abs_path u"
  "u_query (set_u_pos p u) = u_query u" "u_fragment (set_u_pos p u) = u_fragment u"
  by (simp_all add: set_u_pos_def)

lemma scan_class_eq:
  assumes "cursor m (u_uri u)" and "plain_class (\<lambda>c. pre c \<or> post c)"
  shows "scan_class pre post m u =
    Some (set_u_pos (scan_end (\<lambda>c. pre c \<or> post c) (chars m (u_uri u)) (u_pos u)) u)"
  using uri_scan_eq [OF assms refl] assms(1)
  by (simp add: scan_class_def cursor_def u_pos_def set_u_pos_def)

lemma uri_is_char_eq:
  assumes "cursor m (u_uri u)"
  defines "cs \<equiv> chars m (u_uri u)" and "p \<equiv> u_pos u"
  shows "uri_is_char m u c = Some (if c = peek cs p then (True, set_u_pos (min (p + 1) (length cs)) u)
    else (False, u))"
proof -
  have "stringaa_next_read_pos (u_uri u) = (Suc p < length cs, (u_uri u)\<lparr>read_pos := min (p + 1) (length cs)\<rparr>)"
    using assms(1) by (auto simp: stringaa_next_read_pos_def cs_def p_def u_pos_def cursor_def)
  then show ?thesis
    using assms(1) by (auto simp: uri_is_char_def stringaa_is_char_def cursor_def cs_def p_def
        u_pos_def set_u_pos_def)
qed

text \<open>The loop over \<open>d\<close>-separated runs of \<open>P\<close>, on characters.\<close>

function delim_end :: "(char \<Rightarrow> bool) \<Rightarrow> char \<Rightarrow> char list \<Rightarrow> nat \<Rightarrow> nat" where
  "delim_end P d cs q = (if q < length cs \<and> cs ! q = d
     then delim_end P d cs (scan_end P cs (q + 1)) else q)"
  by pat_completeness auto
termination
proof (relation "measure (\<lambda>(P, d, cs, q). length cs - q)", goal_cases)
  case 1 show ?case by simp
next
  case (2 P d cs q)
  then show ?case using scan_end_bounds [of "q + 1" cs P] by auto
qed

declare delim_end.simps [simp del]

lemma delim_end_scan:
  assumes "\<not> P d" and "d \<noteq> CHR ''%''"
  shows "p \<le> length cs \<Longrightarrow> delim_end P d cs (scan_end P cs p) = scan_end (\<lambda>c. P c \<or> c = d) cs p"
proof (induction "length cs - p" arbitrary: p rule: less_induct)
  case less
  let ?Q = "\<lambda>c. P c \<or> c = d"
  show ?case
  proof (cases "p < length cs")
    case False
    then show ?thesis by (simp add: scan_end_out delim_end.simps)
  next
    case True
    note unf = scan_end.simps [of P cs p] scan_end.simps [of ?Q cs p]
    consider (P) "P (cs ! p)" | (esc) "\<not> P (cs ! p)" "escape_at cs p"
      | (last) "\<not> P (cs ! p)" "\<not> escape_at cs p" "cs ! p = CHR ''%'' \<and> p + 1 = length cs"
      | (d) "\<not> P (cs ! p)" "\<not> escape_at cs p" "cs ! p = d"
      | (no) "\<not> P (cs ! p)" "\<not> escape_at cs p" "\<not> (cs ! p = CHR ''%'' \<and> p + 1 = length cs)" "cs ! p \<noteq> d"
      by blast
    then show ?thesis
    proof cases
      case P
      with True less(1) [of "p + 1"] show ?thesis by (simp add: unf)
    next
      case esc
      then have "cs ! p \<noteq> d" using assms(2) by (auto simp: escape_at_def)
      with True esc less(1) [of "min (length cs) (p + 4)"] show ?thesis by (simp add: unf)
    next
      case last
      with True assms(2) show ?thesis by (auto simp: unf delim_end.simps [of _ _ _ "length cs"])
    next
      case d
      with True assms less(1) [of "p + 1"] show ?thesis
        by (simp add: unf delim_end.simps [of _ _ _ p])
    next
      case no
      with True show ?thesis by (auto simp: unf delim_end.simps [of _ _ _ p])
    qed
  qed
qed

text \<open>The classes of \<open>pchar\<close>, of the characters of a segment, and of those of a path.\<close>

definition PCHAR :: "char \<Rightarrow> bool" where [cclass]:
  "PCHAR c \<longleftrightarrow> UNRESERVED_CHARS c \<or> pchar_post c"

definition SEGMENT :: "char \<Rightarrow> bool" where [cclass]:
  "SEGMENT c \<longleftrightarrow> PCHAR c \<or> c = CHR '';''"

definition PATH :: "char \<Rightarrow> bool" where [cclass]:
  "PATH c \<longleftrightarrow> SEGMENT c \<or> c = CHR ''/''"

lemma PCHAR_eq: "(\<lambda>c. UNRESERVED_CHARS c \<or> pchar_post c) = PCHAR"
  by (simp add: PCHAR_def fun_eq_iff)

lemma SEGMENT_eq: "(\<lambda>c. PCHAR c \<or> c = CHR '';'') = SEGMENT"
  by (simp add: SEGMENT_def fun_eq_iff)

lemma PATH_eq: "(\<lambda>c. SEGMENT c \<or> c = CHR ''/'') = PATH"
  by (simp add: PATH_def fun_eq_iff)

lemma scan_pchar_eq:
  "cursor m (u_uri u) \<Longrightarrow> scan_class UNRESERVED_CHARS pchar_post m u =
    Some (set_u_pos (scan_end PCHAR (chars m (u_uri u)) (u_pos u)) u)"
  using scan_class_eq [of m u, OF _ plain_classes(2)] by (simp add: PCHAR_eq)

lemma cursor_set_u_pos: "cursor m (u_uri u) \<Longrightarrow> p \<le> write_pos (u_uri u) \<Longrightarrow> cursor m (u_uri (set_u_pos p u))"
  by (simp add: cursor_def)

lemma segment_params_eq:
  assumes "cursor m (u_uri u)"
  defines "cs \<equiv> chars m (u_uri u)"
  shows "q \<le> length cs \<Longrightarrow> segment_params m (set_u_pos q u) = Some (set_u_pos (delim_end PCHAR (CHR '';'') cs q) u)"
proof (induction "length cs - q" arbitrary: q rule: less_induct)
  case less
  have c: "cursor m (u_uri (set_u_pos q u))" using assms(1) less(2) by (intro cursor_set_u_pos) (simp_all add: cs_def)
  note ic = uri_is_char_eq [OF c, of "CHR '';''"]
  show ?case
  proof (cases "q < length cs \<and> cs ! q = CHR '';''")
    case False
    then have "CHR '';'' \<noteq> peek cs q" by (auto simp: peek_def)
    with False ic show ?thesis
      by (auto simp: segment_params.simps [of m "set_u_pos q u"] delim_end.simps [of _ _ _ q] cs_def)
  next
    case True
    let ?e = "scan_end PCHAR cs (q + 1)"
    have c1: "cursor m (u_uri (set_u_pos (q + 1) u))"
      using assms(1) True by (intro cursor_set_u_pos) (simp_all add: cs_def)
    have "param m (set_u_pos (q + 1) u) = Some (True, set_u_pos ?e u)"
      using scan_pchar_eq [OF c1] by (simp add: param_def cs_def)
    moreover have "q + 1 \<le> ?e" "?e \<le> length cs" using scan_end_bounds [of "q + 1" cs] True by auto
    ultimately show ?thesis
      using True ic less(1) [of ?e]
      by (simp add: segment_params.simps [of m "set_u_pos q u"] delim_end.simps [of _ _ _ q] cs_def min_def)
  qed
qed

lemma segment_eq:
  assumes "cursor m (u_uri u)" and "q \<le> write_pos (u_uri u)"
  defines "cs \<equiv> chars m (u_uri u)"
  shows "segment m (set_u_pos q u) = Some (True, set_u_pos (scan_end SEGMENT cs q) u)"
proof -
  have np: "\<not> PCHAR (CHR '';'')" by (simp add: cclass range_defs)
  have c: "cursor m (u_uri (set_u_pos q u))" using assms(1,2) by (rule cursor_set_u_pos)
  have "scan_end PCHAR cs q \<le> length cs" using scan_end_bounds [of q cs] assms(2) by (simp add: cs_def)
  then show ?thesis
    using scan_pchar_eq [OF c] segment_params_eq [OF assms(1)]
      delim_end_scan [of PCHAR "CHR '';''" q cs] np assms(2)
    by (simp add: segment_def cs_def SEGMENT_eq)
qed

lemma more_segments_eq:
  assumes "cursor m (u_uri u)"
  defines "cs \<equiv> chars m (u_uri u)"
  shows "q \<le> length cs \<Longrightarrow> more_segments m (set_u_pos q u) = Some (set_u_pos (delim_end SEGMENT (CHR ''/'') cs q) u)"
proof (induction "length cs - q" arbitrary: q rule: less_induct)
  case less
  have c: "cursor m (u_uri (set_u_pos q u))" using assms(1) less(2) by (intro cursor_set_u_pos) (simp_all add: cs_def)
  note ic = uri_is_char_eq [OF c, of "CHR ''/''"]
  show ?case
  proof (cases "q < length cs \<and> cs ! q = CHR ''/''")
    case False
    then have "CHR ''/'' \<noteq> peek cs q" by (auto simp: peek_def)
    with False ic show ?thesis
      by (auto simp: more_segments.simps [of m "set_u_pos q u"] delim_end.simps [of _ _ _ q] cs_def)
  next
    case True
    let ?e = "scan_end SEGMENT cs (q + 1)"
    have "segment m (set_u_pos (q + 1) u) = Some (True, set_u_pos ?e u)"
      using segment_eq [OF assms(1), of "q + 1"] True by (simp add: cs_def)
    moreover have "q + 1 \<le> ?e" "?e \<le> length cs" using scan_end_bounds [of "q + 1" cs] True by auto
    ultimately show ?thesis
      using True ic less(1) [of ?e]
      by (simp add: more_segments.simps [of m "set_u_pos q u"] delim_end.simps [of _ _ _ q] cs_def min_def)
  qed
qed

lemma abs_path_longest_run_eq:
  assumes "cursor m (u_uri u)"
  defines "cs \<equiv> chars m (u_uri u)" and "p \<equiv> u_pos u"
  defines "e \<equiv> scan_end PATH cs (p + 1)"
  shows "abs_path m u = Some (if peek cs p = CHR ''/''
    then (True, (set_u_pos e u)\<lparr>u_abs_path := part_of (u_uri u) p e (u_abs_path u)\<rparr>)
    else (False, u))"
proof (cases "peek cs p = CHR ''/''")
  case False
  then show ?thesis
    using uri_is_char_eq [OF assms(1), of "CHR ''/''"] by (auto simp: abs_path_def cs_def p_def)
next
  case True
  then have p: "p < length cs" by (auto simp: peek_def split: if_splits)
  have nd: "\<not> SEGMENT (CHR ''/'')" by (simp add: cclass range_defs)
  let ?u = "set_u_pos (p + 1) u"
  have "uri_is_char m u (CHR ''/'') = Some (True, ?u)"
    using uri_is_char_eq [OF assms(1), of "CHR ''/''"] True p by (simp add: cs_def p_def min_def)
  moreover have "segment m ?u = Some (True, set_u_pos (scan_end SEGMENT cs (p + 1)) u)"
    using segment_eq [OF assms(1), of "p + 1"] p by (simp add: cs_def)
  moreover have "more_segments m (set_u_pos (scan_end SEGMENT cs (p + 1)) u) = Some (set_u_pos e u)"
    using more_segments_eq [OF assms(1), of "scan_end SEGMENT cs (p + 1)"]
      delim_end_scan [of SEGMENT "CHR ''/''" "p + 1" cs] nd scan_end_bounds [of "p + 1" cs] p
    by (simp add: cs_def e_def PATH_eq)
  ultimately show ?thesis
    using True by (simp add: abs_path_def path_segments_def Let_def p_def)
qed

text \<open>C16: \<open>abs_path\<close> with its three nested loops succeeds exactly when the next character is a slash; it then moves to the
  end of one scan over the class \<open>PATH\<close>, and records what it has passed, slash included, as the absolute
  path.  The scan, \<open>scan_end\<close>, takes path characters and escapes as long as there are any, and with each
  escape the character behind it, whatever that is: of \<open>/%20?q\<close> the question mark belongs to the path.  A
  percent sign that is the last character is taken too.\<close>

theorem abs_path_longest_run:
  assumes "cursor m (u_uri u)"
  defines "cs \<equiv> chars m (u_uri u)" and "p \<equiv> u_pos u"
  defines "e \<equiv> scan_end PATH cs (p + 1)"
  shows "abs_path m u = Some (if peek cs p = CHR ''/''
    then (True, (set_u_pos e u)\<lparr>u_abs_path := part_of (u_uri u) p e (u_abs_path u)\<rparr>)
    else (False, u))"
  unfolding assms(2-) by (rule abs_path_longest_run_eq [OF assms(1)])

lemma abs_path_longest_run_witness:
  "abs_path (memory_of [''/a;b/c?d'']) (uri_at 0 8) =
    Some (True, (set_u_pos 6 (uri_at 0 8))\<lparr>u_abs_path := part_of (string_at 0 8) 0 6 stringaa_zero\<rparr>)"
proof -
  have "scan_end PATH ''/a;b/c?d'' 1 = 6"
    by (simp add: scan_end.simps cclass range_defs escape_at_def)
  with abs_path_longest_run [of "memory_of [''/a;b/c?d'']" "uri_at 0 8"]
  show ?thesis by (simp add: cursor_def)
qed

text \<open>\<open>authority\<close> never fails, because \<open>server\<close> reports success always; so \<open>reg_name\<close> is never
  tried, and \<open>net_path\<close> succeeds exactly on a reference that goes on with two slashes.\<close>

theorem net_path_iff_two_slashes:
  assumes "uri_ok m u"
  defines "cs \<equiv> chars m (u_uri u)" and "p \<equiv> u_pos u"
  shows "returns (net_path m u) (\<lambda>(b, u').
    b \<longleftrightarrow> peek cs p = CHR ''/'' \<and> peek cs (p + 1) = CHR ''/'')"
proof -
  have auth: "returns (authority m v) (\<lambda>(b, v'). b \<and> adv m v v')" if "uri_ok m v" for v
  proof -
    from authority_c.total [OF that] obtain b v' where
      a: "authority m v = Some (b, v')" "adv m v v'" by (auto simp: returns_iff)
    from server_c.no_fault [OF that] obtain s w where s: "server m v = Some (s, w)" by blast
    then have "s" by (auto simp: server_def Let_def bind_eq_Some_conv)
    with a s show ?thesis by (auto simp: authority_def Let_def bind_eq_Some_conv)
  qed
  have c: "cursor m (u_uri u)" using assms(1) by (simp add: uri_ok_def)
  show ?thesis
  proof (cases "peek cs p = CHR ''/''")
    case False
    then show ?thesis
      using uri_is_char_eq [OF c, of "CHR ''/''"] by (auto simp: net_path_def cs_def p_def)
  next
    case True
    then have p: "p < length cs" by (auto simp: peek_def split: if_splits)
    let ?u = "set_u_pos (p + 1) u"
    have 1: "uri_is_char m u (CHR ''/'') = Some (True, ?u)"
      using uri_is_char_eq [OF c, of "CHR ''/''"] True p by (simp add: cs_def p_def min_def)
    have c1: "cursor m (u_uri ?u)" using c p by (intro cursor_set_u_pos) (simp_all add: cs_def)
    show ?thesis
    proof (cases "peek cs (p + 1) = CHR ''/''")
      case False
      then show ?thesis
        using uri_is_char_eq [OF c1, of "CHR ''/''"] 1 True by (auto simp: net_path_def cs_def p_def)
    next
      case t: True
      let ?u2 = "set_u_pos (min (p + 2) (length cs)) u"
      have 2: "uri_is_char m ?u (CHR ''/'') = Some (True, ?u2)"
        using uri_is_char_eq [OF c1, of "CHR ''/''"] t by (simp add: cs_def)
      have "adv m u ?u2" using p by (intro adv_set_pos [OF adv_refl [OF assms(1)]]) (auto simp: p_def cs_def)
      then have ok2: "uri_ok m ?u2" by (rule adv_ok)
      obtain v where v: "authority m ?u2 = Some (True, v)" "uri_ok m v"
        using auth [OF ok2] by (auto simp: returns_iff adv_def)
      obtain a w where "abs_path m v = Some (a, w)" using abs_path_c.no_fault [OF v(2)] by blast
      with 1 2 v(1) True t show ?thesis by (simp add: net_path_def Let_def)
    qed
  qed
qed

lemma net_path_iff_two_slashes_witness:
  "returns (net_path (memory_of [''//'']) (uri_at 0 2)) (\<lambda>(b, u'). b)"
  using net_path_iff_two_slashes [OF uri_at_ok [of 0 "[''//'']" 2]]
  by simp

text \<open>\<open>port\<close> recognises a port exactly when the next character is a digit; it records the
  longest run of digits and leaves the position after it, and otherwise changes nothing.\<close>

theorem port_longest_digits:
  assumes "cursor m (u_uri u)"
  defines "cs \<equiv> chars m (u_uri u)" and "p \<equiv> u_pos u"
  defines "e \<equiv> run_end DIGIT_CHARS cs p"
  shows "port m u = Some (if p < e
    then (True, (set_u_pos e u)\<lparr>u_port := part_of (u_uri u) p e (u_port u)\<rparr>)
    else (False, u))"
proof -
  have sc: "char_scan DIGIT_CHARS m (u_uri u) (peek cs p) = Some ((u_uri u)\<lparr>read_pos := e\<rparr>)"
    using char_scan_eq [where P = DIGIT_CHARS, OF assms(1) _ refl]
    by (simp add: cs_def p_def e_def u_pos_def)
  have iff: "DIGIT_CHARS (peek cs p) \<longleftrightarrow> p < e"
  proof (cases "p < length cs")
    case True
    then show ?thesis by (simp add: e_def run_end_def Cons_nth_drop_Suc [symmetric])
  next
    case False
    then show ?thesis by (simp add: e_def run_end_def)
  qed
  have "u\<lparr>u_uri := (u_uri u)\<lparr>read_pos := e\<rparr>\<rparr> = set_u_pos e u" by (simp add: set_u_pos_def)
  with sc iff assms(1) show ?thesis
    by (simp add: port_def Let_def cursor_def cs_def p_def u_pos_def [symmetric])
qed

lemma port_longest_digits_witness:
  "port (memory_of [''8080/x'']) (uri_at 0 6) =
    Some (True, (set_u_pos 4 (uri_at 0 6))\<lparr>u_port := part_of (string_at 0 6) 0 4 stringaa_zero\<rparr>)"
proof -
  have "run_end DIGIT_CHARS ''8080/x'' 0 = 4" by (simp add: run_end_def cclass range_defs)
  with port_longest_digits [of "memory_of [''8080/x'']" "uri_at 0 6"]
  show ?thesis by (simp add: cursor_def)
qed

end
