(* ===== verification/Stringaa_Buffer.thy ===== *)
theory Stringaa_Buffer
  imports Reader
begin

text \<open>
  The operations of \<open>src/string/stringaa.h\<close> that allocate, copy and append, and their
  contracts.  \<open>owned\<close> is the invariant of a string that owns its block; the contracts say what
  the bytes of the string are after a call, on every branch of the allocator.
\<close>

section \<open>Allocation\<close>

definition stringaa_malloc :: "mem \<Rightarrow> stringaa \<Rightarrow> nat \<Rightarrow> (bool \<times> stringaa \<times> mem) option" where
  "stringaa_malloc m s n =
     (if n > 0 \<and> (is_alloc s \<and> buf_size s < n \<or> \<not> is_alloc s)
      then (case c_malloc m n of (b, m) \<Rightarrow>
        if b \<noteq> Null then do {
          m \<leftarrow> store_n m b (replicate n NUL);
          m \<leftarrow> (if is_alloc s then c_free m (buf s) else Some m);
          Some (True, set_flags [STRINGAA_IS_ALLOC, STRINGAA_IS_NULL_TERMINATED]
            (s\<lparr>buf := b, buf_size := n, read_pos := 0, write_pos := 0\<rparr>), m) }
        else Some (False, s, m))
      else Some (False, s, m))"

text \<open>The new block is not zeroed, and the old one is not freed.\<close>

definition stringaa_realloc :: "mem \<Rightarrow> stringaa \<Rightarrow> nat \<Rightarrow> (bool \<times> stringaa \<times> mem) option" where
  "stringaa_realloc m s n =
     (if n = 0 \<or> n < buf_size s then Some (False, s, m)
      else (let n = (if is_null_terminated s then n else n + 1) in
        case c_malloc m n of (b, m) \<Rightarrow>
        if b = Null then Some (False, s, m)
        else do {
          (s, m) \<leftarrow> (if is_init s
            then (let s = (if write_pos s \<ge> buf_size s
                           then s\<lparr>write_pos := (if buf_size s > 0 then buf_size s - 1 else 0)\<rparr>
                           else s) in do {
              m \<leftarrow> c_memcpy m b (buf s) (write_pos s);
              m \<leftarrow> (if is_null_terminated s then store m b (write_pos s) NUL else Some m);
              Some (s, m) })
            else Some (s\<lparr>write_pos := 0\<rparr>, m));
          Some (True, s\<lparr>buf := b, buf_size := n, read_pos := 0, is_alloc := True\<rparr>, m) }))"

text \<open>The call of \<open>stringaa_realloc(s, 0)\<close> does nothing: the size 0 is refused.\<close>

definition stringaa_set_char :: "mem \<Rightarrow> stringaa \<Rightarrow> char \<Rightarrow> (bool \<times> stringaa \<times> mem) option" where
  "stringaa_set_char m s c =
     (if write_pos s + of_bool (is_null_terminated s) < buf_size s
      then do {
        (_, s, m) \<leftarrow> (if \<not> is_alloc s then stringaa_realloc m s 0 else Some (True, s, m));
        m \<leftarrow> store m (buf s) (write_pos s) c;
        Some (True, s, m) }
      else Some (False, s, m))"

section \<open>Copying\<close>

text \<open>
  The end of a copy (\<open>w = 0\<close>) and of an append (\<open>w\<close> the write position): the bytes, the
  terminator, the positions and \<open>is_init\<close>.
\<close>

definition stringaa_fill ::
  "mem \<Rightarrow> stringaa \<Rightarrow> nat \<Rightarrow> cptr \<Rightarrow> nat \<Rightarrow> (bool \<times> stringaa \<times> mem) option" where
  "stringaa_fill m s w b n = do {
     m \<leftarrow> c_memcpy m (padd (buf s) w) b n;
     let s = s\<lparr>write_pos := w + n\<rparr>;
     m \<leftarrow> (if is_null_terminated s then store m (buf s) (write_pos s) NUL else Some m);
     Some (True, s\<lparr>read_pos := 0, is_init := True\<rparr>, m) }"

text \<open>The result of \<open>stringaa_malloc\<close> is not tested by the code.\<close>

definition stringaa_copy_chars_size ::
  "mem \<Rightarrow> stringaa \<Rightarrow> cptr \<Rightarrow> nat \<Rightarrow> (bool \<times> stringaa \<times> mem) option" where
  "stringaa_copy_chars_size m s b n = (if b = Null then Some (False, s, m)
     else do {
       (_, s, m) \<leftarrow> (if \<not> is_alloc s \<or> buf_size s \<le> n + 1 then stringaa_malloc m s (n + 1)
                     else Some (True, s, m));
       stringaa_fill m s 0 b n })"

definition stringaa_copy_chars :: "mem \<Rightarrow> stringaa \<Rightarrow> cptr \<Rightarrow> (bool \<times> stringaa \<times> mem) option" where
  "stringaa_copy_chars m s b = (if b = Null then Some (False, s, m)
     else do {
       n \<leftarrow> c_strlen m b;
       stringaa_copy_chars_size m s b n })"

text \<open>
  The size of the source is an unsigned subtraction; on the struct for which it would wrap
  the copy of that many bytes is undefined.
\<close>

definition stringaa_copy :: "mem \<Rightarrow> stringaa \<Rightarrow> stringaa \<Rightarrow> (bool \<times> stringaa \<times> mem) option" where
  "stringaa_copy m s1 s2 = (if buf s2 = Null \<or> \<not> is_init s2 then Some (False, s1, m)
     else if buf_size s2 = 0 \<and> is_null_terminated s2 then None
     else do {
       (ok, s1, m) \<leftarrow> stringaa_copy_chars_size m s1 (buf s2) (buf_size s2 - of_bool (is_null_terminated s2));
       Some (if ok then (ok, s1\<lparr>write_pos := write_pos s2\<rparr>, m) else (ok, s1, m)) })"

section \<open>Appending\<close>

definition stringaa_add_chars_size ::
  "mem \<Rightarrow> stringaa \<Rightarrow> cptr \<Rightarrow> nat \<Rightarrow> (bool \<times> stringaa \<times> mem) option" where
  "stringaa_add_chars_size m s b n = (if b \<noteq> Null \<and> n \<noteq> 0
     then do {
       (_, s, m) \<leftarrow> (if \<not> is_alloc s \<or> buf_size s \<le> write_pos s + n + 1
                     then stringaa_realloc m s (write_pos s + n + 1) else Some (True, s, m));
       stringaa_fill m s (write_pos s) b n }
     else Some (True, s, m))"

definition stringaa_add_chars :: "mem \<Rightarrow> stringaa \<Rightarrow> cptr \<Rightarrow> (bool \<times> stringaa \<times> mem) option" where
  "stringaa_add_chars m s b = (if b = Null then Some (False, s, m)
     else do {
       n \<leftarrow> c_strlen m b;
       stringaa_add_chars_size m s b n })"

definition stringaa_add :: "mem \<Rightarrow> stringaa \<Rightarrow> stringaa \<Rightarrow> (bool \<times> stringaa \<times> mem) option" where
  "stringaa_add m s1 s2 =
     (if buf s2 \<noteq> Null \<and> is_init s2 \<and> read_pos s2 < write_pos s2
         \<and> write_pos s2 + of_bool (is_null_terminated s2) \<le> buf_size s2
      then stringaa_add_chars_size m s1 (padd (buf s2) (read_pos s2)) (write_pos s2 - read_pos s2)
      else Some (False, s1, m))"

section \<open>Construction and destruction\<close>

definition stringaa_init :: "mem \<Rightarrow> nat \<Rightarrow> (bool \<times> stringaa \<times> mem) option" where
  "stringaa_init m n = do {
     (ok, s, m) \<leftarrow> (if n > 0 then stringaa_malloc m stringaa_zero n else Some (True, stringaa_zero, m));
     Some (ok, if ok then s\<lparr>is_init := True\<rparr> else s, m) }"

text \<open>
  The destructor hands the block on to the next linked struct, frees it, or frees the
  original block; \<open>st\<close> is the memory of the structs that links point to.
\<close>

definition stringaa_free :: "mem \<Rightarrow> (nat \<rightharpoonup> stringaa) \<Rightarrow> stringaa \<Rightarrow>
    (stringaa \<times> (nat \<rightharpoonup> stringaa) \<times> mem) option" where
  "stringaa_free m st s = do {
     (st, m) \<leftarrow> (case next_link s of
         Some l \<Rightarrow> do {
           x \<leftarrow> st l;
           Some (st(l \<mapsto> x\<lparr>buf_original := (if is_alloc s then buf s else buf_original s)\<rparr>), m) }
       | None \<Rightarrow>
           if is_alloc s then do { m \<leftarrow> c_free m (buf s); Some (st, m) }
           else if buf_original s \<noteq> Null then do { m \<leftarrow> c_free m (buf_original s); Some (st, m) }
           else Some (st, m));
     Some (set_flags [] (s\<lparr>buf := Null, buf_size := 0, buf_original := Null, read_pos := 0,
       write_pos := 0\<rparr>), st, m) }"

section \<open>Strings that own their block\<close>

text \<open>
  \<open>owned\<close>: the string was allocated by the library and has room for a terminator.  \<open>blank\<close>: a
  zeroed struct.  Both may be copied to and appended to.
\<close>

definition owned :: "mem \<Rightarrow> stringaa \<Rightarrow> bool" where
  "owned m s \<longleftrightarrow> is_alloc s \<and> write_pos s < buf_size s \<and> (is_init s \<or> write_pos s = 0)
     \<and> (\<exists>a bs. buf s = Ptr a 0 \<and> blocks m a = Some bs \<and> length bs = buf_size s)"

definition blank :: "stringaa \<Rightarrow> bool" where
  "blank s \<longleftrightarrow> \<not> is_alloc s \<and> \<not> is_init s \<and> buf_size s = 0 \<and> write_pos s = 0"

definition growable :: "mem \<Rightarrow> stringaa \<Rightarrow> bool" where
  "growable m s \<longleftrightarrow> owned m s \<or> blank s"

fun block_of :: "cptr \<Rightarrow> nat option" where
  "block_of Null = None"
| "block_of (Ptr a off) = Some a"

text \<open>\<open>other_blocks m m' A\<close>: the blocks that exist in \<open>m\<close> and are not in \<open>A\<close> are as they were.\<close>

definition other_blocks :: "mem \<Rightarrow> mem \<Rightarrow> nat option \<Rightarrow> bool" where
  "other_blocks m m' x \<longleftrightarrow> mem_ok m' \<and> nalloc m \<le> nalloc m' \<and> oom m' = oom m \<and> junk m' = junk m
     \<and> (\<forall>a < nalloc m. Some a \<noteq> x \<longrightarrow> blocks m' a = blocks m a)"

lemma other_blocks_trans:
  "other_blocks m m' x \<Longrightarrow> other_blocks m' m'' x \<Longrightarrow> other_blocks m m'' x"
  by (auto simp: other_blocks_def)

lemma other_blocks_load_n:
  assumes "other_blocks m m' x" and "mem_ok m" and "load_n m p n = Some cs"
    and "n = 0 \<or> block_of p \<noteq> x"
  shows "load_n m' p n = Some cs"
proof (cases "n = 0")
  case True
  with assms(3) show ?thesis by (simp add: load_n_def)
next
  case False
  then obtain a off bs where p: "p = Ptr a off" "blocks m a = Some bs"
    using load_n_block [OF assms(3)] by auto
  have "a < nalloc m" "Some a \<noteq> x"
    using mem_ok_lt [OF assms(2) p(2)] assms(4) False p(1) by simp_all
  then have "blocks m' a = blocks m a" using assms(1) unfolding other_blocks_def by simp
  from load_n_same [OF this] assms(3) p(1) show ?thesis by simp
qed

lemma chars_at:
  "buf s = Ptr a 0 \<Longrightarrow> blocks m a = Some bs \<Longrightarrow> write_pos s \<le> length bs \<Longrightarrow>
   chars m s = take (write_pos s) bs"
  by (simp add: chars_def load_n_in)

lemma other_blocks_upd:
  assumes "mem_ok m" and "a < nalloc m"
  shows "other_blocks m (m\<lparr>blocks := (blocks m)(a \<mapsto> bs)\<rparr>) (Some a)"
  using assms by (simp add: other_blocks_def mem_ok_def)

lemma other_blocks_new:
  "mem_ok m \<Longrightarrow> other_blocks m (m\<lparr>blocks := (blocks m)(nalloc m \<mapsto> bs), nalloc := Suc (nalloc m)\<rparr>) x"
  by (simp add: other_blocks_def mem_ok_def)

lemma owned_chars: "owned m s \<Longrightarrow> blocks m a = Some bs \<Longrightarrow> buf s = Ptr a 0 \<Longrightarrow>
    chars m s = take (write_pos s) bs \<and> readable m s"
  by (auto simp: owned_def chars_def readable_def load_n_def)

lemma blank_chars: "blank s \<Longrightarrow> chars m s = [] \<and> readable m s"
  by (auto simp: blank_def chars_def readable_def load_n_def)

lemma growable_readable: "growable m s \<Longrightarrow> readable m s"
  using owned_chars blank_chars by (fastforce simp: growable_def owned_def)

text \<open>\<open>malloc\<close> of the library: a fresh, empty, zeroed block, or no change.\<close>

lemma stringaa_malloc_ok:
  assumes "mem_ok m" and "\<not> oom m (nalloc m)" and "growable m s" and "buf_size s < n"
  shows "returns (stringaa_malloc m s n) (\<lambda>(ok, s', m'). ok \<and> owned m' s' \<and> write_pos s' = 0
    \<and> buf_size s' = n \<and> is_null_terminated s' \<and> \<not> is_init s' \<and> buf s' = Ptr (nalloc m) 0
    \<and> other_blocks m m' (block_of (buf s)))"
proof -
  let ?a = "nalloc m"
  let ?m1 = "m\<lparr>blocks := (blocks m)(?a \<mapsto> map (junk m ?a) [0..<n]), nalloc := Suc ?a\<rparr>"
  have fill: "store_n ?m1 (Ptr ?a 0) (replicate n NUL) =
      Some (m\<lparr>blocks := (blocks m)(?a \<mapsto> replicate n NUL), nalloc := Suc ?a\<rparr>)"
    by (simp add: store_n_in)
  show ?thesis
    using assms fill
    by (auto simp: stringaa_malloc_def c_malloc_def Let_def growable_def owned_def blank_def
        set_flags_def other_blocks_def mem_ok_def)
qed

text \<open>\<open>realloc\<close> of the library keeps the bytes of a growable string.\<close>

lemma stringaa_realloc_ok:
  assumes "mem_ok m" and "\<not> oom m (nalloc m)" and "growable m s" and "buf_size s \<le> n"
    and "write_pos s < n"
  shows "returns (stringaa_realloc m s n) (\<lambda>(ok, s', m'). ok \<and> owned m' s' \<and> n \<le> buf_size s'
    \<and> chars m' s' = chars m s \<and> write_pos s' = write_pos s
    \<and> is_null_terminated s' = is_null_terminated s \<and> buf s' = Ptr (nalloc m) 0
    \<and> other_blocks m m' (block_of (buf s)))"
proof -
  let ?a = "nalloc m" and ?k = "if is_null_terminated s then n else n + 1" and ?w = "write_pos s"
  let ?j = "map (junk m ?a) [0..<?k]"
  let ?m1 = "m\<lparr>blocks := (blocks m)(?a \<mapsto> ?j), nalloc := Suc ?a\<rparr>"
  have alloc: "c_malloc m ?k = (Ptr ?a 0, ?m1)" using assms(2) by (simp add: c_malloc_def Let_def)
  have small: "\<not> (n = 0 \<or> n < buf_size s)" using assms(4,5) by auto
  show ?thesis
  proof (cases "is_init s")
    case False
    then have "?w = 0" using assms(3) by (auto simp: growable_def owned_def blank_def)
    with False assms alloc small show ?thesis
      by (auto simp: stringaa_realloc_def Let_def owned_def other_blocks_def
          mem_ok_def chars_def load_n_def)
  next
    case True
    then have ow: "owned m s" using assms(3) by (auto simp: growable_def blank_def)
    then obtain b bs where s: "buf s = Ptr b 0" "blocks m b = Some bs" "length bs = buf_size s"
        "?w < buf_size s" "is_alloc s" by (auto simp: owned_def)
    then have ne: "b \<noteq> ?a" using assms(1) by (auto simp: mem_ok_def)
    have ch: "chars m s = take ?w bs" using owned_chars [OF ow s(2,1)] by simp
    let ?bs2 = "chars m s @ drop ?w ?j"
    let ?m2 = "m\<lparr>blocks := (blocks m)(?a \<mapsto> ?bs2), nalloc := Suc ?a\<rparr>"
    have "load_n ?m1 (buf s) ?w = Some (chars m s)" using s ne ch by (simp add: load_n_def)
    then have cp: "c_memcpy ?m1 (Ptr ?a 0) (buf s) ?w = Some ?m2"
      using s ne assms(5) by (simp add: c_memcpy_def c_memmove_def store_n_in)
    let ?bs3 = "if is_null_terminated s then ?bs2[?w := NUL] else ?bs2"
    let ?m3 = "m\<lparr>blocks := (blocks m)(?a \<mapsto> ?bs3), nalloc := Suc ?a\<rparr>"
    have nul: "(if is_null_terminated s then store ?m2 (Ptr ?a 0) ?w NUL else Some ?m2) = Some ?m3"
      using assms(5) by (simp add: store_in)
    have len: "length ?bs3 = ?k" using assms(5) by auto
    have keep: "take ?w ?bs3 = chars m s" by simp
    let ?s = "s\<lparr>buf := Ptr ?a 0, buf_size := ?k, read_pos := 0, is_alloc := True\<rparr>"
    have res: "stringaa_realloc m s n = Some (True, ?s, ?m3)"
      using True alloc small cp nul s(4) by (simp add: stringaa_realloc_def Let_def)
    have "chars ?m3 ?s = take ?w ?bs3"
      using chars_at [of ?s ?a ?m3 ?bs3] assms(5) len by simp
    then have "chars ?m3 ?s = chars m s" using keep by simp
    moreover have "owned ?m3 ?s" using True assms(5) len by (simp add: owned_def)
    ultimately show ?thesis
      unfolding res using other_blocks_new [OF assms(1)] by simp
  qed
qed

text \<open>The common end of a copy and an append: the bytes, the terminator, the flags.\<close>

lemma fill_ok:
  assumes "mem_ok m" and "owned m s" and "w \<le> write_pos s" and "w + n < buf_size s"
    and src: "load_n m p n = Some cs" "n = 0 \<or> block_of p \<noteq> block_of (buf s)"
  shows "returns (stringaa_fill m s w p n)
    (\<lambda>(ok, s', m'). ok \<and> owned m' s' \<and> chars m' s' = take w (chars m s) @ cs
      \<and> write_pos s' = w + n \<and> read_pos s' = 0 \<and> is_init s' \<and> buf s' = buf s
      \<and> other_blocks m m' (block_of (buf s)))"
proof -
  from assms(2) obtain a bs where s: "buf s = Ptr a 0" "blocks m a = Some bs"
      "length bs = buf_size s" "write_pos s < buf_size s" "is_alloc s" by (auto simp: owned_def)
  have a: "a < nalloc m" using mem_ok_lt [OF assms(1) s(2)] .
  have n: "length cs = n" using src(1) by (rule load_n_length)
  have no: "\<not> overlap (Ptr a w) p n" using src(2) s(1) by (cases p) auto
  let ?bs2 = "take w bs @ cs @ drop (w + n) bs"
  let ?bs3 = "if is_null_terminated s then ?bs2[w + n := NUL] else ?bs2"
  let ?m2 = "m\<lparr>blocks := (blocks m)(a \<mapsto> ?bs2)\<rparr>" and ?m3 = "m\<lparr>blocks := (blocks m)(a \<mapsto> ?bs3)\<rparr>"
  let ?s = "s\<lparr>write_pos := w + n, read_pos := 0, is_init := True\<rparr>"
  have cp: "c_memcpy m (padd (buf s) w) p n = Some ?m2"
    using no src(1) s n assms(4) by (simp add: c_memcpy_def c_memmove_def store_n_in)
  have len: "length ?bs2 = buf_size s" using s n assms(4) by simp
  have nul: "(if is_null_terminated s then store ?m2 (Ptr a 0) (w + n) NUL else Some ?m2) = Some ?m3"
    using len assms(4) by (cases "is_null_terminated s") (auto simp: store_in)
  have len3: "length ?bs3 = buf_size s" using len by simp
  have "chars m s = take (write_pos s) bs" using chars_at [OF s(1,2)] s by simp
  then have "take w (chars m s) = take w bs" using assms(3) by simp
  moreover have "chars ?m3 ?s = take (w + n) ?bs3"
    using chars_at [of ?s a ?m3 ?bs3] s len3 assms(4) by simp
  moreover have "take (w + n) ?bs3 = take w bs @ cs" using s n assms(4) by simp
  ultimately have "chars ?m3 ?s = take w (chars m s) @ cs" by simp
  moreover have "owned ?m3 ?s" using s len3 assms(4) by (simp add: owned_def)
  ultimately show ?thesis
    using cp s(1) nul other_blocks_upd [OF assms(1) a]
    by (cases "is_null_terminated s") (simp_all add: stringaa_fill_def Let_def)
qed

section \<open>Contracts of copy and append\<close>

text \<open>What happens to a block that the call allocated itself is no concern of its caller.\<close>

lemma other_blocks_fresh:
  assumes "other_blocks m m1 x" and "other_blocks m1 m2 (Some (nalloc m))"
  shows "other_blocks m m2 x"
  using assms by (auto simp: other_blocks_def)

lemma copy_chars_size_ok:
  assumes ok: "mem_ok m" "\<not> oom m (nalloc m)" "growable m s"
    and src: "load_n m p n = Some cs" "p \<noteq> Null" "block_of p \<noteq> block_of (buf s)"
  shows "returns (stringaa_copy_chars_size m s p n) (\<lambda>(ok, s', m'). ok \<and> owned m' s'
    \<and> chars m' s' = cs \<and> write_pos s' = n \<and> read_pos s' = 0 \<and> is_init s'
    \<and> other_blocks m m' (block_of (buf s)))"
proof (cases "buf_size s < n + 1")
  case True
  then obtain s1 m1 where c: "stringaa_malloc m s (n + 1) = Some (True, s1, m1)" "owned m1 s1"
      "buf_size s1 = n + 1" "buf s1 = Ptr (nalloc m) 0" "other_blocks m m1 (block_of (buf s))"
    using stringaa_malloc_ok [OF ok True] by (auto simp: returns_iff)
  have ld: "load_n m1 p n = Some cs"
    using other_blocks_load_n [OF c(5) ok(1) src(1)] src(3) by simp
  have mo: "mem_ok m1" using c(5) by (simp add: other_blocks_def)
  have "n = 0 \<or> block_of p \<noteq> block_of (buf s1)"
    using load_n_block [OF src(1)] mem_ok_lt [OF ok(1)] c(4) by fastforce
  then obtain s2 m2 where "stringaa_fill m1 s1 0 p n = Some (True, s2, m2)" "owned m2 s2"
      "chars m2 s2 = cs" "write_pos s2 = n" "read_pos s2 = 0" "is_init s2"
      "other_blocks m1 m2 (Some (nalloc m))"
    using fill_ok [OF mo c(2) le0 _ ld] c(3,4) by (auto simp: returns_iff)
  then show ?thesis
    using c(1) True src(2) other_blocks_fresh [OF c(5)]
    by (simp add: stringaa_copy_chars_size_def)
next
  case False
  then have ow: "owned m s" using ok(3) by (auto simp: growable_def blank_def)
  then have "stringaa_copy_chars_size m s p n = stringaa_fill m s 0 p n"
    using False src(2) by (auto simp: stringaa_copy_chars_size_def stringaa_malloc_def owned_def)
  with fill_ok [OF ok(1) ow le0 _ src(1)] False src(3) show ?thesis
    by (auto simp: returns_iff)
qed

lemma add_chars_size_ok:
  assumes ok: "mem_ok m" "\<not> oom m (nalloc m)" "growable m s"
    and src: "load_n m p n = Some cs" "p \<noteq> Null" "block_of p \<noteq> block_of (buf s)"
  shows "returns (stringaa_add_chars_size m s p n) (\<lambda>(ok, s', m'). ok \<and> growable m' s'
    \<and> chars m' s' = chars m s @ cs \<and> (n > 0 \<longrightarrow> owned m' s' \<and> is_init s' \<and> read_pos s' = 0)
    \<and> other_blocks m m' (block_of (buf s))
    \<and> (buf s' = buf s \<or> block_of (buf s') = Some (nalloc m) \<and> nalloc m < nalloc m'))"
proof (cases "n = 0")
  case True
  with src(1) ok show ?thesis
    by (simp add: stringaa_add_chars_size_def load_n_def other_blocks_def)
next
  case n: False
  show ?thesis
  proof (cases "\<not> is_alloc s \<or> buf_size s \<le> write_pos s + n + 1")
    case True
    have sz: "buf_size s \<le> write_pos s + n + 1" "write_pos s < write_pos s + n + 1"
      using True ok(3) by (auto simp: growable_def owned_def blank_def)
    obtain s1 m1 where c: "stringaa_realloc m s (write_pos s + n + 1) = Some (True, s1, m1)"
        "owned m1 s1" "write_pos s + n + 1 \<le> buf_size s1" "chars m1 s1 = chars m s"
        "write_pos s1 = write_pos s" "buf s1 = Ptr (nalloc m) 0"
        "other_blocks m m1 (block_of (buf s))"
      using stringaa_realloc_ok [OF ok sz] by (auto simp: returns_iff)
    have ld: "load_n m1 p n = Some cs"
      using other_blocks_load_n [OF c(7) ok(1) src(1)] src(3) by simp
    have mo: "mem_ok m1" using c(7) by (simp add: other_blocks_def)
    have "n = 0 \<or> block_of p \<noteq> block_of (buf s1)"
      using load_n_block [OF src(1)] mem_ok_lt [OF ok(1)] c(6) by fastforce
    then obtain s2 m2 where "stringaa_fill m1 s1 (write_pos s) p n = Some (True, s2, m2)"
        "owned m2 s2" "chars m2 s2 = chars m s @ cs" "read_pos s2 = 0" "is_init s2"
        "buf s2 = buf s1" "other_blocks m1 m2 (Some (nalloc m))"
      using fill_ok [OF mo c(2) _ _ ld, of "write_pos s"] c(3,4,5,6) by (auto simp: returns_iff)
    moreover have "nalloc m < nalloc m1"
      using c(2,6) mem_ok_lt [OF mo] by (auto simp: owned_def)
    ultimately show ?thesis
      using c(1,5,6) True src(2) n other_blocks_fresh [OF c(7)]
      by (auto simp: stringaa_add_chars_size_def growable_def other_blocks_def)
  next
    case False
    then have ow: "owned m s" using ok(3) by (auto simp: growable_def blank_def)
    have "stringaa_add_chars_size m s p n = stringaa_fill m s (write_pos s) p n"
      using False src(2) n by (simp add: stringaa_add_chars_size_def)
    with fill_ok [OF ok(1) ow order_refl _ src(1)] False src(3) show ?thesis
      by (auto simp: returns_iff growable_def)
  qed
qed

section \<open>Byte sinks\<close>

text \<open>
  The interface a message is built through: \<open>put\<close> appends the bytes that a source holds, and
  keeps the sources.  A sequence of calls then appends the concatenation.
\<close>

fun put_all :: "('s \<Rightarrow> 'b \<Rightarrow> 's option) \<Rightarrow> 's \<Rightarrow> 'b list \<Rightarrow> 's option" where
  "put_all put s [] = Some s"
| "put_all put s (b # bs) = do { s \<leftarrow> put s b; put_all put s bs }"

locale byte_sink =
  fixes inv :: "'s \<Rightarrow> bool"
    and data :: "'s \<Rightarrow> char list"
    and src :: "'s \<Rightarrow> 'b \<Rightarrow> char list option"
    and put :: "'s \<Rightarrow> 'b \<Rightarrow> 's option"
  assumes put_ok: "inv s \<Longrightarrow> src s b = Some cs \<Longrightarrow>
      returns (put s b) (\<lambda>s'. inv s' \<and> data s' = data s @ cs
        \<and> (\<forall>c ds. src s c = Some ds \<longrightarrow> src s' c = Some ds))"
begin

lemma put_all_ok:
  "inv s \<Longrightarrow> list_all2 (\<lambda>b cs. src s b = Some cs) bs css \<Longrightarrow>
   returns (put_all put s bs) (\<lambda>s'. inv s' \<and> data s' = data s @ concat css
     \<and> (\<forall>c ds. src s c = Some ds \<longrightarrow> src s' c = Some ds))"
proof (induction bs arbitrary: s css)
  case Nil
  then show ?case by simp
next
  case (Cons b bs)
  then obtain cs css' where css: "css = cs # css'" "src s b = Some cs"
      "list_all2 (\<lambda>b cs. src s b = Some cs) bs css'" by (auto simp: list_all2_Cons1)
  obtain s' where s': "put s b = Some s'" "inv s'" "data s' = data s @ cs"
      "\<forall>c ds. src s c = Some ds \<longrightarrow> src s' c = Some ds"
    using put_ok [OF Cons(2) css(2)] by (auto simp: returns_iff)
  have "list_all2 (\<lambda>b cs. src s' b = Some cs) bs css'"
    using css(3) s'(4) by (auto elim: list_all2_mono)
  from Cons(1) [OF s'(2) this] s' css(1) show ?case
    by (auto simp: returns_iff)
qed

lemma put_all_total:
  "inv s \<Longrightarrow> (\<And>b. b \<in> set bs \<Longrightarrow> src s b \<noteq> None) \<Longrightarrow> \<exists>s'. put_all put s bs = Some s'"
  using put_all_ok [of s bs "map (the \<circ> src s) bs"]
  by (auto simp: returns_iff list_all2_map2 list.rel_refl_strong)

end

text \<open>The library as a sink: a growable string, sources in other blocks, no failing \<open>malloc\<close>.\<close>

definition sink_inv :: "stringaa \<times> mem \<Rightarrow> bool" where
  "sink_inv x \<longleftrightarrow> (case x of (s, m) \<Rightarrow> mem_ok m \<and> (\<forall>i. \<not> oom m i) \<and> growable m s)"

definition sink_data :: "stringaa \<times> mem \<Rightarrow> char list" where
  "sink_data x = (case x of (s, m) \<Rightarrow> chars m s)"

definition sink_src :: "stringaa \<times> mem \<Rightarrow> cptr \<times> nat \<Rightarrow> char list option" where
  "sink_src x b = (case x of (s, m) \<Rightarrow> case b of
       (Null, n) \<Rightarrow> None
     | (Ptr a off, n) \<Rightarrow> if a < nalloc m \<and> Some a \<noteq> block_of (buf s) then load_n m (Ptr a off) n else None)"

definition sink_put :: "stringaa \<times> mem \<Rightarrow> cptr \<times> nat \<Rightarrow> (stringaa \<times> mem) option" where
  "sink_put x b = (case x of (s, m) \<Rightarrow> case b of (p, n) \<Rightarrow> do {
     (_, s, m) \<leftarrow> stringaa_add_chars_size m s p n;
     Some (s, m) })"

interpretation sink: byte_sink sink_inv sink_data sink_src sink_put
proof (unfold_locales, goal_cases)
  case (1 x b cs)
  obtain s m where x: "x = (s, m)" by fastforce
  from 1(2) obtain a off n where b: "b = (Ptr a off, n)" "a < nalloc m" "Some a \<noteq> block_of (buf s)"
      "load_n m (Ptr a off) n = Some cs"
    unfolding sink_src_def x by (auto split: prod.splits cptr.splits if_splits)
  from 1(1) have m: "mem_ok m" "\<not> oom m (nalloc m)" "growable m s" "\<forall>i. \<not> oom m i"
    by (auto simp: sink_inv_def x)
  obtain s' m' where r: "stringaa_add_chars_size m s (Ptr a off) n = Some (True, s', m')"
      "growable m' s'" "chars m' s' = chars m s @ cs" "other_blocks m m' (block_of (buf s))"
      "buf s' = buf s \<or> block_of (buf s') = Some (nalloc m) \<and> nalloc m < nalloc m'"
    using add_chars_size_ok [OF m(1-3) b(4)] b(3) by (auto simp: returns_iff)
  have "sink_inv (s', m')"
    using r(2,4) m(4) by (simp add: sink_inv_def other_blocks_def)
  moreover have "sink_src (s', m') c = Some ds" if c: "sink_src (s, m) c = Some ds" for c ds
  proof -
    from c obtain a off n where c': "c = (Ptr a off, n)" "a < nalloc m" "Some a \<noteq> block_of (buf s)"
        "load_n m (Ptr a off) n = Some ds"
      unfolding sink_src_def by (auto split: prod.splits cptr.splits if_splits)
    have "load_n m' (Ptr a off) n = Some ds"
      using other_blocks_load_n [OF r(4) m(1) c'(4)] c'(3) by simp
    with c' r(4,5) show ?thesis by (auto simp: sink_src_def other_blocks_def)
  qed
  ultimately show ?case
    using r(1,3) b(1) by (simp add: x sink_put_def sink_data_def)
qed

section \<open>Properties of the buffer operations\<close>

lemma blank_zero [simp]: "growable m stringaa_zero"
  by (simp add: growable_def blank_def stringaa_zero_def)

text \<open>C17: appending a sequence of byte ranges with \<open>stringaa_add_chars_size\<close> to a string that owns its block, or is blank,
  none of the ranges in that block, succeeds when \<open>malloc\<close> does, leaves in the string its old bytes followed by
  the ranges in order, and leaves every range readable, with the same bytes and outside the block of the string.\<close>

theorem stringaa_add_chars_size_appends:
  assumes "mem_ok m" and "\<forall>i. \<not> oom m i" and "growable m s"
    and "list_all2 (\<lambda>b cs. sink_src (s, m) b = Some cs) bs css"
  shows "returns (put_all sink_put (s, m) bs) (\<lambda>(s', m'). growable m' s'
    \<and> chars m' s' = chars m s @ concat css
    \<and> list_all2 (\<lambda>b cs. sink_src (s', m') b = Some cs) bs css)"
proof -
  have "sink_inv (s, m)" using assms(1-3) by (simp add: sink_inv_def)
  from sink.put_all_ok [OF this assms(4)] show ?thesis
    using list_all2_mono [OF assms(4)] by (auto simp: returns_iff sink_inv_def sink_data_def)
qed

lemma stringaa_add_chars_size_appends_witness:
  "returns (put_all sink_put (stringaa_zero, memory_of [''ab'', ''cd'']) [(Ptr 0 0, 2), (Ptr 1 0, 1)])
     (\<lambda>(s', m'). growable m' s' \<and> chars m' s' = ''abc'' \<and> sink_src (s', m') (Ptr 0 0, 2) = Some ''ab''
       \<and> sink_src (s', m') (Ptr 1 0, 1) = Some ''c'')"
proof -
  have "chars (memory_of [''ab'', ''cd'']) stringaa_zero = []" by (simp add: chars_def load_n_def)
  with stringaa_add_chars_size_appends [of "memory_of [''ab'', ''cd'']" stringaa_zero
      "[(Ptr 0 0, 2), (Ptr 1 0, 1)]" "[''ab'', ''c'']"]
  show ?thesis by (simp add: sink_src_def load_n_def)
qed

text \<open>C30: \<open>stringaa_copy_chars_size\<close> into a string that owns its block, or is blank, from a range of bytes that can be read
  and lies in another block, makes it own a block that holds exactly the copied bytes, and leaves all other
  blocks as they are, when \<open>malloc\<close> works.  (The result of \<open>malloc\<close> is not tested:
  \<open>stringaa_copy_out_of_memory\<close>.)\<close>

theorem stringaa_copy_chars_size_copies:
  assumes "mem_ok m" and "\<not> oom m (nalloc m)" and "growable m s"
    and "load_n m p n = Some cs" and "p \<noteq> Null" and "block_of p \<noteq> block_of (buf s)"
  shows "returns (stringaa_copy_chars_size m s p n) (\<lambda>(ok, s', m'). ok \<and> owned m' s'
    \<and> chars m' s' = cs \<and> read_pos s' = 0 \<and> is_init s' \<and> other_blocks m m' (block_of (buf s)))"
  using copy_chars_size_ok [OF assms] by (auto simp: returns_iff)

lemma stringaa_copy_chars_size_copies_witness:
  "returns (stringaa_copy_chars_size (memory_of [''abc'']) stringaa_zero (Ptr 0 0) 3)
     (\<lambda>(ok, s', m'). ok \<and> chars m' s' = ''abc'')"
  using stringaa_copy_chars_size_copies [of "memory_of [''abc'']" stringaa_zero "Ptr 0 0" 3 "''abc''"]
  by (auto simp: returns_iff load_n_def)

text \<open>\<open>stringaa_copy_chars_size\<close> does not test the result of \<open>stringaa_malloc\<close>: when \<open>malloc\<close>
  fails, a copy of at least one byte into a zeroed string writes through a null pointer.\<close>

theorem stringaa_copy_out_of_memory:
  assumes "oom m (nalloc m)" and "n > 0" and "p \<noteq> Null"
  shows "stringaa_copy_chars_size m stringaa_zero p n = None"
proof -
  let ?m = "m\<lparr>nalloc := Suc (nalloc m)\<rparr>"
  have "stringaa_malloc m stringaa_zero (n + 1) = Some (False, stringaa_zero, ?m)"
    using assms(1) by (simp add: stringaa_malloc_def c_malloc_def)
  moreover have "c_memcpy ?m Null p n = None"
  proof (cases "load_n ?m p n")
    case (Some cs)
    then have "length cs = n" by (rule load_n_length)
    with Some assms(2) show ?thesis by (cases cs) (auto simp: c_memcpy_def c_memmove_def)
  qed (simp add: c_memcpy_def c_memmove_def)
  ultimately show ?thesis
    using assms(3) by (simp add: stringaa_copy_chars_size_def stringaa_fill_def)
qed

lemma stringaa_copy_out_of_memory_witness:
  "stringaa_copy_chars_size ((memory_of [''abc''])\<lparr>oom := \<lambda>_. True\<rparr>) stringaa_zero (Ptr 0 0) 3 = None"
  by (rule stringaa_copy_out_of_memory) simp_all

text \<open>\<open>stringaa_realloc\<close> of a full view that is not null-terminated moves the write position
  back by one: appending to it with \<open>stringaa_add_chars_size\<close> loses the last byte of the view.\<close>

theorem stringaa_add_to_view_drops_last:
  assumes "mem_ok m" and "\<not> oom m (nalloc m)" and "n > 0" and "p \<noteq> Null"
    and "load_n m p n = Some cs" and "load_n m b (Suc k) = Some ds"
    and "s = stringaa_zero\<lparr>buf := b, buf_size := Suc k, write_pos := Suc k, is_init := True\<rparr>"
  shows "returns (stringaa_add_chars_size m s p n) (\<lambda>(ok, s', m'). ok \<and> chars m' s' = butlast ds @ cs)"
proof -
  let ?a = "nalloc m"
  let ?j = "map (junk m ?a) [0..<Suc k + n + 2]"
  let ?m1 = "m\<lparr>blocks := (blocks m)(?a \<mapsto> ?j), nalloc := Suc ?a\<rparr>"
  have nb: "blocks m ?a = None" using assms(1) by (simp add: mem_ok_def)
  obtain c off bs where b: "b = Ptr c off" "blocks m c = Some bs" "off + Suc k \<le> length bs"
      "ds = take (Suc k) (drop off bs)" using load_n_block [OF assms(6)] by auto
  obtain d off' bs' where p: "p = Ptr d off'" "blocks m d = Some bs'" "off' + n \<le> length bs'"
      "cs = take n (drop off' bs')" using load_n_block [OF assms(5,3)] by auto
  have ne: "c \<noteq> ?a" "d \<noteq> ?a" using nb b(2) p(2) by auto
  have len: "length cs = n" "length (butlast ds) = k" using b p by simp_all
  have ds: "butlast ds = take k (drop off bs)" using b by (simp add: butlast_take)
  have ld: "load_n ?m1 b k = Some (butlast ds)" using b ne ds by (simp add: load_n_in)
  let ?b2 = "butlast ds @ drop k ?j"
  let ?m2 = "m\<lparr>blocks := (blocks m)(?a \<mapsto> ?b2), nalloc := Suc ?a\<rparr>"
  have cp: "c_memcpy ?m1 (Ptr ?a 0) b k = Some ?m2"
    using ld b ne len by (simp add: c_memcpy_def c_memmove_def store_n_in del: upt_Suc)
  let ?s = "s\<lparr>buf := Ptr ?a 0, buf_size := Suc k + n + 2, read_pos := 0, write_pos := k, is_alloc := True\<rparr>"
  have re: "stringaa_realloc m s (Suc k + n + 1) = Some (True, ?s, ?m2)"
    using cp assms(2,7) by (simp add: stringaa_realloc_def c_malloc_def Let_def del: upt_Suc)
  have ld2: "load_n ?m2 p n = Some cs" using p ne by (simp add: load_n_in)
  define s2 where "s2 = ?s"
  define m2 where "m2 = ?m2"
  have add: "stringaa_add_chars_size m s p n = stringaa_fill m2 s2 k p n"
    using assms(3,4,7) re by (simp add: stringaa_add_chars_size_def s2_def m2_def)
  have ok: "mem_ok m2" "owned m2 s2" "k \<le> write_pos s2" "k + n < buf_size s2"
      "load_n m2 p n = Some cs" "n = 0 \<or> block_of p \<noteq> block_of (buf s2)"
    using assms(1,7) len ld2 p(1) ne by (simp_all add: owned_def mem_ok_def s2_def m2_def)
  have "chars m2 s2 = butlast ds"
    using chars_at [of s2 ?a m2 ?b2] len by (simp add: s2_def m2_def del: upt_Suc)
  then show ?thesis
    unfolding add using fill_ok [OF ok] len by (auto simp: returns_iff)
qed

lemma stringaa_add_to_view_drops_last_witness:
  "returns (stringaa_add_chars_size (memory_of [''abc'', ''xy''])
      (stringaa_zero\<lparr>buf := Ptr 0 0, buf_size := Suc 2, write_pos := Suc 2, is_init := True\<rparr>) (Ptr 1 0) 2)
    (\<lambda>(ok, s', m'). ok \<and> chars m' s' = ''abxy'')"
  using stringaa_add_to_view_drops_last [of "memory_of [''abc'', ''xy'']" 2 "Ptr 1 0" "''xy''" "Ptr 0 0" 2 "''abc''"]
  by (simp add: load_n_def)

text \<open>\<open>stringaa_set_substring\<close> with valid positions makes the first string, which owns no block, a
  view of the bytes of the second from the one position up to the other; no memory changes.\<close>

theorem stringaa_set_substring_view:
  assumes "readable m s2" and "p < q" and "q \<le> write_pos s2" and "\<not> is_alloc s1"
  shows "returns (stringaa_set_substring m s1 s2 (int p) (int q)) (\<lambda>(ok, s1', m').
    ok \<and> m' = m \<and> readable m s1' \<and> read_pos s1' = 0 \<and> chars m s1' = take (q - p) (drop p (chars m s2)))"
proof -
  have "load_n m (padd (buf s2) p) (q - p) = Some (take (q - p) (drop p (chars m s2)))"
    using load_n_readable [OF assms(1), of p "q - p"] assms(2,3) by simp
  then show ?thesis
    using assms by (simp add: stringaa_set_substring_def Let_def set_flags_def end_of_def
        readable_def chars_def STRINGAA_READ_POS_def STRINGAA_WRITE_POS_def nat_diff_distrib')
qed

lemma stringaa_set_substring_view_witness:
  "returns (stringaa_set_substring (memory_of [''abcdef'']) stringaa_zero (string_at 0 6) (int 2) (int 5))
    (\<lambda>(ok, s1', m'). ok \<and> chars m' s1' = ''cde'')"
  using stringaa_set_substring_view [of "memory_of [''abcdef'']" "string_at 0 6" 2 5 stringaa_zero]
  by (auto simp: returns_iff)

text \<open>\<open>stringaa_fprint\<close> writes one byte more than the string has when the string is not
  null-terminated: for a view that ends with its block the read is out of bounds.\<close>

theorem stringaa_fprint_overrun:
  assumes "is_init s" and "\<not> is_null_terminated s" and "region m (buf s) = Some bs"
    and "write_pos s = length bs"
  shows "stringaa_fprint m s = None"
  using assms by (simp add: stringaa_fprint_def load_n_def)

lemma stringaa_fprint_overrun_witness: "stringaa_fprint (memory_of [''abc'']) (string_at 0 3) = None"
  by (rule stringaa_fprint_overrun [of _ _ "''abc''"]) simp_all

end
