(* ===== verification/Uri_Escape.thy ===== *)
theory Uri_Escape
  imports Stringaa_Buffer Uri_Chars
begin

text \<open>
  Escaping and unescaping, \<open>src/url/uriaa_utils.h\<close>.  Both write their output with
  \<open>stringaa_set_char\<close> and \<open>stringaa_next_write_pos\<close> into a buffer of a fixed size; what does not
  fit is dropped.  The loops are shown equal to functions on lists of characters, cut to the
  size of the buffer.  The traces that the code prints are left out, but not what they read: \<open>uriaa_escape\<close>
  prints the byte at the write position of its input, behind its last character.
\<close>

section \<open>One character\<close>

text \<open>\<open>ca[1]\<close> and \<open>ca[0]\<close>: the digits of the high and of the low half of the byte.\<close>

definition hex_digit :: "nat \<Rightarrow> char" where
  "hex_digit d = (let a = d mod 16 + 0x30 in char_of (if a > 0x39 then a + 0x7 else a))"

definition uriaa_escape_char :: "char \<Rightarrow> char \<times> char" where
  "uriaa_escape_char c = (hex_digit (of_char c div 16), hex_digit (of_char c))"

text \<open>One round of the loop of \<open>uriaa_unescape_char\<close>: the value of a digit.\<close>

definition hex_value :: "char \<Rightarrow> nat option" where
  "hex_value c = (let
     c = (if in_range (CHR ''a'') (CHR ''f'') c then char_of (of_char c - 0x20 :: nat) else c);
     c = (if in_range (CHR ''A'') (CHR ''F'') c then char_of (of_char c - 0x7 :: nat) else c)
     in if in_range (CHR 0x30) (CHR 0x3f) c then Some (of_char c mod 16) else None)"

definition uriaa_unescape_char :: "char \<Rightarrow> char \<Rightarrow> char option" where
  "uriaa_unescape_char a1 a0 = do {
     low \<leftarrow> hex_value a0;
     high \<leftarrow> hex_value a1;
     Some (char_of (low + high * 16)) }"

section \<open>Escaping\<close>

text \<open>\<open>stringaa_set_char(s, c); stringaa_next_write_pos(s);\<close>\<close>

definition stringaa_put :: "mem \<Rightarrow> stringaa \<Rightarrow> char \<Rightarrow> (stringaa \<times> mem) option" where
  "stringaa_put m s c = do {
     (_, s, m) \<leftarrow> stringaa_set_char m s c;
     Some (snd (stringaa_next_write_pos s), m) }"

fun put_chars :: "mem \<Rightarrow> stringaa \<Rightarrow> char list \<Rightarrow> (stringaa \<times> mem) option" where
  "put_chars m s [] = Some (s, m)"
| "put_chars m s (c # cs) = do { (s, m) \<leftarrow> stringaa_put m s c; put_chars m s cs }"

text \<open>The characters that are escaped; \<open>r\<close> is the flag \<open>URIAA_ESCAPE_RESERVED\<close>.\<close>

definition must_escape :: "bool \<Rightarrow> char \<Rightarrow> bool" where
  "must_escape r c \<longleftrightarrow> CONTROL_CHARS c \<or> SPACE_CHARS c \<or> DELIMS_CHARS c \<or> UNWISE_CHARS c
     \<or> r \<and> RESERVED_CHARS c"

definition escape_one :: "bool \<Rightarrow> char \<Rightarrow> char list" where
  "escape_one r c = (if must_escape r c
     then (case uriaa_escape_char c of (a1, a0) \<Rightarrow> [CHR ''%'', a1, a0]) else [c])"

function escape_loop :: "bool \<Rightarrow> mem \<Rightarrow> stringaa \<Rightarrow> stringaa \<Rightarrow>
    (bool \<times> stringaa \<times> stringaa \<times> mem) option" where
  "escape_loop r m e u = do {
     c \<leftarrow> stringaa_get_char m u;
     (e, m) \<leftarrow> put_chars m e (escape_one r c);
     case stringaa_next_read_pos u of (nx, u) \<Rightarrow>
       if nx then do {
         _ \<leftarrow> load m (buf u) (read_pos u);
         _ \<leftarrow> load m (buf u) (write_pos u);
         escape_loop r m e u }
       else Some (True, e, u, m) }"
  by pat_completeness auto
termination
  by (relation "measure (\<lambda>(r, m, e, u). write_pos u - read_pos u)")
    (auto dest!: next_measure [OF sym])

declare escape_loop.simps [simp del]

definition uriaa_escape :: "mem \<Rightarrow> stringaa \<Rightarrow> stringaa \<Rightarrow> bool \<Rightarrow>
    (bool \<times> stringaa \<times> stringaa \<times> mem) option" where
  "uriaa_escape m e u r = do {
     (_, e, m) \<leftarrow> stringaa_malloc m e (write_pos u * 3);
     let e = snd (stringaa_begin_write_pos e);
     let u = snd (stringaa_begin_read_pos u);
     escape_loop r m (e\<lparr>is_init := True\<rparr>) u }"

section \<open>Unescaping\<close>

text \<open>
  One round of the loop: what is written for a complete escape; \<open>unr\<close> is the flag
  \<open>URIAA_ESCAPE_UNRESERVED\<close>.  Without the flag the code writes \<open>ca[0]\<close>, the digit, and not
  \<open>ca[2]\<close>, the character.
\<close>

definition unescape_one :: "bool \<Rightarrow> char \<Rightarrow> char \<Rightarrow> char \<Rightarrow> char list" where
  "unescape_one unr a1 a0 c =
     (if unr then (if UNRESERVED_CHARS c then [c] else [CHR ''%'', a1, a0]) else [a0])"

function unescape_loop :: "bool \<Rightarrow> mem \<Rightarrow> stringaa \<Rightarrow> stringaa \<Rightarrow> bool \<Rightarrow>
    (bool \<times> stringaa \<times> stringaa \<times> mem) option" where
  "unescape_loop unr m u e is_unescape = do {
     c \<leftarrow> stringaa_get_char m e;
     if c = CHR ''%''
     then (case stringaa_next_read_pos e of (n1, e) \<Rightarrow>
       if \<not> n1 then Some (is_unescape, u, e, m)
       else do {
         a1 \<leftarrow> stringaa_get_char m e;
         case stringaa_next_read_pos e of (n2, e) \<Rightarrow>
         if \<not> n2 then Some (is_unescape, u, e, m)
         else do {
           a0 \<leftarrow> stringaa_get_char m e;
           case uriaa_unescape_char a1 a0 of
             None \<Rightarrow> Some (False, u, e, m)
           | Some c \<Rightarrow> do {
               (u, m) \<leftarrow> put_chars m u (unescape_one unr a1 a0 c);
               case stringaa_next_read_pos e of (nx, e) \<Rightarrow>
                 if nx then unescape_loop unr m u e True else Some (True, u, e, m) } } })
     else do {
       (u, m) \<leftarrow> put_chars m u [c];
       case stringaa_next_read_pos e of (nx, e) \<Rightarrow>
         if nx then unescape_loop unr m u e is_unescape else Some (True, u, e, m) } }"
  by pat_completeness auto
termination
  by (relation "measure (\<lambda>(unr, m, u, e, is_unescape). write_pos e - read_pos e)")
    (auto dest!: next_measure [OF sym])

declare unescape_loop.simps [simp del]

definition uriaa_unescape :: "mem \<Rightarrow> stringaa \<Rightarrow> stringaa \<Rightarrow> bool \<Rightarrow>
    (bool \<times> stringaa \<times> stringaa \<times> mem) option" where
  "uriaa_unescape m u e unr = do {
     (_, u, m) \<leftarrow> stringaa_malloc m u (write_pos e);
     let u = snd (stringaa_begin_write_pos u);
     let e = snd (stringaa_begin_read_pos e);
     unescape_loop unr m (u\<lparr>is_init := True\<rparr>) e False }"

section \<open>The output buffer\<close>

lemma other_blocks_chars:
  assumes "other_blocks m m' x" and "mem_ok m" and "readable m u" and "block_of (buf u) \<noteq> x"
  shows "readable m' u" "chars m' u = chars m u"
proof -
  obtain cs where cs: "load_n m (buf u) (write_pos u) = Some cs"
    using assms(3) by (auto simp: readable_def)
  then have "load_n m' (buf u) (write_pos u) = Some cs"
    using other_blocks_load_n [OF assms(1,2) cs] assms(4) by simp
  with cs show "readable m' u" "chars m' u = chars m u" by (simp_all add: readable_def chars_def)
qed

text \<open>An open output: it owns its block, is null-terminated and initialised.\<close>

definition open_out :: "mem \<Rightarrow> stringaa \<Rightarrow> bool" where
  "open_out m s \<longleftrightarrow> mem_ok m \<and> owned m s \<and> is_null_terminated s \<and> is_init s"

definition written :: "mem \<Rightarrow> stringaa \<Rightarrow> mem \<Rightarrow> stringaa \<Rightarrow> char list \<Rightarrow> bool" where
  "written m s m' s' cs \<longleftrightarrow> open_out m' s' \<and> buf s' = buf s \<and> buf_size s' = buf_size s
     \<and> chars m' s' = take (buf_size s - 1) (chars m s @ cs) \<and> other_blocks m m' (block_of (buf s))"

lemma open_out_full: "open_out m s \<Longrightarrow> length (chars m s) \<le> buf_size s - 1"
  by (auto simp: open_out_def owned_def)

lemma written_refl: "open_out m s \<Longrightarrow> written m s m s []"
  using open_out_full [of m s] by (simp add: written_def other_blocks_def open_out_def)

lemma take_take_append: "take k (take k xs @ ys) = take k (xs @ ys)"
  by (cases "k \<le> length xs") (auto simp: min_def)

lemma written_trans:
  "written m s m1 s1 cs \<Longrightarrow> written m1 s1 m2 s2 ds \<Longrightarrow> written m s m2 s2 (cs @ ds)"
  unfolding written_def
  by (auto intro: other_blocks_trans simp del: take_append) (simp only: take_take_append append_assoc)

lemma stringaa_put_ok:
  assumes "open_out m s"
  shows "returns (stringaa_put m s c) (\<lambda>(s', m'). written m s m' s' [c])"
proof -
  from assms obtain a bs where s: "buf s = Ptr a 0" "blocks m a = Some bs" "length bs = buf_size s"
      "write_pos s < buf_size s" "is_alloc s" "is_null_terminated s" "mem_ok m" "is_init s"
    by (auto simp: open_out_def owned_def)
  have ch: "chars m s = take (write_pos s) bs" using chars_at [OF s(1,2)] s(3,4) by simp
  show ?thesis
  proof (cases "write_pos s + 1 < buf_size s")
    case False
    then have w: "write_pos s = buf_size s - 1" using s(4) by simp
    have same: "s\<lparr>write_pos := buf_size s - 1\<rparr> = s" unfolding w [symmetric] by (cases s) simp
    have "stringaa_put m s c = Some (s\<lparr>write_pos := buf_size s - 1\<rparr>, m)"
      using s False by (auto simp: stringaa_put_def stringaa_set_char_def
          stringaa_next_write_pos_def end_of_def)
    then have "stringaa_put m s c = Some (s, m)" unfolding same .
    moreover have "take (buf_size s - 1) (chars m s @ [c]) = chars m s" using w by simp
    ultimately show ?thesis
      using assms s(7) by (auto simp: written_def other_blocks_def)
  next
    case True
    let ?m = "m\<lparr>blocks := (blocks m)(a \<mapsto> bs[write_pos s := c])\<rparr>"
    let ?s = "s\<lparr>write_pos := Suc (write_pos s)\<rparr>"
    have "store m (buf s) (write_pos s) c = Some ?m" using s by (simp add: store_in)
    then have res: "stringaa_put m s c = Some (?s, ?m)"
      using True s by (auto simp: stringaa_put_def stringaa_set_char_def
          stringaa_next_write_pos_def end_of_def)
    have "chars ?m ?s = take (Suc (write_pos s)) (bs[write_pos s := c])"
      using chars_at [of ?s a ?m "bs[write_pos s := c]"] s True by simp
    also have "\<dots> = chars m s @ [c]" using ch s(3,4) by (simp add: take_Suc_conv_app_nth)
    finally have "chars ?m ?s = take (buf_size s - 1) (chars m s @ [c])" using True by simp
    moreover have "open_out ?m ?s"
      using s True by (simp add: open_out_def owned_def mem_ok_def)
        (metis mem_ok_def mem_ok_lt not_le)
    ultimately show ?thesis
      unfolding res using other_blocks_upd [OF s(7) mem_ok_lt [OF s(7,2)]] s(1)
      by (simp add: written_def)
  qed
qed

lemma put_chars_ok:
  "open_out m s \<Longrightarrow> returns (put_chars m s cs) (\<lambda>(s', m'). written m s m' s' cs)"
proof (induction cs arbitrary: m s)
  case Nil
  then show ?case by (simp add: written_refl)
next
  case (Cons c cs)
  obtain s1 m1 where 1: "stringaa_put m s c = Some (s1, m1)" "written m s m1 s1 [c]"
    using stringaa_put_ok [OF Cons(2), of c] by (auto simp: returns_iff)
  then have "open_out m1 s1" by (simp add: written_def)
  from Cons(1) [OF this] 1 written_trans [OF 1(2)] show ?case
    by (fastforce simp: returns_iff)
qed

section \<open>Escaping is a map over the characters\<close>

text \<open>The byte behind the last character can be read.  A string of one character does not need it.\<close>

definition byte_behind :: "mem \<Rightarrow> stringaa \<Rightarrow> bool" where
  "byte_behind m u \<longleftrightarrow> load m (buf u) (write_pos u) \<noteq> None"

lemma other_blocks_load:
  assumes "other_blocks m m' x" and "mem_ok m" and "readable m u" and "0 < write_pos u" and "block_of (buf u) \<noteq> x"
  shows "load m' (buf u) i = load m (buf u) i"
proof -
  obtain cs where "load_n m (buf u) (write_pos u) = Some cs" using assms(3) by (auto simp: readable_def)
  from load_n_block [OF this] assms(4) obtain a off bs where p: "buf u = Ptr a off" "blocks m a = Some bs" by auto
  have "a < nalloc m" "Some a \<noteq> x" using mem_ok_lt [OF assms(2) p(2)] assms(5) p(1) by simp_all
  then have "blocks m' a = blocks m a" using assms(1) unfolding other_blocks_def by simp
  with p show ?thesis by (simp add: load_def)
qed

lemma byte_behind_other:
  assumes "other_blocks m m' x" and "mem_ok m" and "readable m u" and "0 < write_pos u" and "block_of (buf u) \<noteq> x"
  shows "byte_behind m' u = byte_behind m u"
  using other_blocks_load [OF assms, of "write_pos u"] by (simp add: byte_behind_def)

lemma byte_behind_read_pos [simp]: "byte_behind m (u\<lparr>read_pos := q\<rparr>) = byte_behind m u"
  by (simp add: byte_behind_def)

lemma escape_loop_ok:
  assumes "open_out m e" and "readable m u" and "read_pos u < write_pos u"
    and "block_of (buf u) \<noteq> block_of (buf e)" and "byte_behind m u \<or> write_pos u \<le> Suc (read_pos u)"
  shows "returns (escape_loop r m e u) (\<lambda>(ok, e', u', m'). ok
    \<and> written m e m' e' (concat (map (escape_one r) (drop (read_pos u) (chars m u)))))"
  using assms
proof (induction "write_pos u - read_pos u" arbitrary: m e u rule: less_induct)
  case less
  let ?cs = "chars m u" and ?p = "read_pos u"
  let ?c = "?cs ! ?p"
  have get: "stringaa_get_char m u = Some ?c" using less(3,4) by simp
  obtain e1 m1 where 1: "put_chars m e (escape_one r ?c) = Some (e1, m1)"
      "written m e m1 e1 (escape_one r ?c)"
    using put_chars_ok [OF less(2)] by (fastforce simp: returns_iff)
  have e1: "open_out m1 e1" "buf e1 = buf e" "other_blocks m m1 (block_of (buf e))"
    using 1(2) by (auto simp: written_def)
  have mo: "mem_ok m" using less(2) by (simp add: open_out_def)
  note u1 = other_blocks_chars [OF e1(3) mo less(3,5)]
  have dr: "drop ?p ?cs = ?c # drop (Suc ?p) ?cs" using less(4) by (simp add: Cons_nth_drop_Suc)
  show ?case
  proof (cases "Suc ?p < write_pos u")
    case False
    with dr get 1 show ?thesis
      by (simp add: escape_loop.simps [of r m e u] stringaa_next_read_pos_def)
  next
    case True
    have bb: "byte_behind m1 u" using byte_behind_other [OF e1(3) mo less(3) _ less(5)] less(4,6) True by simp
    have "returns (escape_loop r m1 e1 (u\<lparr>read_pos := Suc ?p\<rparr>)) (\<lambda>(ok, e', u', m'). ok
        \<and> written m1 e1 m' e' (concat (map (escape_one r) (drop (Suc ?p) ?cs))))"
      using less(1) [of "u\<lparr>read_pos := Suc ?p\<rparr>" m1 e1] True e1 u1 less(5) bb by simp
    moreover obtain c1 c2 where "load m1 (buf u) (Suc ?p) = Some c1" "load m1 (buf u) (write_pos u) = Some c2"
      using load_readable [OF u1(1) True] bb by (auto simp: byte_behind_def)
    ultimately show ?thesis
      using True get 1 dr written_trans [OF 1(2)]
      by (fastforce simp: escape_loop.simps [of r m e u] stringaa_next_read_pos_def returns_iff)
  qed
qed

text \<open>Without that byte the first round ends in a fault, unless it is the last.\<close>

lemma escape_loop_fault:
  assumes "open_out m e" and "readable m u" and "Suc (read_pos u) < write_pos u"
    and "block_of (buf u) \<noteq> block_of (buf e)" and "\<not> byte_behind m u"
  shows "escape_loop r m e u = None"
proof -
  obtain c where c: "stringaa_get_char m u = Some c" using assms(2,3) by simp
  obtain e1 m1 where 1: "put_chars m e (escape_one r c) = Some (e1, m1)" "written m e m1 e1 (escape_one r c)"
    using put_chars_ok [OF assms(1)] by (fastforce simp: returns_iff)
  have "mem_ok m" using assms(1) by (simp add: open_out_def)
  with byte_behind_other [OF _ this assms(2) _ assms(4), of m1] 1(2) assms(3,5) have "load m1 (buf u) (write_pos u) = None"
    by (simp add: written_def byte_behind_def)
  with c 1(1) assms(3) show ?thesis
    by (simp add: escape_loop.simps [of r m e u] stringaa_next_read_pos_def)
qed

definition escape_list :: "bool \<Rightarrow> char list \<Rightarrow> char list" where
  "escape_list r cs = concat (map (escape_one r) cs)"

text \<open>The call up to its loop.\<close>

lemma uriaa_escape_to_loop:
  assumes "mem_ok m" "\<not> oom m (nalloc m)" "growable m e" "buf_size e < write_pos u * 3"
    and "readable m u" "block_of (buf u) \<noteq> block_of (buf e)"
  obtains e1 m1 where "uriaa_escape m e u r = escape_loop r m1 e1 (u\<lparr>read_pos := 0\<rparr>)" and "open_out m1 e1"
    and "chars m1 e1 = []" and "buf_size e1 = write_pos u * 3" and "oom m1 = oom m" and "block_of (buf u) \<noteq> block_of (buf e1)"
    and "readable m1 u" and "chars m1 u = chars m u" and "byte_behind m1 u = byte_behind m u"
proof -
  have w: "0 < write_pos u" using assms(4) by simp
  obtain e1 m1 where 1: "stringaa_malloc m e (write_pos u * 3) = Some (True, e1, m1)" "owned m1 e1"
      "write_pos e1 = 0" "buf_size e1 = write_pos u * 3" "is_null_terminated e1"
      "buf e1 = Ptr (nalloc m) 0" "other_blocks m m1 (block_of (buf e))"
    using stringaa_malloc_ok [OF assms(1-4)] by (auto simp: returns_iff)
  let ?e = "e1\<lparr>write_pos := 0, is_init := True\<rparr>"
  note u1 = other_blocks_chars [OF 1(7) assms(1,5,6)]
  have out: "open_out m1 ?e" "oom m1 = oom m" using 1 by (auto simp: open_out_def owned_def other_blocks_def)
  have "load_n m (buf u) (write_pos u) \<noteq> None" using assms(5) by (simp add: readable_def)
  then have b: "block_of (buf u) \<noteq> block_of (buf ?e)"
    using w load_n_block [of m "buf u" "write_pos u"] mem_ok_lt [OF assms(1)] 1(6) by fastforce
  have z: "chars m1 ?e = []" using length_chars [of m1 ?e] by (simp del: length_chars)
  have "uriaa_escape m e u r = escape_loop r m1 ?e (u\<lparr>read_pos := 0\<rparr>)"
    using 1(1) w by (simp add: uriaa_escape_def stringaa_begin_write_pos_def stringaa_begin_read_pos_def)
  from that [OF this out(1) z _ out(2) b u1 byte_behind_other [OF 1(7) assms(1,5) w assms(6)]] 1(4) show thesis by simp
qed

lemma uriaa_escape_ok:
  assumes "mem_ok m" "\<not> oom m (nalloc m)" "growable m e" "buf_size e < write_pos u * 3"
    and "readable m u" "block_of (buf u) \<noteq> block_of (buf e)" "byte_behind m u \<or> write_pos u = 1"
  shows "returns (uriaa_escape m e u r) (\<lambda>(ok, e', u', m'). ok \<and> open_out m' e' \<and> oom m' = oom m
    \<and> chars m' e' = take (write_pos u * 3 - 1) (escape_list r (chars m u)))"
proof -
  obtain e1 m1 where 1: "uriaa_escape m e u r = escape_loop r m1 e1 (u\<lparr>read_pos := 0\<rparr>)" "open_out m1 e1"
      "chars m1 e1 = []" "buf_size e1 = write_pos u * 3" "oom m1 = oom m" "block_of (buf u) \<noteq> block_of (buf e1)"
      "readable m1 u" "chars m1 u = chars m u" "byte_behind m1 u = byte_behind m u"
    using uriaa_escape_to_loop [OF assms(1-6)] .
  have "0 < write_pos u" using assms(4) by simp
  with escape_loop_ok [OF 1(2), of "u\<lparr>read_pos := 0\<rparr>" r] 1 assms(7)
  obtain e2 u2 m2 where "escape_loop r m1 e1 (u\<lparr>read_pos := 0\<rparr>) = Some (True, e2, u2, m2)"
      "written m1 e1 m2 e2 (concat (map (escape_one r) (chars m u)))"
    by (auto simp: returns_iff)
  with 1 show ?thesis by (simp add: written_def escape_list_def other_blocks_def)
qed

lemma escape_list_length: "length (escape_list r cs) \<le> 3 * length cs"
  by (induction cs) (auto simp: escape_list_def escape_one_def split: prod.splits)

text \<open>One character that needs no escape leaves room for the terminator.\<close>

lemma escape_list_room:
  assumes "c \<in> set cs" and "\<not> must_escape r c"
  shows "length (escape_list r cs) < 3 * length cs"
proof -
  obtain xs ys where "cs = xs @ c # ys" using split_list [OF assms(1)] by blast
  with assms(2) escape_list_length [of r xs] escape_list_length [of r ys] show ?thesis
    by (simp add: escape_list_def escape_one_def)
qed

section \<open>Unescaping follows the grammar of escapes\<close>

text \<open>
  The outcome of \<open>uriaa_unescape\<close> on the characters of its input: the returned flag and the
  characters written.  \<open>ok\<close> is the value of \<open>is_unescape\<close> so far.
\<close>

fun unescape_list :: "bool \<Rightarrow> bool \<Rightarrow> char list \<Rightarrow> bool \<times> char list" where
  "unescape_list unr ok [] = (ok, [])"
| "unescape_list unr ok (c # cs) = (if c = CHR ''%''
     then (case cs of a1 # a0 # cs' \<Rightarrow> (case uriaa_unescape_char a1 a0 of
           None \<Rightarrow> (False, [])
         | Some d \<Rightarrow> if cs' = [] then (True, unescape_one unr a1 a0 d)
             else apsnd ((@) (unescape_one unr a1 a0 d)) (unescape_list unr True cs'))
       | _ \<Rightarrow> (ok, []))
     else if cs = [] then (True, [c]) else apsnd ((@) [c]) (unescape_list unr ok cs))"

lemma drop_at: "p < length cs \<Longrightarrow> drop p cs = cs ! p # drop (Suc p) cs"
  by (simp add: Cons_nth_drop_Suc)

text \<open>After some characters are written, the loop goes on with the rest of the input.\<close>

definition unescapes :: "bool \<Rightarrow> bool \<Rightarrow> mem \<Rightarrow> stringaa \<Rightarrow> char list \<Rightarrow> char list
    \<Rightarrow> bool \<times> stringaa \<times> stringaa \<times> mem \<Rightarrow> bool" where
  "unescapes unr ok m u w cs = (\<lambda>(r, u', e', m').
    r = fst (unescape_list unr ok cs) \<and> written m u m' u' (w @ snd (unescape_list unr ok cs)))"

lemma unescape_goes_on:
  assumes w: "written m u m1 u1 w" and "mem_ok m" and "readable m e"
    and "block_of (buf e) \<noteq> block_of (buf u)" and q: "q < write_pos e"
    and IH: "\<lbrakk>open_out m1 u1; readable m1 e; block_of (buf e) \<noteq> block_of (buf u1)\<rbrakk> \<Longrightarrow>
      returns (unescape_loop unr m1 u1 (e\<lparr>read_pos := q\<rparr>) ok)
        (unescapes unr ok m1 u1 [] (drop q (chars m1 e)))"
  shows "returns (unescape_loop unr m1 u1 (e\<lparr>read_pos := q\<rparr>) ok)
    (unescapes unr ok m u w (drop q (chars m e)))"
proof -
  have u1: "open_out m1 u1" "buf u1 = buf u" "other_blocks m m1 (block_of (buf u))"
    using w by (auto simp: written_def)
  note e1 = other_blocks_chars [OF u1(3) assms(2-4)]
  show ?thesis using IH u1 e1 assms(4) written_trans [OF w]
    by (fastforce simp: returns_iff unescapes_def)
qed

text \<open>The step of the loop at a percent sign.\<close>

lemma unescape_loop_percent:
  assumes u: "open_out m u" and e: "readable m e" "read_pos e < write_pos e"
    and esc: "chars m e ! read_pos e = CHR ''%''"
    and rest: "\<And>m1 u1 w q. \<lbrakk>written m u m1 u1 w; read_pos e < q; q < write_pos e\<rbrakk> \<Longrightarrow>
      returns (unescape_loop unr m1 u1 (e\<lparr>read_pos := q\<rparr>) True)
        (unescapes unr True m u w (drop q (chars m e)))"
  shows "returns (unescape_loop unr m u e ok) (unescapes unr ok m u [] (drop (read_pos e) (chars m e)))"
proof -
  let ?cs = "chars m e" and ?p = "read_pos e"
  have get: "stringaa_get_char m e = Some (?cs ! ?p)" using e by simp
  note unf = unescape_loop.simps [of unr m u e] stringaa_next_read_pos_def unescapes_def
  show ?thesis
  proof (cases "?p + 2 < write_pos e")
    case False
    then have "\<exists>a. drop (Suc ?p) ?cs = [] \<or> drop (Suc ?p) ?cs = [a]"
      by (cases "drop (Suc ?p) ?cs" rule: remdups_adj.cases)
        (auto dest: arg_cong [where f = length])
    with False esc get drop_at [of ?p ?cs] u e written_refl [OF u] show ?thesis
      by (auto simp: unf peek_def)
  next
    case True
    let ?a1 = "?cs ! (Suc ?p)" and ?a0 = "?cs ! (Suc (Suc ?p))"
    have dr: "drop ?p ?cs = ?cs ! ?p # ?a1 # ?a0 # drop (Suc (Suc (Suc ?p))) ?cs"
      using True drop_at [of ?p ?cs] drop_at [of "Suc ?p" ?cs] drop_at [of "Suc (Suc ?p)" ?cs]
      by simp
    show ?thesis
    proof (cases "uriaa_unescape_char ?a1 ?a0")
      case None
      with True esc get dr u e written_refl [OF u] show ?thesis by (simp add: unf)
    next
      case (Some d)
      let ?w = "unescape_one unr ?a1 ?a0 d"
      obtain u1 m1 where 1: "put_chars m u ?w = Some (u1, m1)" "written m u m1 u1 ?w"
        using put_chars_ok [OF u, of ?w] by (auto simp: returns_iff)
      show ?thesis
        using True Some esc get dr 1 e rest [OF 1(2), of "Suc (Suc (Suc ?p))"]
        by (cases "Suc (Suc (Suc ?p)) < write_pos e") (simp_all add: unf)
    qed
  qed
qed

lemma unescape_loop_unescapes:
  assumes "open_out m u" and "readable m e" and "read_pos e < write_pos e"
    and "block_of (buf e) \<noteq> block_of (buf u)"
  shows "returns (unescape_loop unr m u e ok) (unescapes unr ok m u [] (drop (read_pos e) (chars m e)))"
  using assms
proof (induction "write_pos e - read_pos e" arbitrary: m u e ok rule: less_induct)
  case less
  let ?cs = "chars m e" and ?p = "read_pos e"
  have get: "stringaa_get_char m e = Some (?cs ! ?p)" using less(3,4) by simp
  have mo: "mem_ok m" using less(2) by (simp add: open_out_def)
  have rest: "returns (unescape_loop unr m1 u1 (e\<lparr>read_pos := q\<rparr>) ok')
      (unescapes unr ok' m u w (drop q ?cs))"
    if "written m u m1 u1 w" "?p < q" "q < write_pos e" for m1 u1 w q ok'
    using unescape_goes_on [OF that(1) mo less(3,5) that(3), of unr ok']
      less(1) [of "e\<lparr>read_pos := q\<rparr>" m1 u1 ok'] that(2,3) by simp
  show ?case
  proof (cases "?cs ! ?p = CHR ''%''")
    case False
    obtain u1 m1 where 1: "put_chars m u [?cs ! ?p] = Some (u1, m1)" "written m u m1 u1 [?cs ! ?p]"
      using put_chars_ok [OF less(2), of "[?cs ! ?p]"] by (auto simp: returns_iff)
    show ?thesis
      using False get 1 rest [OF 1(2), of "Suc ?p" ok] drop_at [of ?p ?cs] less(4)
      by (cases "Suc ?p < write_pos e")
        (simp_all add: unescape_loop.simps [of unr m u e] stringaa_next_read_pos_def unescapes_def)
  next
    case True
    from unescape_loop_percent [OF less(2-4) True rest] show ?thesis .
  qed
qed

lemmas unescape_loop_ok = unescape_loop_unescapes [unfolded unescapes_def append_Nil]

lemma uriaa_unescape_ok:
  assumes "mem_ok m" "\<not> oom m (nalloc m)" "growable m u" "buf_size u < write_pos e"
    and "readable m e" "block_of (buf e) \<noteq> block_of (buf u)"
  shows "returns (uriaa_unescape m u e unr) (\<lambda>(ok, u', e', m').
    ok = fst (unescape_list unr False (chars m e)) \<and> open_out m' u'
    \<and> chars m' u' = take (write_pos e - 1) (snd (unescape_list unr False (chars m e))))"
proof -
  have w: "0 < write_pos e" using assms(4) by simp
  obtain u1 m1 where 1: "stringaa_malloc m u (write_pos e) = Some (True, u1, m1)" "owned m1 u1"
      "write_pos u1 = 0" "buf_size u1 = write_pos e" "is_null_terminated u1"
      "buf u1 = Ptr (nalloc m) 0" "other_blocks m m1 (block_of (buf u))"
    using stringaa_malloc_ok [OF assms(1-4)] by (auto simp: returns_iff)
  let ?u = "u1\<lparr>write_pos := 0, is_init := True\<rparr>" and ?e = "e\<lparr>read_pos := 0\<rparr>"
  note e1 = other_blocks_chars [OF 1(7) assms(1,5,6)]
  have out: "open_out m1 ?u" using 1 by (auto simp: open_out_def owned_def other_blocks_def)
  have "load_n m (buf e) (write_pos e) \<noteq> None" using assms(5) by (simp add: readable_def)
  then have "block_of (buf e) \<noteq> block_of (buf ?u)"
    using w load_n_block [of m "buf e" "write_pos e"] mem_ok_lt [OF assms(1)] 1(6) by fastforce
  moreover have "chars m1 ?u = []" using length_chars [of m1 ?u] by (simp del: length_chars)
  ultimately show ?thesis
    using unescape_loop_ok [OF out, of ?e unr False] e1 w 1
    by (auto simp: uriaa_unescape_def stringaa_begin_write_pos_def stringaa_begin_read_pos_def
        returns_iff written_def)
qed

section \<open>Round trips\<close>

lemma schar_char_of:
  assumes "n < 128"
  shows "schar (char_of n) = int n"
proof -
  have "of_char (char_of n :: char) = int (of_char (char_of n :: char))"
    by (simp only: of_nat_of_char)
  then show ?thesis using assms by (simp add: schar_def of_char_of)
qed

lemma schar_digits [simp]: "schar (CHR ''a'') = 97" "schar (CHR ''f'') = 102"
    "schar (CHR ''A'') = 65" "schar (CHR ''F'') = 70" "schar (CHR 0x30) = 48" "schar (CHR 0x3f) = 63"
  by (simp_all add: schar_def)

lemma hex_value_digit: "hex_value (hex_digit d) = Some (d mod 16)"
proof -
  define k where "k = d mod 16"
  have k: "k < 16" by (simp add: k_def)
  then have m: "(k + 48) mod 16 = k" by presburger
  have n: "of_char (char_of (k + 48) :: char) = k + 48" "of_char (char_of (k + 55) :: char) = k + 55"
    using k by (simp_all add: of_char_of)
  have s: "schar (char_of (k + 48)) = int k + 48" "schar (char_of (k + 55)) = int k + 55"
    using k by (simp_all add: schar_char_of)
  note flip = s [unfolded add.commute [of k]] n [unfolded add.commute [of k]]
    m [unfolded add.commute [of k]]
  show ?thesis
  proof (cases "k \<le> 9")
    case True
    then have "hex_digit d = char_of (k + 48)" by (simp add: hex_digit_def k_def)
    with True show ?thesis
      unfolding k_def [symmetric] by (simp add: hex_value_def in_range_def s n m)
  next
    case False
    then have "hex_digit d = char_of (k + 55)" by (simp add: hex_digit_def k_def)
    moreover have "\<not> int k + 55 \<le> 64" "int k + 55 \<le> 70" using False k by simp_all
    ultimately show ?thesis
      using k unfolding k_def [symmetric] by (simp add: hex_value_def in_range_def s n m flip)
  qed
qed

lemma uriaa_escape_char_inverse:
  "case uriaa_escape_char c of (a1, a0) \<Rightarrow> uriaa_unescape_char a1 a0 = Some c"
proof -
  have "(of_char c :: nat) < 256" by (metis of_char_mod_256 mod_less_divisor zero_less_numeral)
  then have "(of_char c :: nat) div 16 < 16" by (simp add: less_mult_imp_div_less)
  then have "(of_char c :: nat) div 16 mod 16 = of_char c div 16" by (rule mod_less)
  then show ?thesis
    by (simp add: uriaa_escape_char_def uriaa_unescape_char_def hex_value_digit)
qed

section \<open>Properties\<close>

text \<open>C19: \<open>uriaa_escape\<close> into a fresh buffer, when \<open>malloc\<close> works, writes its input with every control character,
  space, delimiter and unwise character (and every reserved one, with the flag) replaced by its escape,
  cut to the three bytes per character that it allocates less the terminator; so the output is
  complete as soon as one character needs no escape.  This holds for an input of one character, and for one
  with a byte that can be read behind its last; for an input of two or more characters that fills its
  block, the call reads that byte for its trace, out of bounds.\<close>

theorem uriaa_escape_maps:
  assumes "mem_ok m" "\<not> oom m (nalloc m)" "growable m e" "buf_size e < write_pos u * 3"
    and "readable m u" "block_of (buf u) \<noteq> block_of (buf e)"
  shows "if byte_behind m u \<or> write_pos u = 1
    then returns (uriaa_escape m e u r) (\<lambda>(ok, e', u', m'). ok
      \<and> chars m' e' = take (write_pos u * 3 - 1) (escape_list r (chars m u))
      \<and> ((\<exists>c \<in> set (chars m u). \<not> must_escape r c) \<longrightarrow> chars m' e' = escape_list r (chars m u)))
    else uriaa_escape m e u r = None"
proof (cases "byte_behind m u \<or> write_pos u = 1")
  case True
  have "take (write_pos u * 3 - 1) (escape_list r (chars m u)) = escape_list r (chars m u)"
    if "c \<in> set (chars m u)" "\<not> must_escape r c" for c
    using escape_list_room [OF that] by (intro take_all) simp
  with uriaa_escape_ok [OF assms True, of r] True show ?thesis by (fastforce simp: returns_iff)
next
  case False
  obtain e1 m1 where "uriaa_escape m e u r = escape_loop r m1 e1 (u\<lparr>read_pos := 0\<rparr>)" "open_out m1 e1"
      "block_of (buf u) \<noteq> block_of (buf e1)" "readable m1 u" "byte_behind m1 u = byte_behind m u"
    using uriaa_escape_to_loop [OF assms] .
  with escape_loop_fault [of m1 e1 "u\<lparr>read_pos := 0\<rparr>" r] False assms(4) show ?thesis by simp
qed

lemma uriaa_escape_maps_witness:
  "returns (uriaa_escape (memory_of [''a b'' @ [NUL]]) stringaa_zero (string_at 0 3) False)
      (\<lambda>(ok, e', u', m'). ok \<and> chars m' e' = ''a%20b'')
    \<and> uriaa_escape (memory_of [''a b'']) stringaa_zero (string_at 0 3) False = None"
proof -
  have e: "escape_list False ''a b'' = ''a%20b''"
    by (simp add: escape_list_def escape_one_def must_escape_def cclass range_defs
        uriaa_escape_char_def hex_digit_def char_of_def bit_iff_odd)
  have "byte_behind (memory_of [''a b'' @ [NUL]]) (string_at 0 3)" "\<not> byte_behind (memory_of [''a b'']) (string_at 0 3)"
    by (simp_all add: byte_behind_def load_def string_at_def)
  then show ?thesis
    using uriaa_escape_maps [of "memory_of [''a b'' @ [NUL]]" stringaa_zero "string_at 0 3" False]
      uriaa_escape_maps [of "memory_of [''a b'']" stringaa_zero "string_at 0 3" False]
    by (simp add: e returns_iff) (auto simp: e)
qed

text \<open>C18: \<open>uriaa_unescape\<close> into a fresh buffer computes \<open>unescape_list\<close> of its input: the result code
  and the characters written, cut to the size of the input less one for the terminator.  A
  malformed escape ends the run with the characters written so far.\<close>

theorem uriaa_unescape_reference:
  assumes "mem_ok m" "\<not> oom m (nalloc m)" "growable m u" "buf_size u < write_pos e"
    and "readable m e" "block_of (buf e) \<noteq> block_of (buf u)"
  shows "returns (uriaa_unescape m u e unr) (\<lambda>(ok, u', e', m').
    ok = fst (unescape_list unr False (chars m e))
    \<and> chars m' u' = take (write_pos e - 1) (snd (unescape_list unr False (chars m e))))"
  using uriaa_unescape_ok [OF assms, of unr] by (auto simp: returns_iff)

lemma hex_A: "uriaa_unescape_char (CHR ''4'') (CHR ''1'') = Some (CHR ''A'')"
  by (simp add: uriaa_unescape_char_def hex_value_def range_defs char_of_def bit_iff_odd)

lemma uriaa_unescape_reference_witness:
  "returns (uriaa_unescape (memory_of [''%41b'']) stringaa_zero (string_at 0 4) True)
    (\<lambda>(ok, u', e', m'). ok \<and> chars m' u' = ''Ab'')"
proof -
  have e: "unescape_list True False ''%41b'' = (True, ''Ab'')"
    by (simp add: hex_A unescape_one_def cclass range_defs)
  show ?thesis
    using uriaa_unescape_reference [of "memory_of [''%41b'']" stringaa_zero "string_at 0 4" True] e
    by (simp del: unescape_list.simps)
qed

text \<open>The escape of a character decodes to that character, for all 256 values of a byte.\<close>

theorem uriaa_escape_char_roundtrip:
  "case uriaa_escape_char c of (a1, a0) \<Rightarrow> uriaa_unescape_char a1 a0 = Some c"
  by (rule uriaa_escape_char_inverse)

text \<open>Without the flag \<open>URIAA_ESCAPE_UNRESERVED\<close>, \<open>uriaa_unescape\<close> does not decode: for an input
  that is one escape it writes the second hexadecimal digit instead of the character.\<close>

theorem uriaa_unescape_writes_digit:
  assumes "mem_ok m" "\<not> oom m (nalloc m)" "growable m u" "buf_size u < 3"
    and "readable m e" "block_of (buf e) \<noteq> block_of (buf u)"
    and "chars m e = [CHR ''%'', a1, a0]" "uriaa_unescape_char a1 a0 = Some c"
  shows "returns (uriaa_unescape m u e False) (\<lambda>(ok, u', e', m'). ok \<and> chars m' u' = [a0])"
proof -
  have "write_pos e = 3" using assms(7) length_chars [of m e] by simp
  then show ?thesis
    using uriaa_unescape_ok [OF assms(1-3) _ assms(5,6), of False] assms(4,7,8)
    by (simp add: unescape_one_def returns_iff) auto
qed

lemma uriaa_unescape_writes_digit_witness:
  "returns (uriaa_unescape (memory_of [''%41'']) stringaa_zero (string_at 0 3) False)
    (\<lambda>(ok, u', e', m'). ok \<and> chars m' u' = ''1'')"
  by (rule uriaa_unescape_writes_digit [OF _ _ _ _ _ _ _ hex_A]) simp_all

section \<open>Escaping and then unescaping\<close>

lemma escaped_not_unreserved: "must_escape r c \<Longrightarrow> \<not> UNRESERVED_CHARS c"
  by (auto simp: must_escape_def cclass range_defs)

lemma percent_escaped: "must_escape r (CHR ''%'')"
  by (simp add: must_escape_def cclass range_defs)

lemma escape_one_eq: "escape_one r c = (if must_escape r c
    then [CHR ''%'', fst (uriaa_escape_char c), snd (uriaa_escape_char c)] else [c])"
  by (simp add: escape_one_def split: prod.split)

text \<open>The flag \<open>unr\<close> keeps every escape; without it an escape becomes its second digit.\<close>

definition reread :: "bool \<Rightarrow> bool \<Rightarrow> char \<Rightarrow> char list" where
  "reread unr r c = (if unr then escape_one r c else if must_escape r c then [snd (uriaa_escape_char c)] else [c])"

lemma escape_list_Nil_iff: "escape_list r cs = [] \<longleftrightarrow> cs = []"
  by (cases cs) (simp_all add: escape_list_def escape_one_eq)

lemma unescape_escape_list:
  "cs \<noteq> [] \<Longrightarrow> unescape_list unr ok (escape_list r cs) = (True, concat (map (reread unr r) cs))"
proof (induction cs arbitrary: ok)
  case (Cons c cs)
  have split: "escape_list r (c # cs) = escape_one r c @ escape_list r cs" by (simp add: escape_list_def)
  have dec: "uriaa_unescape_char (fst (uriaa_escape_char c)) (snd (uriaa_escape_char c)) = Some c"
    using uriaa_escape_char_inverse [of c] by (simp split: prod.splits)
  show ?case
  proof (cases "must_escape r c")
    case True
    with dec escaped_not_unreserved [OF True] Cons show ?thesis
      unfolding split by (cases "cs = []")
        (simp_all add: escape_one_eq reread_def unescape_one_def escape_list_Nil_iff)
  next
    case False
    then have "c \<noteq> CHR ''%''" using percent_escaped by metis
    with False Cons show ?thesis
      unfolding split by (cases "cs = []") (simp_all add: escape_one_eq reread_def escape_list_Nil_iff)
  qed
qed simp

text \<open>C20: no call of \<open>uriaa_unescape\<close> undoes \<open>uriaa_escape\<close>.  On the output of \<open>uriaa_escape\<close> it succeeds; with the
  flag \<open>URIAA_ESCAPE_UNRESERVED\<close> it keeps every escape, because what is escaped is never unreserved, and
  without the flag it puts the second digit in the place of the character; and the output is cut to the length
  of its input less one.  The string to escape has a character that needs no escape, and a byte that can be
  read behind it, and \<open>malloc\<close> works.\<close>

theorem uriaa_unescape_keeps_escapes:
  assumes "mem_ok m" and "\<forall>i. \<not> oom m i" and "readable m u" and "c \<in> set (chars m u)" and "\<not> must_escape r c"
    and "byte_behind m u"
  shows "returns (uriaa_escape m stringaa_zero u r) (\<lambda>(_, e, _, m1). chars m1 e = escape_list r (chars m u)
    \<and> returns (uriaa_unescape m1 stringaa_zero e unr) (\<lambda>(ok, v, _, m2). ok
      \<and> chars m2 v = take (length (escape_list r (chars m u)) - 1) (concat (map (reread unr r) (chars m u)))))"
proof -
  let ?es = "escape_list r (chars m u)"
  have g: "growable m' stringaa_zero" for m' by (simp add: growable_def blank_def)
  have ne: "chars m u \<noteq> []" "0 < write_pos u" using assms(4) length_chars [of m u] length_pos_if_in_set [OF assms(4)] by auto
  then have nb: "block_of (buf u) \<noteq> None"
    using assms(3) load_n_block [of m "buf u" "write_pos u"] by (auto simp: readable_def)
  obtain e u' m1 where 1: "uriaa_escape m stringaa_zero u r = Some (True, e, u', m1)" "open_out m1 e" "oom m1 = oom m"
      "chars m1 e = take (write_pos u * 3 - 1) ?es"
    using uriaa_escape_ok [OF assms(1) _ g _ assms(3), of r] assms(2,6) ne(2) nb by (auto simp: returns_iff)
  then have es: "chars m1 e = ?es" using escape_list_room [OF assms(4,5)] by simp
  then have w: "write_pos e = length ?es" "0 < length ?es"
    using length_chars [of m1 e] ne(1) unfolding es length_greater_0_conv escape_list_Nil_iff by simp_all
  have e: "mem_ok m1" "readable m1 e" "block_of (buf e) \<noteq> None"
    using 1(2) owned_chars by (auto simp: open_out_def owned_def)
  have "returns (uriaa_unescape m1 stringaa_zero e unr) (\<lambda>(ok, v, _, m2).
      ok = fst (unescape_list unr False ?es) \<and> open_out m2 v \<and> chars m2 v = take (length ?es - 1) (snd (unescape_list unr False ?es)))"
    using uriaa_unescape_ok [OF e(1) _ g _ e(2), of unr] assms(2) 1(3) w e(3) es by simp
  then show ?thesis
    using 1(1) es unescape_escape_list [OF ne(1), of unr False r] by (auto simp: returns_iff)
qed

lemma uriaa_unescape_keeps_escapes_witness:
  "returns (uriaa_escape (memory_of [''a b'' @ [NUL]]) stringaa_zero (string_at 0 3) False) (\<lambda>(_, e, _, m1).
    returns (uriaa_unescape m1 stringaa_zero e True) (\<lambda>(ok, v, _, m2). chars m2 v = ''a%20'')
    \<and> returns (uriaa_unescape m1 stringaa_zero e False) (\<lambda>(ok, v, _, m2). chars m2 v = ''a0b''))"
proof -
  have e: "escape_list False ''a b'' = ''a%20b''" "concat (map (reread True False) ''a b'') = ''a%20b''"
      "concat (map (reread False False) ''a b'') = ''a0b''" "\<not> must_escape False (CHR ''a'')"
    by (simp_all add: escape_list_def escape_one_def reread_def must_escape_def cclass range_defs
        uriaa_escape_char_def hex_digit_def char_of_def bit_iff_odd)
  have "byte_behind (memory_of [''a b'' @ [NUL]]) (string_at 0 3)"
    by (simp add: byte_behind_def load_def string_at_def)
  then show ?thesis
    using uriaa_unescape_keeps_escapes [of "memory_of [''a b'' @ [NUL]]" "string_at 0 3" "CHR ''a''" False True]
      uriaa_unescape_keeps_escapes [of "memory_of [''a b'' @ [NUL]]" "string_at 0 3" "CHR ''a''" False False]
    by (simp add: e returns_iff del: list.map) (auto simp: e simp del: list.map)
qed

end
