(* ===== verification/Uri_Resolve.thy ===== *)
theory Uri_Resolve
  imports Uri_Parser Stringaa_Buffer
begin

text \<open>
  Relative references and dot segments, \<open>src/url/uriaa_rfc2396_resolve.h\<close>.  The loops over the
  path work on a block in memory; each is shown to compute a function on the characters of the
  path.  The traces that the code prints are left out, but not what they read: \<open>printf("buf: %s", buf)\<close> is a
  fault when the block of \<open>buf\<close> has no zero byte, like \<open>strlen\<close>.
\<close>

section \<open>Loops over a path\<close>

text \<open>\<open>buf[i - 1] == '.' && buf[i - 2] == '.'\<close>\<close>

definition dots_before :: "mem \<Rightarrow> cptr \<Rightarrow> nat \<Rightarrow> bool option" where
  "dots_before m p i = do {
     a \<leftarrow> load m p (i - 1);
     if a = CHR ''.'' then do { b \<leftarrow> load m p (i - 2); Some (b = CHR ''.'') } else Some False }"

text \<open>\<open>i + 2 < n && buf[i + 1] == '.' && buf[i + 2] == '.'\<close>\<close>

definition dots_after :: "mem \<Rightarrow> cptr \<Rightarrow> nat \<Rightarrow> nat \<Rightarrow> bool option" where
  "dots_after m p n i = (if i + 2 < n
     then do {
       a \<leftarrow> load m p (i + 1);
       if a = CHR ''.'' then do { b \<leftarrow> load m p (i + 2); Some (b = CHR ''.'') } else Some False }
     else Some False)"

text \<open>
  The nested loops that remove \<open>./\<close> segments, as one: \<open>n\<close> is \<open>buf_size\<close>, \<open>i\<close> is \<open>i_s\<close>, \<open>seg\<close>
  is \<open>segment_s\<close>.
\<close>

function point_loop :: "mem \<Rightarrow> cptr \<Rightarrow> nat \<Rightarrow> nat \<Rightarrow> nat \<Rightarrow> (nat \<times> nat \<times> mem) option" where
  "point_loop m p n i seg = (if i < n
     then do {
       c \<leftarrow> load m p i;
       if c = CHR ''/'' then do {
         dot \<leftarrow> (if i = seg + 1 then do { d \<leftarrow> load m p (i - 1); Some (d = CHR ''.'') } else Some False);
         if dot then do {
           m \<leftarrow> c_memmove m (padd p seg) (padd p (i + 1)) (n - i);
           _ \<leftarrow> c_strlen m p;
           point_loop m p (n - (i + 1 - seg)) seg seg }
         else point_loop m p n (i + 1) (i + 1) }
       else point_loop m p n (i + 1) seg }
     else Some (n, seg, m))"
  by pat_completeness auto
termination
  by (relation "measure (\<lambda>(m, p, n, i, seg). n - i)") (auto split: if_splits)

declare point_loop.simps [simp del]

text \<open>The loops with the treatment of a last \<open>.\<close> segment, which becomes a zero byte.\<close>

definition point_pass :: "mem \<Rightarrow> cptr \<Rightarrow> nat \<Rightarrow> (nat \<times> mem) option" where
  "point_pass m p n = do {
     (n, seg, m) \<leftarrow> point_loop m p n 0 0;
     dot \<leftarrow> (if seg + 1 = n then do { d \<leftarrow> load m p seg; Some (d = CHR ''.'') } else Some False);
     m \<leftarrow> (if dot then store m p seg NUL else Some m);
     Some (n, m) }"

text \<open>The nested loops that remove \<open><segment>/../\<close>.\<close>

function points_loop :: "mem \<Rightarrow> cptr \<Rightarrow> nat \<Rightarrow> nat \<Rightarrow> nat \<Rightarrow> (nat \<times> mem) option" where
  "points_loop m p n i seg = (if i < n
     then do {
       c \<leftarrow> load m p i;
       if c = CHR ''/'' then do {
         up \<leftarrow> (if i = seg + 2 then dots_before m p i else Some False);
         if up then points_loop m p n (i + 1) (i + 1)
         else do {
           dd \<leftarrow> dots_after m p n i;
           if dd then do {
             sl \<leftarrow> (if i + 3 < n then do { d \<leftarrow> load m p (i + 3); Some (d = CHR ''/'') } else Some False);
             if sl then do {
               m \<leftarrow> c_memmove m (padd p seg) (padd p (i + 4)) (n - i - 4 + 1);
               _ \<leftarrow> c_strlen m p;
               points_loop m p (n - (i + 4 - seg)) 0 0 }
             else if i + 3 = n then do {
               m \<leftarrow> c_memmove m (padd p seg) (padd p (i + 3)) (n - i - 3 + 1);
               _ \<leftarrow> c_strlen m p;
               points_loop m p (n - (i + 3 - seg)) 0 0 }
             else points_loop m p n (i + 1) seg }
           else points_loop m p n (i + 1) (i + 1) } }
       else points_loop m p n (i + 1) seg }
     else Some (n, m))"
  by pat_completeness auto
termination
  by (relation "measures [\<lambda>(m, p, n, i, seg). n, \<lambda>(m, p, n, i, seg). of_bool (i < seg),
        \<lambda>(m, p, n, i, seg). n - i]")
    (auto split: if_splits)

declare points_loop.simps [simp del]

text \<open>
  The loop that looks for leading \<open>..\<close> segments, and the test of a last one after it; it says
  whether there is one.
\<close>

definition lead_end :: "mem \<Rightarrow> cptr \<Rightarrow> nat \<Rightarrow> nat \<Rightarrow> bool option" where
  "lead_end m p n seg = (if seg + 2 = n
     then do {
       a \<leftarrow> load m p seg;
       if a = CHR ''.'' then do { b \<leftarrow> load m p (seg + 1); Some (b = CHR ''.'') } else Some False }
     else Some False)"

function lead_loop :: "mem \<Rightarrow> cptr \<Rightarrow> nat \<Rightarrow> nat \<Rightarrow> nat \<Rightarrow> bool option" where
  "lead_loop m p n i seg = (if i < n
     then do {
       c \<leftarrow> load m p i;
       if c = CHR ''/'' then do {
         up \<leftarrow> (if i = seg + 2 then dots_before m p i else Some False);
         if up then Some True
         else if i > seg then lead_end m p n seg
         else lead_loop m p n (i + 1) (i + 1) }
       else lead_loop m p n (i + 1) seg }
     else lead_end m p n seg)"
  by pat_completeness auto
termination
  by (relation "measure (\<lambda>(m, p, n, i, seg). n - i)") auto

declare lead_loop.simps [simp del]

section \<open>Dot segments of a string\<close>

text \<open>The new size of the path stays in a local variable: the struct is not changed.\<close>

definition uriaa_remove_segment_point :: "mem \<Rightarrow> stringaa \<Rightarrow> (bool \<times> stringaa \<times> mem) option" where
  "uriaa_remove_segment_point m s = do {
     (n, m) \<leftarrow> point_pass m (buf s) (buf_size s);
     Some (True, s, m) }"

definition uriaa_remove_segment_points :: "mem \<Rightarrow> stringaa \<Rightarrow> (bool \<times> stringaa \<times> mem) option" where
  "uriaa_remove_segment_points m s = do {
     (n, m) \<leftarrow> points_loop m (buf s) (buf_size s) 0 0;
     up \<leftarrow> lead_loop m (buf s) n 0 0;
     Some (True, s\<lparr>buf_size := n + 1\<rparr>, m) }"

section \<open>Resolution\<close>

definition URIAA_RESULT_IS_CURRENT_DOCUMENT :: int where "URIAA_RESULT_IS_CURRENT_DOCUMENT = 2"
definition URIAA_RESULT_IS_ABSOLUTE_URI :: int where "URIAA_RESULT_IS_ABSOLUTE_URI = 3"

definition is_current_document :: "uriaa \<Rightarrow> bool" where
  "is_current_document u \<longleftrightarrow> \<not> is_init (u_net_path u) \<and> \<not> is_init (u_abs_path u)
     \<and> \<not> is_init (u_rel_path u) \<and> \<not> is_init (u_opaque_part u) \<and> \<not> is_init (u_scheme u)
     \<and> \<not> is_init (u_authority u) \<and> \<not> is_init (u_query u)"

definition inherited :: "stringaa \<Rightarrow> stringaa" where
  "inherited x = x\<lparr>is_alloc := False, is_link := True\<rparr>"

text \<open>
  The size of a part without its terminator, as the code takes it: one less than the write
  position when the part is null-terminated.
\<close>

definition copy_size :: "stringaa \<Rightarrow> nat" where
  "copy_size x = (if write_pos x > 0 \<and> is_null_terminated x then write_pos x - 1 else write_pos x)"

text \<open>
  The search for the last slash from \<open>i\<close> down.  The index is unsigned: without a slash it
  wraps, and the next access is far outside the block.
\<close>

fun last_slash :: "mem \<Rightarrow> cptr \<Rightarrow> nat \<Rightarrow> nat option" where
  "last_slash m p i = do {
     c \<leftarrow> load m p i;
     if c = CHR ''/'' then Some (i + 1)
     else (case i of 0 \<Rightarrow> None | Suc j \<Rightarrow> last_slash m p j) }"

declare last_slash.simps [simp del]

definition base_path_size :: "mem \<Rightarrow> stringaa \<Rightarrow> nat option" where
  "base_path_size m a = (if is_init a \<and> buf a \<noteq> Null \<and> write_pos a > 0
     then (let i = write_pos a - 1;
               i = (if i > 0 \<and> is_null_terminated a then i - 1 else i) in last_slash m (buf a) i)
     else Some 0)"

definition rel_path_size :: "stringaa \<Rightarrow> nat" where
  "rel_path_size r = (if is_init r \<and> buf r \<noteq> Null then copy_size r else 0)"

text \<open>
  The merged path: the base up to its last slash, then the relative path, in a new block that
  becomes \<open>path\<close>.  The result is the size without the terminator, or \<^const>\<open>None\<close> when \<open>malloc\<close> failed.
\<close>

definition merge_paths :: "mem \<Rightarrow> uriaa \<Rightarrow> uriaa \<Rightarrow> (nat option \<times> uriaa \<times> mem) option" where
  "merge_paths m u base = do {
     bn \<leftarrow> base_path_size m (u_abs_path base);
     let rn = rel_path_size (u_rel_path u);
     let n = bn + rn + 1;
     case c_malloc m n of (b, m) \<Rightarrow>
     if b = Null then Some (None, u, m)
     else do {
       m \<leftarrow> (if buf (u_abs_path base) \<noteq> Null \<and> bn \<noteq> 0 then c_memcpy m b (buf (u_abs_path base)) bn
             else Some m);
       m \<leftarrow> (if buf (u_rel_path u) \<noteq> Null \<and> rn \<noteq> 0 then c_memcpy m (padd b bn) (buf (u_rel_path u)) rn
             else Some m);
       m \<leftarrow> store m b (n - 1) NUL;
       m \<leftarrow> (if buf (u_path u) \<noteq> Null \<and> is_alloc (u_path u) then c_free m (buf (u_path u)) else Some m);
       let x = set_flags [STRINGAA_IS_INIT, STRINGAA_IS_ALLOC, STRINGAA_IS_NULL_TERMINATED]
                 ((u_path u)\<lparr>buf := b, buf_size := n, read_pos := 0\<rparr>);
       Some (Some (n - 1), u\<lparr>u_path := x\<lparr>write_pos := end_of x\<rparr>\<rparr>, m) } }"

text \<open>The merged path without dot segments; the flag says that no \<open>..\<close> is left at its start.\<close>

definition resolve_path :: "mem \<Rightarrow> uriaa \<Rightarrow> uriaa \<Rightarrow> (bool \<times> uriaa \<times> mem) option" where
  "resolve_path m u base = do {
     (n, u, m) \<leftarrow> merge_paths m u base;
     case n of None \<Rightarrow> Some (False, u, m)
     | Some n \<Rightarrow> do {
         let p = buf (u_path u);
         (n, m) \<leftarrow> point_pass m p n;
         (n, m) \<leftarrow> points_loop m p n 0 0;
         let u = u\<lparr>u_path := (u_path u)\<lparr>buf_size := n + 1,
                   write_pos := n + 1 - of_bool (is_null_terminated (u_path u))\<rparr>\<rparr>;
         up \<leftarrow> lead_loop m p n 0 0;
         Some (\<not> up, u, m) } }"

section \<open>Recomposition\<close>

text \<open>One part with its delimiters, written at \<open>r\<close>.\<close>

definition put_part :: "mem \<Rightarrow> cptr \<Rightarrow> nat \<Rightarrow> char list \<Rightarrow> stringaa \<Rightarrow> char list \<Rightarrow> (nat \<times> mem) option" where
  "put_part m b r pre x post = do {
     m \<leftarrow> store_n m (padd b r) pre;
     let r = r + length pre;
     m \<leftarrow> c_memcpy m (padd b r) (buf x) (copy_size x);
     let r = r + copy_size x;
     m \<leftarrow> store_n m (padd b r) post;
     Some (r + length post, m) }"

text \<open>The parts of the reference in order: delimiter, part, delimiter.\<close>

definition resolved_parts :: "bool \<Rightarrow> uriaa \<Rightarrow> (char list \<times> stringaa \<times> char list) list" where
  "resolved_parts ap u =
     (if is_init (u_scheme u) then [([], u_scheme u, '':'')] else [])
     @ (if is_init (u_authority u) then [(''//'', u_authority u, [])] else [])
     @ (if ap then [([], u_abs_path u, [])]
        else if is_init (u_path u) then [([], u_path u, [])] else [])
     @ (if is_init (u_query u) then [(''?'', u_query u, [])] else [])
     @ (if is_init (u_fragment u) then [(''#'', u_fragment u, [])] else [])"

fun put_parts :: "mem \<Rightarrow> cptr \<Rightarrow> nat \<Rightarrow> (char list \<times> stringaa \<times> char list) list \<Rightarrow> (nat \<times> mem) option" where
  "put_parts m b r [] = Some (r, m)"
| "put_parts m b r ((pre, x, post) # ps) = do {
     (r, m) \<leftarrow> put_part m b r pre x post;
     put_parts m b r ps }"

fun parts_size :: "(char list \<times> stringaa \<times> char list) list \<Rightarrow> nat" where
  "parts_size [] = 0"
| "parts_size ((pre, x, post) # ps) = length pre + write_pos x + length post + parts_size ps"

definition recompose :: "mem \<Rightarrow> uriaa \<Rightarrow> bool \<Rightarrow> (int \<times> uriaa \<times> mem) option" where
  "recompose m u ap = (let ps = resolved_parts ap u; n = parts_size ps + 1 in
     case c_malloc m n of (b, m) \<Rightarrow>
     if b = Null then Some (0, u, m)
     else do {
       (r, m) \<leftarrow> put_parts m b 0 ps;
       m \<leftarrow> store m b r NUL;
       let x = set_flags [STRINGAA_IS_INIT, STRINGAA_IS_ALLOC, STRINGAA_IS_NULL_TERMINATED]
                 ((u_uri u)\<lparr>buf := b, buf_size := n, read_pos := r\<rparr>);
       Some (1, u\<lparr>u_uri := x\<lparr>write_pos := end_of x\<rparr>\<rparr>, m) })"

definition has_absolute_path :: "mem \<Rightarrow> uriaa \<Rightarrow> bool option" where
  "has_absolute_path m u = (if is_init (u_abs_path u) \<and> \<not> is_init (u_rel_path u) then Some True
     else if is_init (u_opaque_part u) \<and> buf (u_opaque_part u) \<noteq> Null
     then do { c \<leftarrow> load m (buf (u_opaque_part u)) 0; Some (c = CHR ''/'') }
     else Some False)"

definition uriaa_resolve_uri :: "mem \<Rightarrow> uriaa \<Rightarrow> uriaa \<Rightarrow> (int \<times> uriaa \<times> mem) option" where
  "uriaa_resolve_uri m u base =
     (if is_current_document u then Some (URIAA_RESULT_IS_CURRENT_DOCUMENT, u, m)
      else if is_init (u_scheme u) then Some (URIAA_RESULT_IS_ABSOLUTE_URI, u, m)
      else do {
        let u = u\<lparr>u_scheme := inherited (u_scheme base)\<rparr>;
        let is_network_path = is_init (u_authority u);
        let u = (if is_network_path then u else u\<lparr>u_authority := inherited (u_authority base)\<rparr>);
        is_absolute_path \<leftarrow> (if is_network_path then Some False else has_absolute_path m u);
        (ok, u, m) \<leftarrow> (if is_network_path \<or> is_absolute_path then Some (True, u, m)
                       else resolve_path m u base);
        if ok then recompose m u (is_network_path \<or> is_absolute_path) else Some (0, u, m) })"

end
