(* ===== verification/Uri_Resolve_Proofs.thy ===== *)
theory Uri_Resolve_Proofs
  imports Uri_Resolve Uri_Contract
begin

text \<open>
  What the loops of \<open>src/url/uriaa_rfc2396_resolve.h\<close> compute, as functions on the characters
  of the path, and what this gives for the resolved path: no \<open>..\<close> segment survives a
  successful resolution.
\<close>

section \<open>Writing one block\<close>

definition upd :: "mem \<Rightarrow> nat \<Rightarrow> char list \<Rightarrow> mem" where
  "upd m a bs = m\<lparr>blocks := (blocks m)(a \<mapsto> bs)\<rparr>"

lemma upd_simps [simp]:
  "blocks (upd m a bs) = (blocks m)(a \<mapsto> bs)" "nalloc (upd m a bs) = nalloc m"
  "oom (upd m a bs) = oom m" "junk (upd m a bs) = junk m"
  "upd (upd m a bs) a bs' = upd m a bs'"
  by (simp_all add: upd_def)

lemma upd_same [simp]: "blocks m a = Some bs \<Longrightarrow> upd m a bs = m"
  by (simp add: upd_def fun_upd_idem)

text \<open>The memory after the block \<open>a\<close> has been allocated.\<close>

definition fresh :: "mem \<Rightarrow> nat \<Rightarrow> char list \<Rightarrow> mem" where
  "fresh m a bs = upd (m\<lparr>nalloc := Suc a\<rparr>) a bs"

lemma fresh_simps [simp]:
  "blocks (fresh m a bs) = (blocks m)(a \<mapsto> bs)" "nalloc (fresh m a bs) = Suc a"
  "oom (fresh m a bs) = oom m" "junk (fresh m a bs) = junk m"
  "upd (fresh m a bs) a bs' = fresh m a bs'"
  by (simp_all add: fresh_def)

lemma c_malloc_fresh:
  "\<not> oom m (nalloc m) \<Longrightarrow>
   c_malloc m n = (Ptr (nalloc m) 0, fresh m (nalloc m) (map (junk m (nalloc m)) [0..<n]))"
  by (simp add: c_malloc_def Let_def fresh_def upd_def)

lemma other_blocks_to_fresh: "mem_ok m \<Longrightarrow> other_blocks m (fresh m (nalloc m) bs) None"
  by (simp add: other_blocks_def mem_ok_def)

lemma store_n_upd:
  "blocks m a = Some bs \<Longrightarrow> r + length cs \<le> length bs \<Longrightarrow>
   store_n m (Ptr a r) cs = Some (upd m a (take r bs @ cs @ drop (r + length cs) bs))"
  by (simp add: store_n_in upd_def)

lemma store_upd:
  "blocks m a = Some bs \<Longrightarrow> i < length bs \<Longrightarrow> store m (Ptr a 0) i c = Some (upd m a (bs[i := c]))"
  by (simp add: store_in upd_def)

section \<open>Moving the tail of a block\<close>

lemma move_back:
  assumes "blocks m a = Some bs" and "seg < j" and "j \<le> n" and "n < length bs"
  shows "\<exists>bs'. c_memmove m (Ptr a seg) (Ptr a j) (n - j + 1) = Some (upd m a bs')
    \<and> length bs' = length bs \<and> drop n bs' = drop n bs
    \<and> take (n - (j - seg)) bs' = take seg (take n bs) @ drop j (take n bs)"
proof -
  let ?bs = "take seg bs @ take (n - j + 1) (drop j bs) @ drop (seg + (n - j + 1)) bs"
  have "load_n m (Ptr a j) (n - j + 1) = Some (take (n - j + 1) (drop j bs))"
    using assms by (intro load_n_in) auto
  moreover have "length (take (n - j + 1) (drop j bs)) = n - j + 1" using assms by simp
  ultimately have "c_memmove m (Ptr a seg) (Ptr a j) (n - j + 1) = Some (upd m a ?bs)"
    using assms by (simp add: c_memmove_def store_n_upd)
  moreover have "take (n - (j - seg)) ?bs = take seg (take n bs) @ drop j (take n bs)"
  proof -
    obtain k where k: "n = j + k" using assms(3) le_iff_add by blast
    have e: "n - (j - seg) = seg + k" using assms k by simp
    show ?thesis unfolding e using assms by (simp add: k drop_take)
  qed
  moreover have "length ?bs = length bs" using assms by simp
  moreover have "drop n ?bs = drop n bs" using assms by simp
  ultimately show ?thesis by blast
qed

lemma nul_behind:
  assumes "NUL \<in> set (drop n bs)" and "k \<le> n" and "drop n bs' = drop n bs"
  shows "NUL \<in> set (drop k bs')"
  using assms set_drop_subset_set_drop [OF assms(2), of bs'] by auto

lemma nul_behind_length: "NUL \<in> set (drop n bs) \<Longrightarrow> n < length bs"
  by (rule ccontr) simp

lemma drop_same_behind: "drop k xs = drop k ys \<Longrightarrow> k \<le> n \<Longrightarrow> drop n xs = drop n ys"
  by (metis drop_drop le_add_diff_inverse2)

lemma load_in: "blocks m a = Some bs \<Longrightarrow> i < length bs \<Longrightarrow> load m (Ptr a 0) i = Some (bs ! i)"
  by (simp add: load_def)

section \<open>The loops on characters\<close>

text \<open>The bytes of a block after a loop on its first \<open>n\<close>: the text \<open>cs\<close>, and behind \<open>n\<close> what was there.\<close>

abbreviation fits :: "nat \<Rightarrow> char list \<Rightarrow> char list \<Rightarrow> char list \<Rightarrow> bool" where
  "fits n bs bs' cs \<equiv> length bs' = length bs \<and> length cs \<le> n \<and> take (length cs) bs' = cs \<and> drop n bs' = drop n bs"

lemma fits_behind:
  "fits k bs1 bs' cs \<Longrightarrow> k \<le> n \<Longrightarrow> length bs1 = length bs \<Longrightarrow> drop n bs1 = drop n bs \<Longrightarrow> fits n bs bs' cs"
  using drop_same_behind [of k bs' bs1 n] by auto

function point_list :: "char list \<Rightarrow> nat \<Rightarrow> nat \<Rightarrow> char list \<times> nat" where
  "point_list cs i seg = (if i < length cs
     then if cs ! i = CHR ''/''
       then if i = seg + 1 \<and> cs ! (i - 1) = CHR ''.''
         then point_list (take seg cs @ drop (i + 1) cs) seg seg
         else point_list cs (i + 1) (i + 1)
       else point_list cs (i + 1) seg
     else (cs, seg))"
  by pat_completeness auto
termination
  by (relation "measure (\<lambda>(cs, i, seg). length cs - i)") auto

declare point_list.simps [simp del]

lemma point_loop_eq:
  assumes "blocks m a = Some bs" and "NUL \<in> set (drop n bs)" and "seg \<le> i"
  shows "\<exists>bs'. point_loop m (Ptr a 0) n i seg = (let r = point_list (take n bs) i seg in
      Some (length (fst r), snd r, upd m a bs')) \<and> fits n bs bs' (fst (point_list (take n bs) i seg))"
  using assms
proof (induction "n - i" arbitrary: m bs n i seg rule: less_induct)
  case less
  let ?cs = "take n bs"
  have nb: "n < length bs" using nul_behind_length [OF less(3)] .
  then have len: "length ?cs = n" by simp
  show ?case
  proof (cases "i < n")
    case False
    with less(2) nb len show ?thesis
      by (auto simp: point_loop.simps [of m _ n] point_list.simps [of ?cs] intro!: exI [of _ bs])
  next
    case True
    then have ld: "load m (Ptr a 0) i = Some (?cs ! i)" "i > 0 \<Longrightarrow> load m (Ptr a 0) (i - 1) = Some (?cs ! (i - 1))"
      using less(2) nb by (auto simp: load_in)
    note unf = point_loop.simps [of m "Ptr a 0" n i seg] point_list.simps [of ?cs i seg]
    show ?thesis
    proof (cases "?cs ! i = CHR ''/'' \<and> i = seg + 1 \<and> ?cs ! (i - 1) = CHR ''.''")
      case False
      then show ?thesis
        using less(1) [OF _ less(2,3), of "i + 1" "i + 1"] less(1) [OF _ less(2,3), of "i + 1" seg]
          True ld len less(4) unfolding unf by (cases "?cs ! i = CHR ''/''") auto
    next
      case dot: True
      then have d: "?cs ! i = CHR ''/''" "i = seg + 1" "?cs ! (i - 1) = CHR ''.''" by blast+
      obtain bs1 where b: "c_memmove m (Ptr a seg) (Ptr a (i + 1)) (n - (i + 1) + 1) =
            Some (upd m a bs1)" "length bs1 = length bs" "drop n bs1 = drop n bs"
          "take (n - (i + 1 - seg)) bs1 = take seg ?cs @ drop (i + 1) ?cs"
        using move_back [OF less(2), of seg "i + 1" n] True less(4) nb by auto
      let ?n = "n - (i + 1 - seg)" and ?m = "upd m a bs1"
      have nul: "NUL \<in> set (drop ?n bs1)" by (rule nul_behind [OF less(3) _ b(3)]) simp
      then have "NUL \<in> set bs1" by (rule in_set_dropD)
      then obtain k where k: "c_strlen ?m (Ptr a 0) = Some k" using c_strlen_block [of ?m a bs1] by auto
      have n: "n - (i + 1) + 1 = n - i" using True by simp
      have step: "point_loop m (Ptr a 0) n i seg = point_loop ?m (Ptr a 0) ?n seg seg"
          "point_list ?cs i seg = point_list (take ?n bs1) seg seg"
        using True ld len b n d k unfolding unf by simp_all
      have "?n - seg < n - i" using True dot by auto
      from less(1) [OF this _ nul order_refl, of ?m] obtain bs2 where
        2: "point_loop ?m (Ptr a 0) ?n seg seg = (let r = point_list (take ?n bs1) seg seg in
          Some (length (fst r), snd r, upd m a bs2))" "fits ?n bs1 bs2 (fst (point_list (take ?n bs1) seg seg))"
        by auto
      from fits_behind [OF 2(2) diff_le_self b(2,3)] 2(1) show ?thesis unfolding step by blast
    qed
  qed
qed

text \<open>The two tests of the loop that removes \<open><segment>/../\<close>.\<close>

definition is_at :: "char list \<Rightarrow> nat \<Rightarrow> char \<Rightarrow> bool" where
  "is_at cs i c \<longleftrightarrow> i < length cs \<and> cs ! i = c"

definition up_before :: "char list \<Rightarrow> nat \<Rightarrow> nat \<Rightarrow> bool" where
  "up_before cs i seg \<longleftrightarrow> i = seg + 2 \<and> is_at cs (i - 1) (CHR ''.'') \<and> is_at cs (i - 2) (CHR ''.'')"

definition dd_after :: "char list \<Rightarrow> nat \<Rightarrow> bool" where
  "dd_after cs i \<longleftrightarrow> is_at cs (i + 1) (CHR ''.'') \<and> is_at cs (i + 2) (CHR ''.'')"

function points_list :: "char list \<Rightarrow> nat \<Rightarrow> nat \<Rightarrow> char list" where
  "points_list cs i seg = (if i < length cs
     then if cs ! i = CHR ''/''
       then if up_before cs i seg then points_list cs (i + 1) (i + 1)
         else if dd_after cs i
         then if is_at cs (i + 3) (CHR ''/'') then points_list (take (min seg i) cs @ drop (i + 4) cs) 0 0
           else if i + 3 = length cs then points_list (take (min seg i) cs) 0 0
           else points_list cs (i + 1) seg
         else points_list cs (i + 1) (i + 1)
       else points_list cs (i + 1) seg
     else cs)"
  by pat_completeness auto
termination
  by (relation "measures [\<lambda>(cs, i, seg). length cs, \<lambda>(cs, i, seg). of_bool (i < seg),
        \<lambda>(cs, i, seg). length cs - i]")
    (auto split: if_splits simp: is_at_def)

declare points_list.simps [simp del]

text \<open>The tests of the loop, read from the block, are those tests on its first \<open>n\<close> characters.\<close>

lemma points_tests:
  assumes "blocks m a = Some bs" and "n < length bs" and "i < n"
  shows "(if i = seg + 2 then dots_before m (Ptr a 0) i else Some False)
      = Some (up_before (take n bs) i seg)"
    and "dots_after m (Ptr a 0) n i = Some (dd_after (take n bs) i)"
    and "(if i + 3 < n then do { d \<leftarrow> load m (Ptr a 0) (i + 3); Some (d = CHR ''/'') } else Some False)
      = Some (is_at (take n bs) (i + 3) (CHR ''/''))"
proof -
  have byte: "k < n \<Longrightarrow> load m (Ptr a 0) k = Some (bs ! k)" for k
    using assms(1,2) by (simp add: load_in)
  show "(if i = seg + 2 then dots_before m (Ptr a 0) i else Some False)
      = Some (up_before (take n bs) i seg)"
    using byte [of "i - 1"] byte [of "i - 2"] assms(2,3)
    by (auto simp: dots_before_def up_before_def is_at_def)
  show "dots_after m (Ptr a 0) n i = Some (dd_after (take n bs) i)"
    using byte [of "i + 1"] byte [of "i + 2"] assms(2,3)
    by (auto simp: dots_after_def dd_after_def is_at_def)
  show "(if i + 3 < n then do { d \<leftarrow> load m (Ptr a 0) (i + 3); Some (d = CHR ''/'') } else Some False)
      = Some (is_at (take n bs) (i + 3) (CHR ''/''))"
    using byte [of "i + 3"] assms(2) by (auto simp: is_at_def)
qed

text \<open>
  A segment is moved out and the loop restarts: what the restarted loop computes on the shorter
  text is what the whole computes.
\<close>

lemma points_shift:
  assumes bs: "blocks m a = Some bs" and nul: "NUL \<in> set (drop n bs)" and seg: "seg \<le> i" and i: "i < n"
    and k: "0 < k" "i + k \<le> n" and cs: "cs = take (min seg i) (take n bs) @ drop (i + k) (take n bs)"
    and restart: "\<And>m1 bs1 n2. \<lbrakk>blocks m1 a = Some bs1; n2 < n; NUL \<in> set (drop n2 bs1)\<rbrakk> \<Longrightarrow>
      \<exists>bs'. points_loop m1 (Ptr a 0) n2 0 0
          = Some (length (points_list (take n2 bs1) 0 0), upd m1 a bs')
        \<and> fits n2 bs1 bs' (points_list (take n2 bs1) 0 0)"
  shows "\<exists>bs'. (do { m \<leftarrow> c_memmove m (Ptr a seg) (Ptr a (i + k)) (n - i - k + 1);
      _ \<leftarrow> c_strlen m (Ptr a 0);
      points_loop m (Ptr a 0) (n - (i + k - seg)) 0 0 }) =
    Some (length (points_list cs 0 0), upd m a bs') \<and> fits n bs bs' (points_list cs 0 0)"
proof -
  have ms: "min seg i = seg" using seg by simp
  obtain bs1 where b: "c_memmove m (Ptr a seg) (Ptr a (i + k)) (n - (i + k) + 1) = Some (upd m a bs1)"
      "length bs1 = length bs" "drop n bs1 = drop n bs" "take (n - (i + k - seg)) bs1 = cs"
    using move_back [OF bs _ k(2) nul_behind_length [OF nul], of seg] seg k(1) unfolding cs ms by auto
  define n2 where "n2 = n - (i + k - seg)"
  have n2: "n2 < n" using k seg i by (auto simp: n2_def)
  have nul2: "NUL \<in> set (drop n2 bs1)" using nul_behind [OF nul _ b(3)] n2 by simp
  then have "NUL \<in> set bs1" by (rule in_set_dropD)
  then obtain l where l: "c_strlen (upd m a bs1) (Ptr a 0) = Some l" using c_strlen_block [of "upd m a bs1" a bs1] by auto
  obtain bs2 where 2: "points_loop (upd m a bs1) (Ptr a 0) n2 0 0 =
        Some (length (points_list cs 0 0), upd m a bs2)" "fits n2 bs1 bs2 (points_list cs 0 0)"
    using restart [of "upd m a bs1" bs1 n2] b(4) n2 nul2 by (auto simp: n2_def [symmetric])
  from fits_behind [OF 2(2) less_imp_le [OF n2] b(2,3)] 2(1) b(1) l show ?thesis
    unfolding n2_def [symmetric] by (auto intro!: exI [of _ bs2])
qed

lemma points_loop_eq:
  assumes "blocks m a = Some bs" and "NUL \<in> set (drop n bs)" and "seg \<le> i"
  defines "r \<equiv> points_list (take n bs) i seg"
  shows "\<exists>bs'. points_loop m (Ptr a 0) n i seg = Some (length r, upd m a bs') \<and> fits n bs bs' r"
  using assms(1-3) unfolding r_def
proof (induction "(n, n - i)" arbitrary: m bs n i seg
    rule: wf_induct_rule [OF wf_lex_prod [OF wf_less_than wf_less_than]])
  case (1 n i m bs seg)
  note IH = "1.hyps" and bs = "1.prems"(1) and nul = "1.prems"(2) and seg = "1.prems"(3)
  have n: "n < length bs" using nul_behind_length [OF nul] .
  let ?cs = "take n bs"
  have len: "length ?cs = n" using n by simp
  note unf = points_loop.simps [of m "Ptr a 0" n i seg] points_list.simps [of ?cs i seg]
  show ?case
  proof (cases "i < n")
    case False
    with bs n len show ?thesis unfolding unf by (auto simp: intro!: exI [of _ bs])
  next
    case i: True
    have byte: "k < n \<Longrightarrow> load m (Ptr a 0) k = Some (bs ! k)" for k
      using bs n by (simp add: load_in)
    note tests = points_tests(1) [OF bs n i, of seg] points_tests(2,3) [OF bs n i]
    have ahead: "\<exists>bs'. points_loop m (Ptr a 0) n (i + 1) s =
          Some (length (points_list ?cs (i + 1) s), upd m a bs') \<and> fits n bs bs' (points_list ?cs (i + 1) s)"
      if "s \<le> i + 1" for s
      using IH [of n "i + 1" m bs s] i bs nul that by simp
    have restart: "\<exists>bs'. points_loop m1 (Ptr a 0) n2 0 0
          = Some (length (points_list (take n2 bs1) 0 0), upd m1 a bs')
        \<and> fits n2 bs1 bs' (points_list (take n2 bs1) 0 0)"
      if "blocks m1 a = Some bs1" "n2 < n" "NUL \<in> set (drop n2 bs1)" for m1 bs1 n2
      using IH [of n2 0 m1 bs1 0] that by simp
    note shift = points_shift [OF bs nul seg i _ _ _ restart]
    show ?thesis
    proof (cases "?cs ! i = CHR ''/'' \<and> \<not> up_before ?cs i seg \<and> dd_after ?cs i")
      case False
      then show ?thesis
        using i byte [OF i] len n seg tests ahead [of "i + 1"] ahead [of seg] unfolding unf by auto
    next
      case True
      then have c: "load m (Ptr a 0) i = Some (CHR ''/'')" using byte [OF i] i by simp
      note use = i len True c tests
      consider (sl) "is_at ?cs (i + 3) (CHR ''/'')" | (fin) "\<not> is_at ?cs (i + 3) (CHR ''/'')" "i + 3 = n"
        | (other) "\<not> is_at ?cs (i + 3) (CHR ''/'')" "i + 3 \<noteq> n" by blast
      then show ?thesis
      proof cases
        case sl
        then have "0 < (4::nat)" "i + 4 \<le> n" using len by (auto simp: is_at_def)
        from shift [OF this refl] use sl show ?thesis unfolding unf by simp
      next
        case fin
        then have "0 < (3::nat)" "i + 3 \<le> n" by auto
        from shift [OF this refl] use fin show ?thesis unfolding unf by simp
      next
        case other
        with ahead [of seg] use seg show ?thesis unfolding unf by simp
      qed
    qed
  qed
qed

section \<open>What the lead test rejects\<close>

lemma lead_loop_eq:
  assumes "blocks m a = Some bs" and "take n bs = cs" and "length cs = n"
    and "take 3 cs = ''../'' \<or> cs = ''..''"
  shows "lead_loop m (Ptr a 0) n 0 0 = Some True"
proof -
  have "n \<le> length bs" using assms(2,3) by auto
  then have byte: "k < n \<Longrightarrow> load m (Ptr a 0) k = Some (cs ! k)" for k
    using assms(1,2) by (auto simp: load_in)
  have "cs = ''../'' @ drop 3 cs \<or> cs = ''..''"
    using assms(4) by (metis append_take_drop_id)
  then have cs: "(n = 2 \<or> n \<ge> 3 \<and> cs ! 2 = CHR ''/'') \<and> n \<ge> 2 \<and> cs ! 0 = CHR ''.'' \<and> cs ! 1 = CHR ''.''"
  proof
    assume e: "cs = ''../'' @ drop 3 cs"
    then have "length cs = 3 + length (drop 3 cs)" by (metis length_append length_Cons list.size(3)
        numeral_3_eq_3)
    moreover have "cs ! 2 = CHR ''/'' \<and> cs ! 0 = CHR ''.'' \<and> cs ! 1 = CHR ''.''"
      by (subst (1 2 3) e) simp
    ultimately show ?thesis using assms(3) by simp
  qed (use assms(3) in auto)
  show ?thesis
    using cs byte [of 0] byte [of 1] byte [of 2]
    by (auto simp: lead_loop.simps [of m _ n 0] lead_loop.simps [of m _ n "Suc 0"]
        lead_loop.simps [of m _ n "Suc (Suc 0)"] lead_end_def dots_before_def numeral_2_eq_2)
qed

section \<open>No dot-dot segment survives\<close>

definition followed :: "char list \<Rightarrow> nat \<Rightarrow> bool" where
  "followed cs j \<longleftrightarrow> is_at cs j (CHR ''/'') \<and> dd_after cs j
     \<and> (j + 3 = length cs \<or> is_at cs (j + 3) (CHR ''/''))"

definition preceded :: "char list \<Rightarrow> nat \<Rightarrow> bool" where
  "preceded cs j \<longleftrightarrow> 2 \<le> j \<and> is_at cs (j - 1) (CHR ''.'') \<and> is_at cs (j - 2) (CHR ''.'')
     \<and> (j = 2 \<or> is_at cs (j - 3) (CHR ''/''))"

definition points_inv :: "char list \<Rightarrow> nat \<Rightarrow> nat \<Rightarrow> bool" where
  "points_inv cs i seg \<longleftrightarrow> seg \<le> i \<and> (seg = 0 \<or> is_at cs (seg - 1) (CHR ''/''))
     \<and> (\<forall>j < i. followed cs j \<longrightarrow> preceded cs j)"

lemma points_inv_step:
  assumes "points_inv cs i seg" and "followed cs i \<Longrightarrow> preceded cs i"
    and "s = seg \<or> s = i + 1 \<and> is_at cs i (CHR ''/'')"
  shows "points_inv cs (i + 1) s"
  using assms by (auto simp: points_inv_def less_Suc_eq)

lemma up_preceded: "points_inv cs i seg \<Longrightarrow> up_before cs i seg \<Longrightarrow> preceded cs i"
  by (auto simp: points_inv_def up_before_def preceded_def numeral_3_eq_3)

lemma points_list_stable:
  "points_inv cs i seg \<Longrightarrow> followed (points_list cs i seg) j \<Longrightarrow> preceded (points_list cs i seg) j"
proof (induction cs i seg rule: points_list.induct)
  case (1 cs i seg)
  have z: "points_inv ds 0 0" for ds by (simp add: points_inv_def)
  show ?case
  proof (cases "i < length cs")
    case False
    with "1.prems" show ?thesis
      by (auto simp: points_list.simps [of cs i seg] points_inv_def followed_def is_at_def)
  next
    case i: True
    note step = points_inv_step [OF "1.prems"(1)]
    show ?thesis
    proof (cases "cs ! i = CHR ''/''")
      case False
      then have "\<not> followed cs i" by (simp add: followed_def is_at_def)
      then have "points_inv cs (i + 1) seg" by (intro step) auto
      with 1 False i show ?thesis by (simp add: points_list.simps [of cs i seg])
    next
      case sl: True
      then have at_i: "is_at cs i (CHR ''/'')" using i by (simp add: is_at_def)
      show ?thesis
      proof (cases "up_before cs i seg")
        case True
        then have "points_inv cs (i + 1) (i + 1)"
          using up_preceded [OF "1.prems"(1)] at_i by (intro step) auto
        with 1 True sl i show ?thesis by (simp add: points_list.simps [of cs i seg])
      next
        case up: False
        show ?thesis
        proof (cases "dd_after cs i")
          case False
          then have "points_inv cs (i + 1) (i + 1)"
            using at_i by (intro step) (auto simp: followed_def)
          with 1 False up sl i show ?thesis by (simp add: points_list.simps [of cs i seg])
        next
          case dd: True
          consider (sl) "is_at cs (i + 3) (CHR ''/'')"
            | (fin) "\<not> is_at cs (i + 3) (CHR ''/'')" "i + 3 = length cs"
            | (other) "\<not> is_at cs (i + 3) (CHR ''/'')" "i + 3 \<noteq> length cs" by blast
          then show ?thesis
          proof cases
            case sl
            with 1 z dd up \<open>cs ! i = _\<close> i show ?thesis by (simp add: points_list.simps [of cs i seg])
          next
            case fin
            with 1 z dd up sl i show ?thesis by (simp add: points_list.simps [of cs i seg])
          next
            case other
            then have "points_inv cs (i + 1) seg" by (intro step) (auto simp: followed_def)
            with 1 other dd up sl i show ?thesis by (simp add: points_list.simps [of cs i seg])
          qed
        qed
      qed
    qed
  qed
qed

text \<open>The segments of a path, and the position of one of them.\<close>

fun split_path :: "char list \<Rightarrow> char list \<Rightarrow> char list list" where
  "split_path cur [] = [cur]"
| "split_path cur (c # cs) = (if c = CHR ''/'' then cur # split_path [] cs
     else split_path (cur @ [c]) cs)"

definition segments :: "char list \<Rightarrow> char list list" where
  "segments cs = split_path [] cs"


text \<open>
  A path in which no slash is followed by \<open>..\<close> unless \<open>..\<close> precedes it, and that does not begin
  with \<open>..\<close>, has no \<open>..\<close> segment.
\<close>

lemma followed_lead:
  assumes "\<And>j. followed cs j \<Longrightarrow> preceded cs j" and "followed cs j"
  shows "take 3 cs = ''../''"
  using assms(2)
proof (induction j rule: less_induct)
  case (less j)
  from assms(1) [OF less(2)] have p: "preceded cs j" .
  show ?case
  proof (cases "j = 2")
    case True
    have "is_at cs 0 (CHR ''.'')" "is_at cs 1 (CHR ''.'')" "is_at cs 2 (CHR ''/'')"
      using p less(2) True by (auto simp: preceded_def followed_def)
    then show ?thesis
      by (auto simp: is_at_def numeral_3_eq_3 numeral_2_eq_2 take_Suc_conv_app_nth)
  next
    case False
    then have j: "3 \<le> j" using p by (auto simp: preceded_def)
    then have "Suc (j - 3) = j - 2" "Suc (j - 2) = j - 1" "j - 3 + 3 = j" by auto
    then have "followed cs (j - 3)"
      using p less(2) False j by (auto simp: preceded_def followed_def dd_after_def)
    with less(1) [of "j - 3"] j show ?thesis by simp
  qed
qed


section \<open>The test for leading dot-dot segments\<close>

definition leads_up :: "char list \<Rightarrow> bool" where
  "leads_up cs \<longleftrightarrow> take 3 cs = ''../'' \<or> cs = ''..''"

text \<open>A \<open>..\<close> segment at \<open>seg\<close>, in a path that has them only at its start.\<close>

lemma up_at:
  assumes "\<And>j. followed cs j \<Longrightarrow> preceded cs j" and "seg = 0 \<or> is_at cs (seg - 1) (CHR ''/'')"
    and "is_at cs seg (CHR ''.'')" and "is_at cs (seg + 1) (CHR ''.'')"
    and "seg + 2 = length cs \<or> is_at cs (seg + 2) (CHR ''/'')"
  shows "leads_up cs"
proof (cases seg)
  case 0
  then have "length cs = 2 \<and> cs ! 0 = CHR ''.'' \<and> cs ! 1 = CHR ''.''
      \<or> 2 < length cs \<and> cs ! 0 = CHR ''.'' \<and> cs ! 1 = CHR ''.'' \<and> cs ! 2 = CHR ''/''"
    using assms(3-5) by (auto simp: is_at_def numeral_2_eq_2)
  then show ?thesis
    by (cases cs; cases "tl cs"; cases "tl (tl cs)") (auto simp: leads_up_def numeral_3_eq_3 numeral_2_eq_2)
next
  case (Suc j)
  with assms(2-5) have "followed cs j"
    by (auto simp: followed_def dd_after_def numeral_3_eq_3 numeral_2_eq_2)
  from followed_lead [OF assms(1) this] show ?thesis by (simp add: leads_up_def)
qed

lemma lead_loop_value:
  assumes "blocks m a = Some bs" and "n \<le> length bs" and "\<And>j. followed (take n bs) j \<Longrightarrow> preceded (take n bs) j"
  shows "seg \<le> i \<Longrightarrow> seg = 0 \<or> is_at (take n bs) (seg - 1) (CHR ''/'') \<Longrightarrow>
    \<exists>b. lead_loop m (Ptr a 0) n i seg = Some b \<and> (b \<longrightarrow> leads_up (take n bs))"
proof (induction "n - i" arbitrary: i seg rule: less_induct)
  case less
  let ?cs = "take n bs"
  have len: "length ?cs = n" using assms(2) by simp
  have byte: "j < n \<Longrightarrow> load m (Ptr a 0) j = Some (?cs ! j)" for j
    using assms(1,2) by (simp add: load_in)
  note up = up_at [OF assms(3) less.prems(2)]
  have le: "\<exists>b. lead_end m (Ptr a 0) n seg = Some b \<and> (b \<longrightarrow> leads_up ?cs)"
    using byte [of seg] byte [of "seg + 1"] up len by (auto simp: lead_end_def is_at_def)
  show ?case
  proof (cases "i < n")
    case False
    with le show ?thesis by (simp add: lead_loop.simps [of _ _ n i])
  next
    case True
    have b: "(if i = seg + 2 then dots_before m (Ptr a 0) i else Some False) = Some (up_before ?cs i seg)"
      using byte [of "i - 1"] byte [of "i - 2"] True len by (auto simp: dots_before_def up_before_def is_at_def)
    have lead: "leads_up ?cs" if "up_before ?cs i seg" "?cs ! i = CHR ''/''"
      using up that True len by (auto simp: up_before_def is_at_def)
    have "\<exists>b. lead_loop m (Ptr a 0) n (i + 1) seg = Some b \<and> (b \<longrightarrow> leads_up ?cs)"
      using less.hyps [of "i + 1" seg] less.prems True by simp
    moreover have "\<exists>b. lead_loop m (Ptr a 0) n (i + 1) (i + 1) = Some b \<and> (b \<longrightarrow> leads_up ?cs)"
      if "?cs ! i = CHR ''/''"
      using less.hyps [of "i + 1" "i + 1"] True that len by (simp add: is_at_def)
    ultimately show ?thesis
      using True byte [of i] b le lead unfolding lead_loop.simps [of _ _ n i]
      by (cases "up_before ?cs i seg"; cases "?cs ! i = CHR ''/''"; cases "i > seg") auto
  qed
qed

section \<open>Merging\<close>

text \<open>A last \<open>.\<close> becomes a zero byte.\<close>

definition pass_list :: "char list \<Rightarrow> char list" where
  "pass_list cs = (case point_list cs 0 0 of (ds, seg) \<Rightarrow>
     if seg + 1 = length ds \<and> ds ! seg = CHR ''.'' then ds[seg := NUL] else ds)"

lemma point_pass_eq:
  assumes "blocks m a = Some bs" and "NUL \<in> set (drop n bs)"
  shows "\<exists>bs'. point_pass m (Ptr a 0) n = Some (length (pass_list (take n bs)), upd m a bs')
    \<and> fits n bs bs' (pass_list (take n bs))"
proof -
  obtain ds seg where ds: "point_list (take n bs) 0 0 = (ds, seg)" by fastforce
  obtain bs1 where b: "point_loop m (Ptr a 0) n 0 0 = Some (length ds, seg, upd m a bs1)" "fits n bs bs1 ds"
    using point_loop_eq [OF assms le0, of 0] ds by (auto simp: Let_def)
  show ?thesis
  proof (cases "seg + 1 = length ds")
    case False
    with b ds show ?thesis by (auto simp: point_pass_def pass_list_def)
  next
    case True
    then have seg: "seg < length bs1" "seg < n" using b(2) nul_behind_length [OF assms(2)] by auto
    have "ds ! seg = bs1 ! seg" using b(2) True by (metis less_add_one nth_take)
    then have "load (upd m a bs1) (Ptr a 0) seg = Some (ds ! seg)"
        "store (upd m a bs1) (Ptr a 0) seg NUL = Some (upd m a (bs1[seg := NUL]))"
      using seg by (simp_all add: load_in store_upd)
    moreover have "fits n bs (bs1[seg := NUL]) (ds[seg := NUL])"
      using b(2) seg(2) True by (auto simp: take_update_swap)
    ultimately show ?thesis
      using b True ds by (cases "ds ! seg = CHR ''.''") (auto simp: point_pass_def pass_list_def)
  qed
qed

lemma copy_into:
  assumes "blocks m a = Some bs" and "load_n m p k = Some cs" and "k = 0 \<or> block_of p \<noteq> Some a"
    and "r + k \<le> length bs"
  shows "c_memcpy m (Ptr a r) p k = Some (upd m a (take r bs @ cs @ drop (r + k) bs))"
proof -
  have "\<not> overlap (Ptr a r) p k" using assms(3) by (cases p) auto
  moreover have "length cs = k" using assms(2) by (rule load_n_length)
  ultimately show ?thesis
    using assms by (simp add: c_memcpy_def c_memmove_def store_n_upd)
qed

text \<open>A part that the resolution may read: its bytes are live.\<close>

lemma readable_copy:
  "readable m x \<Longrightarrow> load_n m (buf x) (copy_size x) = Some (take (copy_size x) (chars m x))"
  using load_n_readable [of m x 0 "copy_size x"] by (auto simp: copy_size_def)

lemma readable_old:
  assumes "mem_ok m" and "load_n m p k = Some cs"
  shows "k = 0 \<or> block_of p \<noteq> Some (nalloc m)"
  using load_n_block [OF assms(2)] mem_ok_lt [OF assms(1)] by fastforce

lemma last_slash_ok:
  assumes "readable m x" and "i < write_pos x" and "peek (chars m x) 0 = CHR ''/''"
  shows "\<exists>k. last_slash m (buf x) i = Some k \<and> k \<le> write_pos x \<and> 0 < k"
  using assms(2)
proof (induction i)
  case 0
  then show ?case using assms(1,3) by (auto simp: last_slash.simps [of m _ 0] load_readable)
next
  case (Suc i)
  then obtain k where "last_slash m (buf x) i = Some k \<and> k \<le> write_pos x \<and> 0 < k" by auto
  with Suc.prems assms(1) show ?case
    by (auto simp: last_slash.simps [of m _ "Suc i"] load_readable)
qed

definition base_ok :: "mem \<Rightarrow> stringaa \<Rightarrow> bool" where
  "base_ok m a \<longleftrightarrow> readable m a \<and> (is_init a \<longrightarrow> 0 < write_pos a \<and> peek (chars m a) 0 = CHR ''/'')"

lemma base_path_size_ok:
  assumes "base_ok m a"
  shows "\<exists>k. base_path_size m a = Some k \<and> k \<le> write_pos a"
proof (cases "is_init a \<and> buf a \<noteq> Null \<and> write_pos a > 0")
  case True
  let ?j = "let i = write_pos a - 1 in if i > 0 \<and> is_null_terminated a then i - 1 else i"
  have "?j < write_pos a" using True by (auto simp: Let_def)
  then obtain k where "last_slash m (buf a) ?j = Some k \<and> k \<le> write_pos a \<and> 0 < k"
    using last_slash_ok [of m a ?j] assms True by (auto simp: base_ok_def)
  with True show ?thesis by (auto simp: base_path_size_def Let_def)
next
  case False
  then show ?thesis by (auto simp: base_path_size_def)
qed

lemma other_blocks_load_any:
  assumes "other_blocks m m' None" and "mem_ok m" and "load_n m p k = Some cs"
  shows "load_n m' p k = Some cs"
  using other_blocks_load_n [OF assms] load_n_block [OF assms(3)] by fastforce

lemma guarded_copy:
  assumes "load_n m p k = Some cs"
  shows "(if p \<noteq> Null \<and> k \<noteq> 0 then c_memcpy m dst p k else Some m) =
    (if k \<noteq> 0 then c_memcpy m dst p k else Some m)"
  using load_n_block [OF assms] by auto

definition merged :: "mem \<Rightarrow> uriaa \<Rightarrow> uriaa \<Rightarrow> char list" where
  "merged m u base = take (the (base_path_size m (u_abs_path base))) (chars m (u_abs_path base))
     @ take (rel_path_size (u_rel_path u)) (chars m (u_rel_path u))"

lemma merge_paths_ok:
  assumes m: "mem_ok m" "\<not> oom m (nalloc m)"
    and ok: "base_ok m (u_abs_path base)" "readable m (u_rel_path u)" "\<not> is_alloc (u_path u)"
  defines "n \<equiv> length (merged m u base)" and "a \<equiv> nalloc m"
  shows "\<exists>bs x. merge_paths m u base = Some (Some n, u\<lparr>u_path := x\<rparr>, fresh m a bs)
    \<and> buf x = Ptr a 0 \<and> is_init x \<and> is_null_terminated x \<and> length bs = n + 1
    \<and> take n bs = merged m u base \<and> bs ! n = NUL"
proof -
  obtain bn where bn: "base_path_size m (u_abs_path base) = Some bn" "bn \<le> write_pos (u_abs_path base)"
    using base_path_size_ok [OF ok(1)] by blast
  define rn where "rn = rel_path_size (u_rel_path u)"
  have rn: "rn \<le> write_pos (u_rel_path u)" by (auto simp: rn_def rel_path_size_def copy_size_def)
  define c1 where "c1 = take bn (chars m (u_abs_path base))"
  define c2 where "c2 = take rn (chars m (u_rel_path u))"
  have mg: "merged m u base = c1 @ c2" "n = bn + rn" "length c1 = bn" "length c2 = rn"
    using bn rn by (simp_all add: merged_def n_def c1_def c2_def rn_def)
  let ?b = "buf (u_abs_path base)" and ?r = "buf (u_rel_path u)"
  let ?M = "\<lambda>bs. fresh m a bs"
  define bs0 where "bs0 = map (junk m a) [0..<n + 1]"
  have len0: "length bs0 = n + 1" by (simp add: bs0_def)
  have al: "c_malloc m (n + 1) = (Ptr a 0, ?M bs0)"
    using m(2) by (simp add: c_malloc_fresh a_def bs0_def del: upt_Suc)
  have l1: "load_n m ?b bn = Some c1" and l2: "load_n m ?r rn = Some c2"
    using load_n_readable [of m "u_abs_path base" 0 bn] load_n_readable [of m "u_rel_path u" 0 rn]
      ok(1,2) bn(2) rn by (auto simp: base_ok_def c1_def c2_def)
  have other: "other_blocks m (?M bs) None" for bs
    using other_blocks_to_fresh [OF m(1)] by (simp add: a_def)
  have into: "c_memcpy (?M bs) (Ptr a r) p k = Some (?M (take r bs @ cs @ drop (r + k) bs))"
    if "load_n m p k = Some cs" "r + k \<le> length bs" for p k cs r bs
    using copy_into [of "?M bs" a bs p k cs r] other_blocks_load_any [OF other m(1) that(1)]
      readable_old [OF m(1) that(1)] that(2) by (simp add: a_def)
  have s1: "(if ?b \<noteq> Null \<and> bn \<noteq> 0 then c_memcpy (?M bs0) (Ptr a 0) ?b bn else Some (?M bs0))
      = Some (?M (c1 @ drop bn bs0))"
    unfolding guarded_copy [OF other_blocks_load_any [OF other m(1) l1]]
    using into [OF l1, of 0 bs0] mg len0 by (cases "bn = 0") auto
  define bs2 where "bs2 = c1 @ c2 @ drop n bs0"
  have len2: "length bs2 = n + 1" using mg len0 by (simp add: bs2_def)
  have s2: "(if ?r \<noteq> Null \<and> rn \<noteq> 0 then c_memcpy (?M (c1 @ drop bn bs0)) (padd (Ptr a 0) bn) ?r rn
      else Some (?M (c1 @ drop bn bs0))) = Some (?M bs2)"
    unfolding guarded_copy [OF other_blocks_load_any [OF other m(1) l2]]
    using into [OF l2, of bn "c1 @ drop bn bs0"] mg len0 unfolding bs2_def
    by (cases "rn = 0") (auto simp: add.commute)
  let ?bs = "bs2[n := NUL]"
  have s3: "store (?M bs2) (Ptr a 0) n NUL = Some (?M ?bs)"
    using len2 by (simp add: store_upd)
  let ?y = "set_flags [STRINGAA_IS_INIT, STRINGAA_IS_ALLOC, STRINGAA_IS_NULL_TERMINATED]
      ((u_path u)\<lparr>buf := Ptr a 0, buf_size := n + 1, read_pos := 0\<rparr>)"
  let ?x = "?y\<lparr>write_pos := end_of ?y\<rparr>"
  have "merge_paths m u base = Some (Some n, u\<lparr>u_path := ?x\<rparr>, ?M ?bs)"
    by (simp only: merge_paths_def bn(1) rn_def [symmetric] bind.bind_lunit Let_def mg(2) [symmetric]
        al prod.case cptr.distinct if_False s1 s2 add_diff_cancel_right' s3 ok(3) simp_thms)
  moreover have "take n ?bs = merged m u base" "length ?bs = n + 1" "?bs ! n = NUL"
    using mg len2 by (simp_all add: bs2_def)
  moreover have "buf ?x = Ptr a 0" "is_init ?x" "is_null_terminated ?x"
    by (simp_all add: set_flags_def)
  ultimately show ?thesis by blast
qed

section \<open>The resolved path\<close>

text \<open>The merged path after both removals.\<close>

definition removed :: "mem \<Rightarrow> uriaa \<Rightarrow> uriaa \<Rightarrow> char list" where
  "removed m u base = points_list (pass_list (merged m u base)) 0 0"

lemma removed_stable: "followed (removed m u base) j \<Longrightarrow> preceded (removed m u base) j"
  unfolding removed_def by (rule points_list_stable) (simp_all add: points_inv_def)


lemma resolve_path_ok:
  assumes m: "mem_ok m" "\<not> oom m (nalloc m)"
    and ok: "base_ok m (u_abs_path base)" "readable m (u_rel_path u)" "\<not> is_alloc (u_path u)"
  defines "a \<equiv> nalloc m" and "t \<equiv> removed m u base"
  shows "\<exists>bs x. resolve_path m u base = Some (\<not> leads_up t, u\<lparr>u_path := x\<rparr>, fresh m a bs)
    \<and> buf x = Ptr a 0 \<and> is_init x \<and> is_null_terminated x \<and> write_pos x = length t \<and> length t < length bs
    \<and> take (length t) bs = t"
proof -
  let ?M = "\<lambda>bs. fresh m a bs"
  define n where "n = length (merged m u base)"
  obtain bs x where 1: "merge_paths m u base = Some (Some n, u\<lparr>u_path := x\<rparr>, ?M bs)"
      "buf x = Ptr a 0" "is_init x" "is_null_terminated x" "length bs = n + 1" "take n bs = merged m u base" "bs ! n = NUL"
    using merge_paths_ok [OF m ok] by (auto simp: a_def n_def)
  have nul: "NUL \<in> set (drop n bs)" using 1(5,7) by (simp add: Cons_nth_drop_Suc [symmetric])
  let ?p = "pass_list (merged m u base)"
  obtain bs2 where 2: "point_pass (?M bs) (Ptr a 0) n = Some (length ?p, ?M bs2)" "fits n bs bs2 ?p"
    using point_pass_eq [of "?M bs" a bs n] nul 1(6) by auto
  have "drop n bs2 = drop n bs" "length ?p \<le> n" using 2(2) by simp_all
  then have nul2: "NUL \<in> set (drop (length ?p) bs2)" using nul_behind [OF nul] by blast
  obtain bs3 where 3: "points_loop (?M bs2) (Ptr a 0) (length ?p) 0 0 = Some (length t, ?M bs3)"
      "fits (length ?p) bs2 bs3 t"
    using points_loop_eq [of "?M bs2" a bs2 "length ?p" 0 0] nul2 2(2) by (auto simp: t_def removed_def)
  have len: "length t < length bs3" "take (length t) bs3 = t" using 1(5) 2(2) 3(2) by auto
  have "\<exists>b. lead_loop (?M bs3) (Ptr a 0) (length t) 0 0 = Some b \<and> (b \<longrightarrow> leads_up t)"
    using lead_loop_value [of "?M bs3" a bs3 "length t" 0 0] len removed_stable [of m u base]
    by (auto simp: t_def [symmetric])
  moreover have "lead_loop (?M bs3) (Ptr a 0) (length t) 0 0 = Some True" if "leads_up t"
    using lead_loop_eq [of "?M bs3" a bs3 "length t" t] len that by (simp add: leads_up_def)
  ultimately have up: "lead_loop (?M bs3) (Ptr a 0) (length t) 0 0 = Some (leads_up t)"
    by (cases "leads_up t") auto
  let ?x = "x\<lparr>buf_size := length t + 1, write_pos := length t\<rparr>"
  have "resolve_path m u base = Some (\<not> leads_up t, u\<lparr>u_path := ?x\<rparr>, ?M bs3)"
    using 1 2(1) 3(1) up by (simp add: resolve_path_def)
  then show ?thesis using 1(2-4) len by (intro exI [of _ bs3] exI [of _ ?x]) auto
qed

section \<open>Recomposition\<close>

fun part_text :: "mem \<Rightarrow> char list \<times> stringaa \<times> char list \<Rightarrow> char list" where
  "part_text m (pre, x, post) = pre @ take (copy_size x) (chars m x) @ post"

lemma put_part_ok:
  assumes "blocks m a = Some bs" and "readable m x" and "block_of (buf x) \<noteq> Some a \<or> write_pos x = 0"
    and "r + length pre + copy_size x + length post \<le> length bs"
  defines "t \<equiv> part_text m (pre, x, post)"
  shows "\<exists>bs'. put_part m (Ptr a 0) r pre x post = Some (r + length t, upd m a bs')
    \<and> length bs' = length bs \<and> take (r + length t) bs' = take r bs @ t"
proof -
  let ?c = "take (copy_size x) (chars m x)"
  have lc: "length ?c = copy_size x" by (auto simp: copy_size_def)
  have ap: "block_of (buf x) \<noteq> Some a \<or> copy_size x = 0" using assms(3) by (auto simp: copy_size_def)
  let ?b1 = "take r bs @ pre @ drop (r + length pre) bs"
  let ?r1 = "r + length pre"
  have s1: "store_n m (Ptr a r) pre = Some (upd m a ?b1)"
    using store_n_upd [OF assms(1)] assms(4) by simp
  have l1: "length ?b1 = length bs" using assms(4) by simp
  have ld: "load_n (upd m a ?b1) (buf x) (copy_size x) = Some ?c"
  proof (cases "copy_size x = 0")
    case True
    then show ?thesis by (simp add: load_n_def)
  next
    case False
    then obtain b off where x: "buf x = Ptr b off"
      using readable_copy [OF assms(2)] load_n_block by blast
    then have "blocks (upd m a ?b1) b = blocks m b" using ap False by simp
    from load_n_same [OF this] readable_copy [OF assms(2)] x show ?thesis by simp
  qed
  let ?b2 = "take ?r1 ?b1 @ ?c @ drop (?r1 + copy_size x) ?b1"
  have s2: "c_memcpy (upd m a ?b1) (Ptr a ?r1) (buf x) (copy_size x) = Some (upd m a ?b2)"
    using copy_into [of "upd m a ?b1" a ?b1 _ _ _ ?r1, OF _ ld] ap assms(4) l1 by auto
  let ?r2 = "?r1 + copy_size x"
  have l2: "length ?b2 = length bs" using l1 lc assms(4) by simp
  let ?b3 = "take ?r2 ?b2 @ post @ drop (?r2 + length post) ?b2"
  have s3: "store_n (upd m a ?b2) (Ptr a ?r2) post = Some (upd m a ?b3)"
    using store_n_upd [of "upd m a ?b2" a ?b2 ?r2 post] assms(4) l2 by simp
  have l3: "length ?b3 = length bs" using l2 assms(4) by simp
  have "put_part m (Ptr a 0) r pre x post = Some (r + length t, upd m a ?b3)"
    using s1 s2 s3 lc by (simp add: put_part_def t_def Let_def add.assoc)
  moreover have "take (r + length t) ?b3 = take r bs @ t"
    using assms(4) lc l1 l2 by (simp add: t_def)
  ultimately show ?thesis using l3 by blast
qed

lemma load_n_nalloc [simp]: "load_n (m\<lparr>nalloc := k\<rparr>) p n = load_n m p n"
  by (cases p) (simp_all add: load_n_def)

lemma readable_nalloc [simp]:
  "readable (m\<lparr>nalloc := k\<rparr>) x = readable m x" "chars (m\<lparr>nalloc := k\<rparr>) x = chars m x"
  by (simp_all add: readable_def chars_def)

lemma readable_upd:
  assumes "readable m x" and "block_of (buf x) \<noteq> Some a \<or> write_pos x = 0"
  shows "readable (upd m a bs) x" "chars (upd m a bs) x = chars m x"
proof -
  have "load_n (upd m a bs) (buf x) (write_pos x) = load_n m (buf x) (write_pos x)"
    using assms(2) load_n_same [of "upd m a bs" _ m] by (cases "buf x") (auto simp: load_n_def)
  with assms(1) show "readable (upd m a bs) x" "chars (upd m a bs) x = chars m x"
    by (simp_all add: readable_def chars_def)
qed

text \<open>A part outside the block \<open>a\<close>, whose bytes are live.\<close>

definition live :: "mem \<Rightarrow> nat \<Rightarrow> stringaa \<Rightarrow> bool" where
  "live m a x \<longleftrightarrow> readable m x \<and> (block_of (buf x) \<noteq> Some a \<or> write_pos x = 0)"

lemma live_upd:
  "live m a x \<Longrightarrow> live (upd m a bs) a x \<and> chars (upd m a bs) x = chars m x"
  using readable_upd [of m x a bs] by (simp add: live_def)

lemma part_text_cong: "chars m' (fst (snd p)) = chars m (fst (snd p)) \<Longrightarrow> part_text m' p = part_text m p"
  by (cases p) simp

lemma put_parts_ok:
  "blocks m a = Some bs \<Longrightarrow> r + parts_size ps \<le> length bs \<Longrightarrow>
   \<forall>p \<in> set ps. live m a (fst (snd p)) \<Longrightarrow> t = concat (map (part_text m) ps) \<Longrightarrow>
   \<exists>bs'. put_parts m (Ptr a 0) r ps = Some (r + length t, upd m a bs')
    \<and> length bs' = length bs \<and> take (r + length t) bs' = take r bs @ t
    \<and> length t \<le> parts_size ps"
proof (induction ps arbitrary: m bs r t)
  case Nil
  then show ?case by (intro exI [of _ bs]) simp
next
  case (Cons p ps)
  obtain pre x post where p: "p = (pre, x, post)" by (cases p)
  have x: "readable m x" "block_of (buf x) \<noteq> Some a \<or> write_pos x = 0"
    using Cons.prems(3) p by (auto simp: live_def)
  have cz: "copy_size x \<le> write_pos x" by (simp add: copy_size_def)
  define l where "l = part_text m p"
  have lt: "length l \<le> length pre + write_pos x + length post" using cz p by (simp add: l_def)
  obtain bs1 where 1: "put_part m (Ptr a 0) r pre x post = Some (r + length l, upd m a bs1)"
      "length bs1 = length bs" "take (r + length l) bs1 = take r bs @ l"
    using put_part_ok [OF Cons.prems(1) x, of r pre post] cz Cons.prems(2) p by (auto simp: l_def)
  define t2 where "t2 = concat (map (part_text m) ps)"
  have lv: "\<forall>p \<in> set ps. live (upd m a bs1) a (fst (snd p))"
    and eq: "map (part_text (upd m a bs1)) ps = map (part_text m) ps"
    using Cons.prems(3) live_upd by (auto intro!: part_text_cong)
  have t2: "t2 = concat (map (part_text (upd m a bs1)) ps)" unfolding t2_def eq ..
  have "blocks (upd m a bs1) a = Some bs1" "r + length l + parts_size ps \<le> length bs1"
    using lt Cons.prems(2) p 1(2) by simp_all
  from Cons.IH [OF this lv t2] obtain bs2 where
    2: "put_parts (upd m a bs1) (Ptr a 0) (r + length l) ps = Some (r + length l + length t2, upd m a bs2)"
      "length bs2 = length bs1" "take (r + length l + length t2) bs2 = take (r + length l) bs1 @ t2"
      "length t2 \<le> parts_size ps" by auto
  have t: "t = l @ t2" using Cons.prems(4) by (simp add: l_def t2_def)
  show ?case
    using 1 2 lt unfolding t p by (intro exI [of _ bs2]) (simp add: add.assoc)
qed

lemma recompose_ok:
  assumes m: "mem_ok m" "\<not> oom m (nalloc m)"
    and ps: "\<forall>p \<in> set (resolved_parts ap u). readable m (fst (snd p))"
  defines "t \<equiv> concat (map (part_text m) (resolved_parts ap u))" and "a \<equiv> nalloc m"
  shows "\<exists>bs x. recompose m u ap = Some (1, u\<lparr>u_uri := x\<rparr>, fresh m a bs)
    \<and> buf x = Ptr a 0 \<and> read_pos x = length t \<and> take (length t) bs = t \<and> bs ! length t = NUL
    \<and> length t < length bs \<and> length t \<le> write_pos x \<and> write_pos x < length bs"
proof -
  let ?ps = "resolved_parts ap u"
  define n where "n = parts_size ?ps + 1"
  define bs0 where "bs0 = map (junk m a) [0..<n]"
  have len0: "length bs0 = n" by (simp add: bs0_def)
  have al: "c_malloc m n = (Ptr a 0, fresh m a bs0)"
    using m(2) by (simp add: c_malloc_fresh a_def bs0_def)
  have lv: "live (fresh m a bs0) a x \<and> chars (fresh m a bs0) x = chars m x" if "readable m x" for x
  proof -
    have "block_of (buf x) \<noteq> Some a \<or> write_pos x = 0"
      using that readable_old [OF m(1)] by (fastforce simp: readable_def a_def)
    then have "live (m\<lparr>nalloc := Suc a\<rparr>) a x" using that by (simp add: live_def)
    from live_upd [OF this, of bs0] show ?thesis by (simp add: fresh_def)
  qed
  have lps: "\<forall>p \<in> set ?ps. live (fresh m a bs0) a (fst (snd p))"
    and eq: "map (part_text (fresh m a bs0)) ?ps = map (part_text m) ?ps"
    using lv ps by (auto intro!: part_text_cong)
  have t: "t = concat (map (part_text (fresh m a bs0)) ?ps)" unfolding t_def eq ..
  obtain bs1 where 1: "put_parts (fresh m a bs0) (Ptr a 0) 0 ?ps = Some (length t, fresh m a bs1)"
      "length bs1 = n" "take (length t) bs1 = t" "length t \<le> parts_size ?ps"
    using put_parts_ok [OF _ _ lps t, of bs0 0] len0 by (auto simp: n_def)
  let ?bs = "bs1[length t := NUL]"
  have 2: "store (fresh m a bs1) (Ptr a 0) (length t) NUL = Some (fresh m a ?bs)"
    using 1(2,4) by (simp add: store_upd n_def)
  let ?y = "set_flags [STRINGAA_IS_INIT, STRINGAA_IS_ALLOC, STRINGAA_IS_NULL_TERMINATED]
      ((u_uri u)\<lparr>buf := Ptr a 0, buf_size := n, read_pos := length t\<rparr>)"
  let ?x = "?y\<lparr>write_pos := end_of ?y\<rparr>"
  have "recompose m u ap = Some (1, u\<lparr>u_uri := ?x\<rparr>, fresh m a ?bs)"
    using al 1(1) 2 by (simp add: recompose_def Let_def n_def)
  moreover have "buf ?x = Ptr a 0" "read_pos ?x = length t" "length t \<le> write_pos ?x"
      "write_pos ?x < length ?bs"
    using 1(2,4) by (simp_all add: set_flags_def end_of_def n_def)
  moreover have "take (length t) ?bs = t" "?bs ! length t = NUL" "length t < length ?bs"
    using 1(2-4) by (simp_all add: n_def)
  ultimately show ?thesis by blast
qed

section \<open>Resolution\<close>

text \<open>
  What the caller must provide: the parts of both references are live, the base path begins
  with a slash, as \<open>abs_path\<close> records it, the old \<open>path\<close> is not an allocated block, and \<open>malloc\<close> works.
\<close>

definition resolvable :: "mem \<Rightarrow> uriaa \<Rightarrow> uriaa \<Rightarrow> bool" where
  "resolvable m u base \<longleftrightarrow> mem_ok m \<and> (\<forall>i. \<not> oom m i) \<and> base_ok m (u_abs_path base)
     \<and> \<not> is_alloc (u_path u)
     \<and> (\<forall>x \<in> {u_scheme base, u_authority base, u_authority u, u_abs_path u, u_rel_path u,
            u_path u, u_query u, u_fragment u}. readable m x)
     \<and> (is_init (u_opaque_part u) \<longrightarrow> readable m (u_opaque_part u) \<and> 0 < write_pos (u_opaque_part u))"

text \<open>The two references that take the path of the reference as it is.\<close>

definition takes_path :: "mem \<Rightarrow> uriaa \<Rightarrow> bool" where
  "takes_path m u \<longleftrightarrow> is_init (u_authority u) \<or> has_absolute_path m u = Some True"

lemma readable_inherited [simp]: "readable m (inherited x) = readable m x"
  by (simp add: readable_def inherited_def)

lemma has_absolute_path_ok:
  assumes "resolvable m u base"
  shows "\<exists>b. has_absolute_path m u = Some b"
  using assms load_readable [of m "u_opaque_part u" 0]
  by (auto simp: has_absolute_path_def resolvable_def)

lemma has_absolute_path_upd [simp]:
  "has_absolute_path m (u\<lparr>u_scheme := x\<rparr>) = has_absolute_path m u"
  "has_absolute_path m (u\<lparr>u_authority := x\<rparr>) = has_absolute_path m u"
  by (simp_all add: has_absolute_path_def)

lemma removed_upd [simp]:
  "removed m (u\<lparr>u_scheme := x\<rparr>) base = removed m u base"
  "removed m (u\<lparr>u_authority := x\<rparr>) base = removed m u base"
  by (simp_all add: removed_def merged_def)

text \<open>The resolution up to the new path, then the recomposition.\<close>

lemma resolve_to_path:
  assumes r: "resolvable m u base" and "\<not> is_current_document u" "\<not> is_init (u_scheme u)"
    and "\<not> takes_path m u"
  defines "v \<equiv> u\<lparr>u_scheme := inherited (u_scheme base), u_authority := inherited (u_authority base)\<rparr>"
    and "t \<equiv> removed m u base"
  obtains bs x where "uriaa_resolve_uri m u base = (if leads_up t then Some (0, v\<lparr>u_path := x\<rparr>, fresh m (nalloc m) bs)
      else recompose (fresh m (nalloc m) bs) (v\<lparr>u_path := x\<rparr>) False)"
    and "buf x = Ptr (nalloc m) 0" and "is_init x" and "is_null_terminated x" and "write_pos x = length t"
    and "length t < length bs" and "take (length t) bs = t"
proof -
  have na: "\<not> is_init (u_authority u)" "has_absolute_path m u = Some False"
    using assms(4) has_absolute_path_ok [OF r] by (auto simp: takes_path_def)
  have m: "mem_ok m" "\<not> oom m (nalloc m)" using r by (auto simp: resolvable_def)
  obtain bs x where 1: "resolve_path m v base = Some (\<not> leads_up t, v\<lparr>u_path := x\<rparr>, fresh m (nalloc m) bs)"
      "buf x = Ptr (nalloc m) 0" "is_init x" "is_null_terminated x" "write_pos x = length t" "length t < length bs"
      "take (length t) bs = t"
    using resolve_path_ok [OF m, of base v] r by (auto simp: resolvable_def v_def t_def)
  show thesis
  proof (rule that [OF _ 1(2-7)])
    show "uriaa_resolve_uri m u base = (if leads_up t then Some (0, v\<lparr>u_path := x\<rparr>, fresh m (nalloc m) bs)
        else recompose (fresh m (nalloc m) bs) (v\<lparr>u_path := x\<rparr>) False)"
      using assms(2,3) na 1(1) by (simp add: uriaa_resolve_uri_def Let_def v_def)
  qed
qed


section \<open>Removal of dot segments, on segments\<close>

fun drop_points :: "char list list \<Rightarrow> char list list" where
  "drop_points [] = []"
| "drop_points [x] = [x]"
| "drop_points (x # xs) = (if x = ''.'' then drop_points xs else x # drop_points xs)"

fun join_path :: "char list list \<Rightarrow> char list" where
  "join_path [] = []"
| "join_path [x] = x"
| "join_path (x # xs) = x @ ''/'' @ join_path xs"

lemma split_path_not_Nil [simp]: "split_path cur cs \<noteq> []"
  by (induction cur cs rule: split_path.induct) auto

lemma drop_points_Cons: "xs \<noteq> [] \<Longrightarrow>
    drop_points (x # xs) = (if x = ''.'' then drop_points xs else x # drop_points xs)"
  by (cases xs) auto

lemma drop_points_not_Nil [simp]: "xs \<noteq> [] \<Longrightarrow> drop_points xs \<noteq> []"
  by (induction xs rule: drop_points.induct) auto

lemma join_path_Cons: "xs \<noteq> [] \<Longrightarrow> join_path (x # xs) = x @ ''/'' @ join_path xs"
  by (cases xs) auto

lemma point_list_segments:
  "fst (point_list (pre @ cur @ rs) (length pre + length cur) (length pre)) =
    pre @ join_path (drop_points (split_path cur rs))"
proof (induction rs arbitrary: pre cur)
  case Nil
  then show ?case by (simp add: point_list.simps)
next
  case (Cons c rs)
  let ?cs = "pre @ cur @ c # rs" and ?i = "length pre + length cur"
  have ci: "?cs ! ?i = c" by (simp add: nth_append)
  note unf = point_list.simps [of ?cs ?i "length pre"]
  show ?case
  proof (cases "c = CHR ''/''")
    case False
    then show ?thesis using Cons.IH [of pre "cur @ [c]"] ci by (simp add: unf)
  next
    case c: True
    show ?thesis
    proof (cases "cur = ''.''")
      case True
      then have "point_list ?cs ?i (length pre) = point_list (pre @ rs) (length pre) (length pre)"
        using c ci by (subst unf) (simp add: nth_append)
      with Cons.IH [of pre "[]"] c True show ?thesis by (simp add: drop_points_Cons)
    next
      case False
      have "\<not> (?i = length pre + 1 \<and> ?cs ! (?i - 1) = CHR ''.'')"
      proof
        assume "?i = length pre + 1 \<and> ?cs ! (?i - 1) = CHR ''.''"
        then obtain d where "cur = [d]" "d = CHR ''.''"
          by (cases cur rule: remdups_adj.cases) (auto simp: nth_append)
        with False show False by simp
      qed
      then have "point_list ?cs ?i (length pre) = point_list ?cs (?i + 1) (?i + 1)"
        using c ci by (subst unf) auto
      with Cons.IH [of "pre @ cur @ ''/''" "[]"] c False show ?thesis
        by (simp add: drop_points_Cons join_path_Cons)
    qed
  qed
qed

section \<open>Properties\<close>

text \<open>C29: the loops that remove \<open>./\<close> segments move the tail of the path inside its block, and print the block as a C
  string after each removal.  When the block has a zero byte somewhere behind the path, they return without
  an access outside the block, change no byte from the old end of the path on, and leave exactly the
  segments of the path without those that are \<open>.\<close> and not last.\<close>

theorem point_loop_drops_points:
  assumes "blocks m a = Some bs" and "NUL \<in> set (drop n bs)"
  defines "t \<equiv> join_path (drop_points (segments (take n bs)))"
  shows "returns (point_loop m (Ptr a 0) n 0 0) (\<lambda>(n', seg, m'). n' = length t
    \<and> (\<exists>bs'. m' = upd m a bs' \<and> length bs' = length bs \<and> take n' bs' = t \<and> drop n bs' = drop n bs))"
proof -
  have "fst (point_list (take n bs) 0 0) = t"
    using point_list_segments [of "[]" "[]" "take n bs"] by (simp add: t_def segments_def)
  with point_loop_eq [OF assms(1,2) le0, of 0] show ?thesis
    by (auto simp: Let_def)
qed

lemma point_loop_drops_points_witness:
  "returns (point_loop (memory_of [''/a/./b'' @ [NUL]]) (Ptr 0 0) 6 0 0) (\<lambda>(n', seg, m').
    n' = 4 \<and> (\<exists>bs'. blocks m' 0 = Some bs' \<and> take n' bs' = ''/a/b''))"
  using point_loop_drops_points [of "memory_of [''/a/./b'' @ [NUL]]" 0 "''/a/./b'' @ [NUL]" 6]
  by (auto simp: returns_iff segments_def eval_nat_numeral)


definition part_at :: "nat \<Rightarrow> nat \<Rightarrow> nat \<Rightarrow> stringaa" where
  "part_at a p n = stringaa_zero\<lparr>buf := Ptr a p, buf_size := n, write_pos := n, is_init := True\<rparr>"


definition uri_text :: "mem \<Rightarrow> stringaa \<Rightarrow> char list" where
  "uri_text m x = (if is_init x then take (copy_size x) (chars m x) else [])"

text \<open>C31: a reference without a scheme that has an authority, or an absolute path and no relative one, keeps its path.
  The resolved URI is the scheme of the base, if it has one, the authority of the reference or else of the
  base, and the absolute path, query and fragment of the reference, those that there are, with their
  delimiters.  The parts can be read, the path of the base begins with a slash, the old path of the reference is
  not an allocated block, its absolute path is empty if not set, and \<open>malloc\<close> works.\<close>

theorem uriaa_resolve_uri_recomposes:
  assumes "resolvable m u base" and "\<not> is_current_document u" and "\<not> is_init (u_scheme u)"
    and "takes_path m u" and "is_init (u_abs_path u) \<or> write_pos (u_abs_path u) = 0"
  defines "auth \<equiv> if is_init (u_authority u) then u_authority u else u_authority base"
  shows "returns (uriaa_resolve_uri m u base) (\<lambda>(k, u', m'). k = 1 \<and>
    take (read_pos (u_uri u')) (chars m' (u_uri u')) =
      (if is_init (u_scheme base) then uri_text m (u_scheme base) @ '':'' else [])
      @ (if is_init auth then ''//'' @ uri_text m auth else [])
      @ uri_text m (u_abs_path u)
      @ (if is_init (u_query u) then ''?'' @ uri_text m (u_query u) else [])
      @ (if is_init (u_fragment u) then ''#'' @ uri_text m (u_fragment u) else []))"
proof -
  let ?u1 = "u\<lparr>u_scheme := inherited (u_scheme base)\<rparr>"
  define v where "v = (if is_init (u_authority u) then ?u1 else ?u1\<lparr>u_authority := inherited (u_authority base)\<rparr>)"
  have m: "mem_ok m" "\<not> oom m (nalloc m)" using assms(1) by (auto simp: resolvable_def)
  have ps: "\<forall>p \<in> set (resolved_parts True v). readable m (fst (snd p))"
    using assms(1) by (auto simp: resolved_parts_def resolvable_def v_def)
  obtain b where b: "has_absolute_path m u = Some b" "is_init (u_authority u) \<or> b"
    using has_absolute_path_ok [OF assms(1)] assms(4) by (auto simp: takes_path_def)
  have eq: "uriaa_resolve_uri m u base = recompose m v True"
    using assms(2,3) b by (cases "is_init (u_authority u)") (auto simp: uriaa_resolve_uri_def Let_def v_def)
  let ?t = "concat (map (part_text m) (resolved_parts True v))"
  obtain bs x where r: "recompose m v True = Some (1, v\<lparr>u_uri := x\<rparr>, fresh m (nalloc m) bs)"
      "buf x = Ptr (nalloc m) 0" "read_pos x = length ?t" "take (length ?t) bs = ?t"
      "length ?t < length bs" "length ?t \<le> write_pos x" "write_pos x < length bs"
    using recompose_ok [OF m ps] by blast
  have "take (read_pos x) (chars (fresh m (nalloc m) bs) x) = ?t"
    using chars_at [OF r(2), of "fresh m (nalloc m) bs" bs] r(3-7) by (simp add: min_def)
  moreover have whole: "?t = (if is_init (u_scheme base) then uri_text m (u_scheme base) @ '':'' else [])
      @ (if is_init auth then ''//'' @ uri_text m auth else []) @ uri_text m (u_abs_path u)
      @ (if is_init (u_query u) then ''?'' @ uri_text m (u_query u) else [])
      @ (if is_init (u_fragment u) then ''#'' @ uri_text m (u_fragment u) else [])"
  proof -
    have inh: "copy_size (inherited y) = copy_size y" "chars m (inherited y) = chars m y" "is_init (inherited y) = is_init y" for y
      by (simp_all add: copy_size_def inherited_def chars_def split: option.split)
    have "take (copy_size (u_abs_path u)) (chars m (u_abs_path u)) = uri_text m (u_abs_path u)"
      using assms(5) by (auto simp: uri_text_def copy_size_def)
    then show ?thesis
      by (cases "is_init (u_authority u)") (simp_all add: v_def resolved_parts_def auth_def inh uri_text_def)
  qed
  ultimately show ?thesis
    using r(1) whole by (simp add: eq)
qed

lemma uriaa_resolve_uri_recomposes_witness:
  "returns (uriaa_resolve_uri (memory_of [''http'', ''/x'', ''h''])
      (uriaa_zero\<lparr>u_abs_path := part_at 1 0 2\<rparr>)
      (uriaa_zero\<lparr>u_scheme := part_at 0 0 4, u_authority := part_at 2 0 1\<rparr>))
    (\<lambda>(k, u', m'). k = 1 \<and> take (read_pos (u_uri u')) (chars m' (u_uri u')) = ''http://h/x'')"
proof -
  let ?m = "memory_of [''http'', ''/x'', ''h'']"
  have z: "readable ?m stringaa_zero" by (simp add: readable_def load_n_def)
  have p: "readable ?m (part_at 0 0 4)" "readable ?m (part_at 1 0 2)" "readable ?m (part_at 2 0 1)"
      "uri_text ?m (part_at 0 0 4) = ''http''" "uri_text ?m (part_at 1 0 2) = ''/x''"
      "uri_text ?m (part_at 2 0 1) = ''h''"
    by (simp_all add: readable_def chars_def load_n_def part_at_def uri_text_def copy_size_def)
  have i: "is_init (part_at a q n)" for a q n by (simp add: part_at_def)
  show ?thesis
    using uriaa_resolve_uri_recomposes [of ?m "uriaa_zero\<lparr>u_abs_path := part_at 1 0 2\<rparr>"
        "uriaa_zero\<lparr>u_scheme := part_at 0 0 4, u_authority := part_at 2 0 1\<rparr>"] z p i
    by (simp add: resolvable_def base_ok_def is_current_document_def takes_path_def
        has_absolute_path_def uriaa_zero_def)
qed

text \<open>
  The reference that the last step of the resolution prints: the scheme and the authority of the
  base, and the resolved path without its last character.
\<close>

lemma recompose_inherited:
  assumes "resolvable m u base" and "is_init (u_scheme base)" and "is_init (u_authority base)"
    and "\<not> is_init (u_query u)" and "\<not> is_init (u_fragment u)"
    and x: "buf x = Ptr (nalloc m) 0" "is_init x" "is_null_terminated x" "write_pos x < length bs"
  defines "v \<equiv> u\<lparr>u_scheme := inherited (u_scheme base), u_authority := inherited (u_authority base),
      u_path := x\<rparr>"
  shows "returns (recompose (fresh m (nalloc m) bs) v False) (\<lambda>(k, u', m'). k = 1 \<longrightarrow>
    take (read_pos (u_uri u')) (chars m' (u_uri u')) =
      uri_text m (u_scheme base) @ ''://'' @ uri_text m (u_authority base)
      @ butlast (chars m' (u_path u')))"
proof -
  define a where "a = nalloc m"
  let ?m = "fresh m a bs"
  have m: "mem_ok m" "\<And>i. \<not> oom m i" using assms(1) by (auto simp: resolvable_def)
  have ob: "other_blocks m ?m None" using other_blocks_to_fresh [OF m(1)] by (simp add: a_def)
  have keep: "readable ?m y" "chars ?m y = chars m y" if "readable m y" for y
    using that other_blocks_load_any [OF ob m(1)] by (auto simp: readable_def chars_def)
  have xm: "readable ?m x" "chars ?m x = take (write_pos x) bs"
    using x(1,4) by (simp_all add: readable_def chars_def load_n_def a_def)
  have ps: "\<forall>p \<in> set (resolved_parts False v). readable ?m (fst (snd p))"
    using assms(1) keep(1) xm(1) by (auto simp: v_def resolved_parts_def resolvable_def)
  have m2: "mem_ok ?m" "\<not> oom ?m (nalloc ?m)" using m by (simp_all add: mem_ok_def a_def)
  let ?t = "concat (map (part_text ?m) (resolved_parts False v))"
  obtain bs2 y where
    2: "recompose ?m v False = Some (1, v\<lparr>u_uri := y\<rparr>, fresh ?m (Suc a) bs2)"
      "buf y = Ptr (Suc a) 0" "read_pos y = length ?t" "take (length ?t) bs2 = ?t"
      "length ?t \<le> write_pos y" "write_pos y < length bs2"
    using recompose_ok [OF m2 ps] by auto
  have "take (read_pos y) (chars (fresh ?m (Suc a) bs2) y) = ?t"
    using chars_at [OF 2(2), of "fresh ?m (Suc a) bs2" bs2] 2(3-6) by (simp add: min_def)
  moreover have "chars (fresh ?m (Suc a) bs2) x = chars ?m x"
    using x(1,4) by (simp add: chars_def load_n_in a_def)
  moreover have "take (copy_size x) (chars ?m x) = butlast (chars ?m x)"
    using x(3) by (auto simp: copy_size_def butlast_conv_take)
  moreover have "copy_size (inherited z) = copy_size z" "chars ?m (inherited z) = chars ?m z"
      "is_init (inherited z) = is_init z" for z
    by (simp_all add: copy_size_def inherited_def chars_def split: option.split)
  ultimately show ?thesis
    using x(2) 2(1) assms(1-5) keep(2) unfolding a_def [symmetric]
    by (simp add: v_def resolved_parts_def uri_text_def resolvable_def)
qed

text \<open>A merged path is null-terminated, and its write position does not count the terminator;
  \<open>uriaa_resolve_uri\<close> subtracts it once more when it copies the path, so the resolved URI lacks
  the last character of the resolved path.\<close>

theorem uriaa_resolve_uri_drops_last:
  assumes "resolvable m u base" and "\<not> is_current_document u" and "\<not> is_init (u_scheme u)"
    and "\<not> takes_path m u" and "is_init (u_scheme base)" and "is_init (u_authority base)"
    and "\<not> is_init (u_query u)" and "\<not> is_init (u_fragment u)"
  shows "returns (uriaa_resolve_uri m u base) (\<lambda>(k, u', m'). k = 1 \<longrightarrow>
    take (read_pos (u_uri u')) (chars m' (u_uri u')) =
      uri_text m (u_scheme base) @ ''://'' @ uri_text m (u_authority base)
      @ butlast (chars m' (u_path u')))"
proof -
  define v where "v = u\<lparr>u_scheme := inherited (u_scheme base), u_authority := inherited (u_authority base)\<rparr>"
  obtain bs x where eq: "uriaa_resolve_uri m u base = (if leads_up (removed m u base)
        then Some (0, v\<lparr>u_path := x\<rparr>, fresh m (nalloc m) bs) else recompose (fresh m (nalloc m) bs) (v\<lparr>u_path := x\<rparr>) False)"
      and x: "buf x = Ptr (nalloc m) 0" "is_init x" "is_null_terminated x" "write_pos x < length bs"
    using resolve_to_path [OF assms(1-4)] unfolding v_def by metis
  from eq recompose_inherited [OF assms(1,5-8) x] show ?thesis
    by (cases "leads_up (removed m u base)") (simp_all add: v_def)
qed

lemma uriaa_resolve_uri_drops_last_witness:
  "returns (uriaa_resolve_uri (memory_of [''http'', ''/a/b'', ''h'', ''../cd''])
      (uriaa_zero\<lparr>u_rel_path := part_at 3 0 5\<rparr>)
      (uriaa_zero\<lparr>u_scheme := part_at 0 0 4, u_authority := part_at 2 0 1, u_abs_path := part_at 1 0 4\<rparr>))
    (\<lambda>(k, u', m'). k = 1 \<longrightarrow> take (read_pos (u_uri u')) (chars m' (u_uri u')) =
      ''http://h'' @ butlast (chars m' (u_path u')))"
proof -
  let ?m = "memory_of [''http'', ''/a/b'', ''h'', ''../cd'']"
  have z: "readable ?m stringaa_zero" by (simp add: readable_def load_n_def)
  have p: "readable ?m (part_at 0 0 4)" "readable ?m (part_at 1 0 4)" "readable ?m (part_at 2 0 1)"
      "readable ?m (part_at 3 0 5)" "chars ?m (part_at 1 0 4) = ''/a/b''"
      "uri_text ?m (part_at 0 0 4) = ''http''" "uri_text ?m (part_at 2 0 1) = ''h''"
    by (simp_all add: readable_def chars_def load_n_def part_at_def uri_text_def copy_size_def)
  have i: "is_init (part_at a q n)" "write_pos (part_at a q n) = n" for a q n
    by (simp_all add: part_at_def)
  show ?thesis
    using uriaa_resolve_uri_drops_last [of ?m "uriaa_zero\<lparr>u_rel_path := part_at 3 0 5\<rparr>"
        "uriaa_zero\<lparr>u_scheme := part_at 0 0 4, u_authority := part_at 2 0 1, u_abs_path := part_at 1 0 4\<rparr>"] z p i
    by (simp add: resolvable_def base_ok_def is_current_document_def takes_path_def
        has_absolute_path_def uriaa_zero_def)
qed

text \<open>\<open>uriaa_remove_segment_points\<close> moves one byte more than its buffer has: on a buffer that
  begins with \<open>/../\<close> and fills its block, the read is out of bounds.\<close>

theorem uriaa_remove_segment_points_overrun:
  assumes "blocks m a = Some bs" and "buf s = Ptr a 0" and "buf_size s = length bs"
    and "take 4 bs = ''/../''"
  shows "uriaa_remove_segment_points m s = None"
proof -
  obtain ds where bs: "bs = ''/../'' @ ds" using assms(4) by (metis append_take_drop_id)
  let ?n = "length bs"
  have byte: "load m (Ptr a 0) 0 = Some (CHR ''/'')" "load m (Ptr a 0) 1 = Some (CHR ''.'')"
      "load m (Ptr a 0) 2 = Some (CHR ''.'')" "load m (Ptr a 0) 3 = Some (CHR ''/'')"
    using assms(1) by (simp_all add: load_def bs)
  have "load_n m (Ptr a 4) (?n - 4 + 1) = None" using assms(1) by (simp add: load_n_def bs)
  then have "c_memmove m (Ptr a 0) (Ptr a 4) (?n - 0 - 4 + 1) = None" by (simp add: c_memmove_def)
  then have "points_loop m (Ptr a 0) ?n 0 0 = None"
    using byte by (subst points_loop.simps) (simp add: dots_after_def bs numeral_2_eq_2)
  then show ?thesis using assms(2,3) by (simp add: uriaa_remove_segment_points_def)
qed

lemma uriaa_remove_segment_points_overrun_witness:
  "uriaa_remove_segment_points (memory_of [''/../x'' @ [NUL]]) (string_at 0 6) = None"
  by (rule uriaa_remove_segment_points_overrun [of _ 0 "''/../x'' @ [NUL]"]) simp_all

end
