(* ===== verification/Stringaa_Find.thy ===== *)
theory Stringaa_Find
  imports Reader
begin

text \<open>
  \<open>stringaa_find\<close> of \<open>src/string/stringaa.h\<close>: the search loop with its two cursors and its
  backtracking, shown to terminate and to compute the position of the first occurrence.
\<close>

section \<open>The search\<close>

text \<open>
  The two branches of one round, up to the move of the text cursor: \<open>s\<close> is the text, \<open>t\<close> the
  pattern, \<open>c\<close> and \<open>d\<close> the characters under their cursors.  The first component of the result
  is the position when the last character of the pattern has matched.
\<close>

type_synonym find_state = "stringaa \<times> stringaa \<times> char \<times> bool \<times> nat"

definition find_branch :: "mem \<Rightarrow> stringaa \<Rightarrow> stringaa \<Rightarrow> char \<Rightarrow> char \<Rightarrow> bool \<Rightarrow> nat \<Rightarrow>
    (nat option \<times> find_state) option" where
  "find_branch m s t c d is_follow pos = (if c = d
     then (let pos = (if is_follow then pos else read_pos s) in
       case stringaa_next_read_pos t of (nx, t) \<Rightarrow>
       if nx then do { d \<leftarrow> stringaa_get_char m t; Some (None, s, t, d, True, pos) }
       else Some (Some pos, s, t, d, True, pos))
     else if is_follow
     then (let t = snd (stringaa_begin_read_pos t) in do {
       d \<leftarrow> stringaa_get_char m t;
       Some (None, s\<lparr>read_pos := pos\<rparr>, t, d, False, pos) })
     else Some (None, s, t, d, False, pos))"

lemma find_branch_measure:
  assumes "find_branch m s t c d is_follow pos = Some (r, s1, t1, d1, f1, p1)"
    and "stringaa_next_read_pos s1 = (True, s2)"
  shows "((write_pos s2 - (if f1 then p1 else read_pos s2), write_pos s2 - read_pos s2),
      (write_pos s - (if is_follow then pos else read_pos s), write_pos s - read_pos s))
    \<in> less_than <*lex*> less_than"
  using assms
  by (auto simp: find_branch_def Let_def stringaa_next_read_pos_def bind_eq_Some_conv
      split: if_splits)

function find_loop :: "mem \<Rightarrow> stringaa \<Rightarrow> stringaa \<Rightarrow> char \<Rightarrow> char \<Rightarrow> bool \<Rightarrow> nat \<Rightarrow>
    (int \<times> stringaa \<times> stringaa) option" where
  "find_loop m s t c d is_follow pos = (if d = NUL then Some (- 1, s, t)
     else do {
       (r, s, t, d, is_follow, pos) \<leftarrow> find_branch m s t c d is_follow pos;
       case r of Some p \<Rightarrow> Some (to_int p, s, t)
       | None \<Rightarrow> (case stringaa_next_read_pos s of (nx, s) \<Rightarrow>
           if nx then do { c \<leftarrow> stringaa_get_char m s; find_loop m s t c d is_follow pos }
           else Some (- 1, s, t)) })"
  by pat_completeness auto
termination
  by (relation "inv_image (less_than <*lex*> less_than) (\<lambda>(m, s, t, c, d, is_follow, pos).
        (write_pos s - (if is_follow then pos else read_pos s), write_pos s - read_pos s))")
    (auto dest: find_branch_measure [OF _ sym] simp del: in_lex_prod)

declare find_loop.simps [simp del]

definition stringaa_find :: "mem \<Rightarrow> stringaa \<Rightarrow> stringaa \<Rightarrow> (int \<times> stringaa \<times> stringaa) option" where
  "stringaa_find m s t =
     (if buf s \<noteq> Null \<and> is_init s \<and> buf t \<noteq> Null \<and> is_init t
      then (let s = snd (stringaa_begin_read_pos s); t = snd (stringaa_begin_read_pos t) in do {
        c \<leftarrow> stringaa_get_char m s;
        d \<leftarrow> stringaa_get_char m t;
        find_loop m s t c d False 0 })
      else Some (- 1, s, t))"

section \<open>What it computes\<close>

definition occurs_at :: "char list \<Rightarrow> char list \<Rightarrow> nat \<Rightarrow> bool" where
  "occurs_at pat cs i \<longleftrightarrow> take (length pat) (drop i cs) = pat"

definition first_occurrence :: "char list \<Rightarrow> char list \<Rightarrow> nat option" where
  "first_occurrence pat cs = List.find (occurs_at pat cs) [0..<length cs]"

lemma first_occurrence_Some:
  assumes "occurs_at pat cs p" and "p < length cs" and "\<And>i. i < p \<Longrightarrow> \<not> occurs_at pat cs i"
  shows "first_occurrence pat cs = Some p"
proof -
  have "[0..<length cs] ! p = p" using assms(2) by simp
  then show ?thesis
    using assms unfolding first_occurrence_def find_Some_iff by (intro exI [of _ p]) auto
qed

lemma first_occurrence_None:
  "(\<And>i. i < length cs \<Longrightarrow> \<not> occurs_at pat cs i) \<Longrightarrow> first_occurrence pat cs = None"
  by (auto simp: first_occurrence_def find_None_iff)

lemma occurs_at_length: "occurs_at pat cs i \<Longrightarrow> pat \<noteq> [] \<Longrightarrow> i + length pat \<le> length cs"
  unfolding occurs_at_def
  by (drule arg_cong [where f = length], cases "i \<le> length cs") (auto simp: min_def split: if_splits)

text \<open>The invariant of the loop: where the cursors stand and what has been ruled out.\<close>

definition find_inv :: "char list \<Rightarrow> char list \<Rightarrow> nat \<Rightarrow> nat \<Rightarrow> bool \<Rightarrow> nat \<Rightarrow> bool" where
  "find_inv cs pat i j follow pos \<longleftrightarrow> j < length pat \<and> i \<le> length cs \<and> (i < length cs \<or> i = 0 \<and> \<not> follow)
     \<and> (if follow then i = pos + j \<and> 0 < j \<and> take j (drop pos cs) = take j pat
        else j = 0)
     \<and> (\<forall>k < (if follow then pos else i). \<not> occurs_at pat cs k)"

lemma find_inv_match:
  assumes "find_inv cs pat i j follow pos" and "i < length cs" and "cs ! i = pat ! j"
  defines "q \<equiv> if follow then pos else i"
  shows "i = q + j" "take (Suc j) (drop q cs) = take (Suc j) pat"
    "\<And>k. k < q \<Longrightarrow> \<not> occurs_at pat cs k"
  using assms(1-3) unfolding q_def
  by (auto simp: find_inv_def take_Suc_conv_app_nth take_Suc hd_drop_conv_nth hd_conv_nth
      split: if_splits)

lemma find_inv_mismatch:
  assumes "find_inv cs pat i j follow pos" and "i < length cs" and "cs ! i \<noteq> pat ! j"
  defines "q \<equiv> if follow then pos else i"
  shows "k \<le> q \<Longrightarrow> \<not> occurs_at pat cs k"
proof -
  assume k: "k \<le> q"
  have j: "j < length pat" "i = q + j" using assms(1) by (auto simp: find_inv_def q_def split: if_splits)
  have "\<not> occurs_at pat cs q"
  proof
    assume "occurs_at pat cs q"
    then have "take (length pat) (drop q cs) ! j = pat ! j" by (simp add: occurs_at_def)
    with j assms(2,3) show False by simp
  qed
  then show ?thesis using k assms(1) by (cases "k = q") (auto simp: find_inv_def q_def)
qed

definition find_result :: "char list \<Rightarrow> char list \<Rightarrow> int" where
  "find_result pat cs = (case first_occurrence pat cs of None \<Rightarrow> - 1 | Some i \<Rightarrow> int i)"

lemma find_exhausted:
  assumes "\<And>k. k < q \<Longrightarrow> \<not> occurs_at pat cs k" and "length cs < q + length pat" and "pat \<noteq> []"
  shows "find_result pat cs = - 1"
proof -
  have "\<not> occurs_at pat cs k" for k
    using assms occurs_at_length [of pat cs k] by (cases "k < q") auto
  then show ?thesis by (simp add: find_result_def first_occurrence_None)
qed

lemma find_found:
  assumes "\<And>k. k < q \<Longrightarrow> \<not> occurs_at pat cs k" and "q < length cs" and "occurs_at pat cs q"
  shows "find_result pat cs = int q"
  using first_occurrence_Some [OF assms(3,2,1)] by (simp add: find_result_def)

text \<open>A round of the loop: it finds the first occurrence, or it moves on and keeps the invariant; where there
  is nothing to move on to, there is no occurrence.\<close>

lemma find_step:
  assumes "readable m s" "readable m t"
    and inv: "find_inv (chars m s) (chars m t) (read_pos s) (read_pos t) is_follow pos"
    and i: "read_pos s < length (chars m s)"
    and "c = chars m s ! read_pos s" and "d = chars m t ! read_pos t"
  obtains (found) p x where "find_branch m s t c d is_follow pos = Some (Some p, x)"
      and "find_result (chars m t) (chars m s) = int p" and "p < length (chars m s)"
    | (goes_on) q j f p where "find_branch m s t c d is_follow pos =
        Some (None, s\<lparr>read_pos := q\<rparr>, t\<lparr>read_pos := j\<rparr>, chars m t ! j, f, p)"
      and "j < length (chars m t)"
      and "Suc q < length (chars m s) \<Longrightarrow> find_inv (chars m s) (chars m t) (Suc q) j f p"
      and "\<not> Suc q < length (chars m s) \<Longrightarrow> find_result (chars m t) (chars m s) = - 1"
proof -
  let ?cs = "chars m s" and ?pat = "chars m t" and ?i = "read_pos s" and ?j = "read_pos t"
  let ?q = "if is_follow then pos else ?i"
  have j: "?j < length ?pat" and q: "?q + ?j = ?i" using inv by (auto simp: find_inv_def)
  then have pat: "?pat \<noteq> []" by (auto simp del: length_chars)
  show thesis
  proof (cases "c = d")
    case True
    then have eq: "?cs ! ?i = ?pat ! ?j" using assms(5,6) by simp
    note mt = find_inv_match(2,3) [OF inv i eq]
    show thesis
    proof (cases "Suc ?j < length ?pat")
      case False
      then have "Suc ?j = length ?pat" using j by simp
      then have "occurs_at ?pat ?cs ?q" using mt(1) by (simp add: occurs_at_def)
      from find_found [OF mt(2) _ this] i q have "find_result ?pat ?cs = int ?q" "?q < length ?cs" by auto
      with True False show thesis
        by (intro found) (auto simp: find_branch_def stringaa_next_read_pos_def Let_def)
    next
      case jj: True
      show thesis
      proof (rule goes_on)
        show "find_branch m s t c d is_follow pos =
            Some (None, s\<lparr>read_pos := ?i\<rparr>, t\<lparr>read_pos := Suc ?j\<rparr>, ?pat ! Suc ?j, True, ?q)"
          using True jj assms(2) by (simp add: find_branch_def stringaa_next_read_pos_def Let_def)
        show "Suc ?i < length ?cs \<Longrightarrow> find_inv ?cs ?pat (Suc ?i) (Suc ?j) True ?q"
          unfolding find_inv_def using mt jj q by auto
        show "\<not> Suc ?i < length ?cs \<Longrightarrow> find_result ?pat ?cs = - 1"
          using find_exhausted [OF mt(2) _ pat] q jj by simp
      qed (rule jj)
    qed
  next
    case False
    then have "?cs ! ?i \<noteq> ?pat ! ?j" using assms(5,6) by simp
    note mm = find_inv_mismatch [OF inv i this]
    show thesis
    proof (rule goes_on)
      show "find_branch m s t c d is_follow pos = Some (None, s\<lparr>read_pos := ?q\<rparr>, t\<lparr>read_pos := 0\<rparr>, ?pat ! 0, False, pos)"
        using False assms(2,6) pat inv by (auto simp: find_branch_def stringaa_begin_read_pos_def find_inv_def)
      show "Suc ?q < length ?cs \<Longrightarrow> find_inv ?cs ?pat (Suc ?q) 0 False pos"
        unfolding find_inv_def using mm j by (auto simp: less_Suc_eq_le)
      show "\<not> Suc ?q < length ?cs \<Longrightarrow> find_result ?pat ?cs = - 1"
        by (rule find_exhausted [of "Suc ?q"]) (use mm pat j in \<open>auto simp: less_Suc_eq_le\<close>)
    qed (use j in simp)
  qed
qed

lemma find_loop_correct:
  assumes "readable m s" "readable m t" "write_pos s < 2 ^ 31" "NUL \<notin> set (chars m t)"
    and "find_inv (chars m s) (chars m t) (read_pos s) (read_pos t) is_follow pos"
    and "c = peek (chars m s) (read_pos s)" and "d = peek (chars m t) (read_pos t)"
  shows "returns (find_loop m s t c d is_follow pos)
    (\<lambda>(r, s', t'). r = find_result (chars m t) (chars m s))"
  using assms
proof (induction "(write_pos s - (if is_follow then pos else read_pos s), write_pos s - read_pos s)"
    arbitrary: s t c d is_follow pos
    rule: wf_induct_rule [OF wf_lex_prod [OF wf_less_than wf_less_than]])
  case (1 s is_follow pos t c d)
  let ?cs = "chars m s" and ?pat = "chars m t"
  note rd = "1.prems"(1,2) and inv = "1.prems"(5)
  have j: "read_pos t < length ?pat" using inv by (simp add: find_inv_def)
  then have d: "d = ?pat ! read_pos t" and "d \<in> set ?pat" using "1.prems"(7) by auto
  then have dn: "d \<noteq> NUL" using "1.prems"(4) by metis
  show ?case
  proof (cases "read_pos s < length ?cs")
    case False
    then have "length ?cs = 0" "read_pos s = 0" "\<not> is_follow" using inv by (auto simp: find_inv_def)
    moreover have "?pat \<noteq> []" using j by (auto simp del: length_chars)
    ultimately show ?thesis
      using dn "1.prems"(6) find_exhausted [of 0 ?pat ?cs] j
      by (subst find_loop.simps) (auto simp: find_branch_def stringaa_next_read_pos_def)
  next
    case i: True
    then have c: "c = ?cs ! read_pos s" using "1.prems"(6) by simp
    from rd inv i c d show ?thesis
    proof (cases rule: find_step)
      case (found p x)
      with dn "1.prems"(3) show ?thesis by (subst find_loop.simps) (cases x, simp)
    next
      case (goes_on q j f p)
      let ?s = "s\<lparr>read_pos := Suc q\<rparr>" and ?t = "t\<lparr>read_pos := j\<rparr>"
      show ?thesis
      proof (cases "Suc q < length ?cs")
        case False
        with dn goes_on show ?thesis by (subst find_loop.simps) (simp add: stringaa_next_read_pos_def)
      next
        case True
        then have nx: "stringaa_next_read_pos (s\<lparr>read_pos := q\<rparr>) = (True, ?s)" by (simp add: stringaa_next_read_pos_def)
        have "returns (find_loop m ?s ?t (?cs ! Suc q) (?pat ! j) f p) (\<lambda>(r, s', t'). r = find_result ?pat ?cs)"
          using "1.hyps" [of ?s f p ?t] find_branch_measure [OF goes_on(1) nx] rd "1.prems"(3,4) goes_on(2,3) True by simp
        with dn goes_on(1) nx rd True show ?thesis by (subst find_loop.simps) simp
      qed
    qed
  qed
qed

text \<open>C5: on two initialised strings whose bytes are in live memory, the pattern not empty and
  free of zero bytes, \<open>stringaa_find\<close> returns: the position of the first occurrence of the
  pattern in the text, and \<open>-1\<close> when there is none.  The loop with its backtracking neither
  diverges nor reads outside the strings.\<close>

theorem stringaa_find_correct:
  assumes "readable m s" "readable m t" "buf s \<noteq> Null" "is_init s" "buf t \<noteq> Null" "is_init t"
    and "write_pos s < 2 ^ 31" "NUL \<notin> set (chars m t)" "chars m t \<noteq> []"
  shows "returns (stringaa_find m s t) (\<lambda>(r, s', t').
      r = (case first_occurrence (chars m t) (chars m s) of None \<Rightarrow> - 1 | Some i \<Rightarrow> int i))"
proof -
  have "0 < write_pos t" using assms(9) length_greater_0_conv [of "chars m t"] by simp
  then have "find_inv (chars m s) (chars m t) 0 0 False 0" by (auto simp: find_inv_def)
  with find_loop_correct [of m "s\<lparr>read_pos := 0\<rparr>" "t\<lparr>read_pos := 0\<rparr>" False 0] assms
  show ?thesis
    by (auto simp: stringaa_find_def stringaa_begin_read_pos_def find_result_def)
qed

lemma stringaa_find_correct_witness:
  "returns (stringaa_find (memory_of [''ababc'', ''abc'']) (string_at 0 5) (string_at 1 3))
     (\<lambda>(r, s', t'). r = 2)"
proof -
  have "first_occurrence ''abc'' ''ababc'' = Some 2"
    by (simp add: first_occurrence_def occurs_at_def upt_rec)
  with stringaa_find_correct [of "memory_of [''ababc'', ''abc'']" "string_at 0 5" "string_at 1 3"]
  show ?thesis by simp
qed

end
