(* ===== verification/Http_Tables.thy ===== *)
theory Http_Tables
  imports Prelude
begin

text \<open>
  The tables of \<open>src/http/httpaa_arrays.h\<close>: the methods, the header names in the lower case that
  the parser compares with and in the case that is printed, the status codes, the directives and
  the parts of dates, with the enumerations that index them.  The headers of a message are one
  array; the general headers come first, then those of an entity, then those of a request or a
  response.
\<close>

section \<open>Methods\<close>

datatype http11_method_index =
    http11_method_options | http11_method_get | http11_method_head | http11_method_post |
    http11_method_put | http11_method_delete | http11_method_trace | http11_method_connect

definition http11_method_array :: "string list" where
  "http11_method_array =
    [''OPTIONS'', ''GET'', ''HEAD'', ''POST'', ''PUT'', ''DELETE'', ''TRACE'', ''CONNECT'']"

definition http11_methods :: "http11_method_index list" where
  "http11_methods =
    [http11_method_options, http11_method_get, http11_method_head, http11_method_post,
    http11_method_put, http11_method_delete, http11_method_trace, http11_method_connect]"

text \<open>The value of a constant of the enumeration, and the order of the values.\<close>

fun method_value :: "http11_method_index \<Rightarrow> nat" where
  "method_value http11_method_options = 0"
| "method_value http11_method_get = 1"
| "method_value http11_method_head = 2"
| "method_value http11_method_post = 3"
| "method_value http11_method_put = 4"
| "method_value http11_method_delete = 5"
| "method_value http11_method_trace = 6"
| "method_value http11_method_connect = 7"

lemma method_value_inj: "method_value a = method_value b \<Longrightarrow> a = b"
  by (cases a; cases b) simp_all

instantiation http11_method_index :: linorder
begin

definition less_eq_http11_method_index :: "http11_method_index \<Rightarrow> http11_method_index \<Rightarrow> bool" where
  "less_eq_http11_method_index a b \<longleftrightarrow> method_value a \<le> method_value b"

definition less_http11_method_index :: "http11_method_index \<Rightarrow> http11_method_index \<Rightarrow> bool" where
  "less_http11_method_index a b \<longleftrightarrow> method_value a < method_value b"

instance
  by standard (auto simp: less_eq_http11_method_index_def less_http11_method_index_def
      intro: method_value_inj)

end

lemma method_value_nth: "http11_methods ! method_value a = a"
  by (cases a) (simp_all add: http11_methods_def)

lemma http11_methods_sorted: "sorted_wrt (<) http11_methods"
  by (simp add: http11_methods_def less_http11_method_index_def)

section \<open>Headers\<close>

definition HTTP11_GENERAL_HEADER_ARRAY_START :: nat where "HTTP11_GENERAL_HEADER_ARRAY_START = 0"
definition HTTP11_ENTITY_HEADER_ARRAY_START :: nat where "HTTP11_ENTITY_HEADER_ARRAY_START = 9"
definition HTTP11_REQUEST_HEADER_ARRAY_START :: nat where "HTTP11_REQUEST_HEADER_ARRAY_START = 9 + 10"
definition HTTP11_RESPONSE_HEADER_ARRAY_START :: nat where "HTTP11_RESPONSE_HEADER_ARRAY_START = 9 + 10"

definition http11_general_header_array :: "string list" where
  "http11_general_header_array =
    [''cache-control'', ''connection'', ''date'', ''pragma'', ''trailer'', ''transfer-encoding'',
    ''upgrade'', ''via'', ''warning'']"

definition http11_general_header_original_array :: "string list" where
  "http11_general_header_original_array =
    [''Cache-Control'', ''Connection'', ''Date'', ''Pragma'', ''Trailer'', ''Transfer-Encoding'',
    ''Upgrade'', ''Via'', ''Warning'']"

definition http11_entity_header_array :: "string list" where
  "http11_entity_header_array =
    [''allow'', ''content-encoding'', ''content-language'', ''content-length'',
    ''content-location'', ''content-md5'', ''content-range'', ''content-type'', ''expires'',
    ''last-modified'']"

definition http11_entity_header_original_array :: "string list" where
  "http11_entity_header_original_array =
    [''Allow'', ''Content-Encoding'', ''Content-Language'', ''Content-Length'',
    ''Content-Location'', ''Content-Md5'', ''Content-Range'', ''Content-Type'', ''Expires'',
    ''Last-Modified'']"

definition http11_request_header_array :: "string list" where
  "http11_request_header_array =
    [''accept'', ''accept-charset'', ''accept-encoding'', ''accept-language'', ''authorization'',
    ''expect'', ''from'', ''host'', ''if-match'', ''if-modified-since'', ''if-none-match'',
    ''if-range'', ''if-unmodified-since'', ''max-forwards'', ''proxy-authorization'', ''range'',
    ''referer'', ''te'', ''user-agent'']"

definition http11_request_header_original_array :: "string list" where
  "http11_request_header_original_array =
    [''Accept'', ''Accept-Charset'', ''Accept-Encoding'', ''Accept-Language'', ''Authorization'',
    ''Expect'', ''From'', ''Host'', ''If-Match'', ''If-Modified-Since'', ''If-None-Match'',
    ''If-Range'', ''If-Unmodified-Since'', ''Max-Forwards'', ''Proxy-Authorization'', ''Range'',
    ''Referer'', ''Te'', ''User-Agent'']"

definition http11_response_header_array :: "string list" where
  "http11_response_header_array =
    [''accept-ranges'', ''age'', ''etag'', ''location'', ''proxy-authenticate'', ''retry-after'',
    ''server'', ''vary'', ''www-authenticate'']"

section \<open>Status codes\<close>

definition http11_status_code_value :: "int list" where
  "http11_status_code_value =
    [100, 101, 200, 201, 202, 203, 204, 205, 206, 300, 301, 302, 303, 304, 305, 307, 400, 401,
    402, 403, 404, 405, 406, 407, 408, 409, 410, 411, 412, 413, 414, 415, 416, 417, 500, 501,
    502, 503, 504, 505]"

definition http11_status_code_array :: "string list" where
  "http11_status_code_array =
    [''100'', ''Continue'', ''101'', ''Switching Protocols'', ''200'', ''OK'', ''201'',
    ''Created'', ''202'', ''Accepted'', ''203'', ''Non-Authoritative Information'', ''204'',
    ''No Content'', ''205'', ''Reset Content'', ''206'', ''Partial Content'', ''300'',
    ''Multiple Choices'', ''301'', ''Moved Permanently'', ''302'', ''Found'', ''303'',
    ''See Other'', ''304'', ''Not Modified'', ''305'', ''Use Proxy'', ''307'',
    ''Temporary Redirect'', ''400'', ''Bad Request'', ''401'', ''Unauthorized'', ''402'',
    ''Payment Required'', ''403'', ''Forbidden'', ''404'', ''Not Found'', ''405'',
    ''Method Not Allowed'', ''406'', ''Not Acceptable'', ''407'',
    ''Proxy Authentication Required'', ''408'', ''Request Time-out'', ''409'', ''Conflict'',
    ''410'', ''Gone'', ''411'', ''Length Required'', ''412'', ''Precondition Failed'', ''413'',
    ''Request Entity Too Large'', ''414'', ''Request-URI Too Large'', ''415'',
    ''Unsupported Media Type'', ''416'', ''Requested range not satisfiable'', ''417'',
    ''Expectation Failed'', ''500'', ''Internal Server Error'', ''501'', ''Not Implemented'',
    ''502'', ''Bad Gateway'', ''503'', ''Service Unavailable'', ''504'', ''Gateway Time-out'',
    ''505'', ''HTTP Version not supported'']"

section \<open>Directives and codings\<close>

datatype http11_header_cache_request_directive_index =
    http11_header_cache_request_directive_no_cache |
    http11_header_cache_request_directive_no_store |
    http11_header_cache_request_directive_max_age |
    http11_header_cache_request_directive_max_stale |
    http11_header_cache_request_directive_min_fresh |
    http11_header_cache_request_directive_no_transform |
    http11_header_cache_request_directive_only_if_cached

definition http11_header_cache_request_directive_array :: "string list" where
  "http11_header_cache_request_directive_array =
    [''no-cache'', ''no-store'', ''max-age'', ''max-stale'', ''min-fresh'', ''no-transform'',
    ''only-if-cached'']"

datatype http11_header_cache_response_directive_index =
    http11_header_cache_response_directive_public |
    http11_header_cache_response_directive_private |
    http11_header_cache_response_directive_no_cache |
    http11_header_cache_response_directive_no_store |
    http11_header_cache_response_directive_no_transform |
    http11_header_cache_response_directive_must_revalidate |
    http11_header_cache_response_directive_proxy_revalidate |
    http11_header_cache_response_directive_max_age |
    http11_header_cache_response_directive_s_maxage

definition http11_header_cache_response_directive_array :: "string list" where
  "http11_header_cache_response_directive_array =
    [''public'', ''private'', ''no-cache'', ''no-store'', ''no-transform'', ''must-revalidate'',
    ''proxy-revalidate'', ''max-age'', ''s-maxage'']"

definition http11_header_cache_request_directives ::
  "http11_header_cache_request_directive_index list" where
  "http11_header_cache_request_directives =
    [http11_header_cache_request_directive_no_cache,
    http11_header_cache_request_directive_no_store,
    http11_header_cache_request_directive_max_age,
    http11_header_cache_request_directive_max_stale,
    http11_header_cache_request_directive_min_fresh,
    http11_header_cache_request_directive_no_transform,
    http11_header_cache_request_directive_only_if_cached]"

definition http11_header_cache_response_directives ::
  "http11_header_cache_response_directive_index list" where
  "http11_header_cache_response_directives =
    [http11_header_cache_response_directive_public,
    http11_header_cache_response_directive_private,
    http11_header_cache_response_directive_no_cache,
    http11_header_cache_response_directive_no_store,
    http11_header_cache_response_directive_no_transform,
    http11_header_cache_response_directive_must_revalidate,
    http11_header_cache_response_directive_proxy_revalidate,
    http11_header_cache_response_directive_max_age,
    http11_header_cache_response_directive_s_maxage]"

definition http11_header_pragma_directive_array :: "string list" where
  "http11_header_pragma_directive_array =
    [''no-cache'']"

definition http11_header_transfer_coding_array :: "string list" where
  "http11_header_transfer_coding_array =
    [''chunked'', ''identity'', ''gzip'', ''compress'', ''deflate'']"

section \<open>Dates\<close>

definition http11_date_wkday_array :: "string list" where
  "http11_date_wkday_array =
    [''Mon'', ''Tue'', ''Wed'', ''Thu'', ''Fri'', ''Sat'', ''Sun'']"

definition http11_date_weekday_array :: "string list" where
  "http11_date_weekday_array =
    [''Monday'', ''Tuesday'', ''Wednesday'', ''Thursday'', ''Friday'', ''Saturday'', ''Sunday'']"

definition http11_date_month_array :: "string list" where
  "http11_date_month_array =
    [''Jan'', ''Feb'', ''Mar'', ''Apr'', ''May'', ''Jun'', ''Jul'', ''Aug'', ''Sep'', ''Oct'',
    ''Nov'', ''Dec'']"

end
