(* ===== verification/Http_Lexer.thy ===== *)
theory Http_Lexer
  imports Uri_Chars
begin

text \<open>
  The lexical level of \<open>src/http/httpaa.h\<close>: the character macros of \<open>httpaa_definitions.h\<close>, line
  ends, white space, tokens, comments and quoted strings, and the loops that every rule above
  them repeats: over the characters of a word, over a table of words, over a run of digits.
  Unlike the loops of the URI parser they ignore the result of \<open>stringaa_next_read_pos\<close> and rely
  on the zero that \<open>stringaa_get_char\<close> gives past the end; a loop that does not stop there runs
  for ever, and is a \<open>partial_function (option)\<close> whose value is then \<^const>\<open>None\<close>.
\<close>

section \<open>Character macros\<close>

definition HTTP11_CHAR :: "char \<Rightarrow> bool" where [cclass]:
  "HTTP11_CHAR c \<longleftrightarrow> 0 \<le> schar c \<and> schar c \<le> 127"

definition HTTP11_CTL :: "char \<Rightarrow> bool" where [cclass]:
  "HTTP11_CTL c \<longleftrightarrow> 0 \<le> schar c \<and> schar c \<le> 31 \<or> schar c = 127"

definition HTTP11_DIGIT :: "char \<Rightarrow> bool" where [cclass]:
  "HTTP11_DIGIT c \<longleftrightarrow> in_range (CHR ''0'') (CHR ''9'') c"

definition HTTP11_BLANK :: "char \<Rightarrow> bool" where [cclass]:
  "HTTP11_BLANK c \<longleftrightarrow> c = SP \<or> c = HT"

definition HTTP11_SEPARATORS :: "char \<Rightarrow> bool" where [cclass]:
  "HTTP11_SEPARATORS c \<longleftrightarrow> c \<in> {CHR ''('', CHR '')'', CHR ''<'', CHR ''>'', CHR ''@'', CHR '','',
     CHR '';'', CHR '':'', CHR 0x5C, CHR 0x22, CHR ''/'', CHR ''['', CHR '']'', CHR ''?'', CHR ''='',
     CHR 0x7B, CHR 0x7D, SP, HT}"

text \<open>The characters that the loop of \<open>http11_token\<close> goes over.\<close>

definition TOKEN_CHARS :: "char \<Rightarrow> bool" where [cclass]:
  "TOKEN_CHARS c \<longleftrightarrow> HTTP11_CHAR c \<and> \<not> (HTTP11_CTL c \<or> HTTP11_SEPARATORS c)"

section \<open>Loops\<close>

text \<open>\<open>stringaa_next_read_pos(request);\<close> and \<open>stringaa_prev_read_pos(request);\<close> as statements.\<close>

definition skip :: "stringaa \<Rightarrow> stringaa" where
  "skip s = snd (stringaa_next_read_pos s)"

definition step_back :: "stringaa \<Rightarrow> stringaa" where
  "step_back s = snd (stringaa_prev_read_pos s)"

text \<open>\<open>while (body) {}\<close>, and a \<open>while (1)\<close> that nothing leaves.\<close>

partial_function (option) loop_while :: "('s \<Rightarrow> (bool \<times> 's) option) \<Rightarrow> 's \<Rightarrow> 's option" where
  "loop_while body s = do { (b, s) \<leftarrow> body s; if b then loop_while body s else Some s }"

partial_function (option) forever :: "('s \<Rightarrow> 's option) \<Rightarrow> 's \<Rightarrow> 'r option" where
  "forever body s = do { s \<leftarrow> body s; forever body s }"

text \<open>\<open>while (P) { stringaa_next_read_pos(request); c = stringaa_get_char(request); }\<close>; the
  result is the last character and the string.\<close>

partial_function (option) scan_while ::
  "(char \<Rightarrow> bool) \<Rightarrow> mem \<Rightarrow> stringaa \<Rightarrow> char \<Rightarrow> (char \<times> stringaa) option" where
  "scan_while P m s c = (if P c
     then do { c \<leftarrow> stringaa_get_char m (skip s); scan_while P m (skip s) c }
     else Some (c, s))"

text \<open>The \<open>for\<close> loop of at most \<open>n\<close> such rounds, with the test \<open>i == n\<close> that follows it.\<close>

fun scan_times ::
  "(char \<Rightarrow> bool) \<Rightarrow> nat \<Rightarrow> mem \<Rightarrow> stringaa \<Rightarrow> char \<Rightarrow> (bool \<times> char \<times> stringaa) option" where
  "scan_times P 0 m s c = Some (True, c, s)"
| "scan_times P (Suc n) m s c = (if P c
     then do { c \<leftarrow> stringaa_get_char m (skip s); scan_times P n m (skip s) c }
     else Some (False, c, s))"

text \<open>\<open>for (pc = word; *pc != 0; pc++)\<close> with \<open>*pc == f(c)\<close> as its test, and \<open>*pc == 0\<close> after it.\<close>

fun match_word ::
  "(char \<Rightarrow> char) \<Rightarrow> mem \<Rightarrow> stringaa \<Rightarrow> char \<Rightarrow> string \<Rightarrow> (bool \<times> char \<times> stringaa) option" where
  "match_word f m s c [] = Some (True, c, s)"
| "match_word f m s c (w # ws) = (if w = f c
     then do { c \<leftarrow> stringaa_get_char m (skip s); match_word f m (skip s) c ws }
     else Some (False, c, s))"

text \<open>The loop over a table: neither the position nor \<open>c\<close> is set back between two entries.\<close>

fun match_table ::
  "(char \<Rightarrow> char) \<Rightarrow> mem \<Rightarrow> stringaa \<Rightarrow> char \<Rightarrow> nat \<Rightarrow> string list \<Rightarrow> (nat option \<times> stringaa) option" where
  "match_table f m s c i [] = Some (None, s)"
| "match_table f m s c i (w # ws) = do {
     (b, c, s) \<leftarrow> match_word f m s c w;
     if b then Some (Some i, s) else match_table f m s c (i + 1) ws }"

declare loop_while.simps [code] forever.simps [code] scan_while.simps [code]

section \<open>Line ends and white space\<close>

definition http11_crlf :: "mem \<Rightarrow> stringaa \<Rightarrow> (bool \<times> stringaa) option" where
  "http11_crlf m s = do {
     c \<leftarrow> stringaa_get_char m s;
     if c = CR then do {
       let s = skip s;
       c \<leftarrow> stringaa_get_char m s;
       Some (if c = LF then (True, skip s) else (False, step_back s)) }
     else Some (False, s) }"

function find_crlf_loop :: "mem \<Rightarrow> stringaa \<Rightarrow> char \<Rightarrow> (bool \<times> stringaa) option" where
  "find_crlf_loop m s c = (if read_pos s < write_pos s
     then do {
       d \<leftarrow> stringaa_get_char m (skip s);
       if c = CR \<and> d = LF then Some (True, step_back (skip s))
       else find_crlf_loop m (skip s) d }
     else Some (False, s))"
  by pat_completeness auto
termination
  by (relation "measure (\<lambda>(m, s, c). write_pos s - read_pos s)")
    (auto simp: skip_def stringaa_next_read_pos_def)

declare find_crlf_loop.simps [simp del]

definition http11_find_crlf :: "mem \<Rightarrow> stringaa \<Rightarrow> (bool \<times> stringaa) option" where
  "http11_find_crlf m s = (let pos = read_pos s in do {
     c \<leftarrow> stringaa_get_char m s;
     (b, s) \<leftarrow> find_crlf_loop m s c;
     Some (if b then (True, s) else (False, s\<lparr>read_pos := pos\<rparr>)) })"

definition http11_lws :: "mem \<Rightarrow> stringaa \<Rightarrow> (bool \<times> stringaa) option" where
  "http11_lws m s = (let pos = read_pos s in do {
     (_, s) \<leftarrow> http11_crlf m s;
     c \<leftarrow> stringaa_get_char m s;
     if HTTP11_BLANK c then do {
       let s = skip s;
       c \<leftarrow> stringaa_get_char m s;
       (c, s) \<leftarrow> scan_while HTTP11_BLANK m s c;
       Some (True, s) }
     else Some (False, s\<lparr>read_pos := pos\<rparr>) })"

section \<open>Texts, tokens, quoted strings, comments\<close>

definition http11_text :: "mem \<Rightarrow> stringaa \<Rightarrow> (bool \<times> stringaa) option" where
  "http11_text m s = do {
     c \<leftarrow> stringaa_get_char m s;
     (l, s) \<leftarrow> http11_lws m s;
     Some (\<not> HTTP11_CTL c \<or> l, s) }"

definition http11_token :: "mem \<Rightarrow> stringaa \<Rightarrow> (bool \<times> stringaa) option" where
  "http11_token m s = do {
     c \<leftarrow> stringaa_get_char m s;
     if HTTP11_CHAR c
     then if HTTP11_CTL c \<or> HTTP11_SEPARATORS c then Some (False, s)
       else do {
         let s = skip s;
         c \<leftarrow> stringaa_get_char m s;
         (c, s) \<leftarrow> scan_while TOKEN_CHARS m s c;
         Some (True, s) }
     else Some (False, s) }"

definition http11_ctext :: "mem \<Rightarrow> stringaa \<Rightarrow> (bool \<times> stringaa) option" where
  "http11_ctext m s = do {
     c \<leftarrow> stringaa_get_char m s;
     if c \<noteq> CHR ''('' \<and> c \<noteq> CHR '')'' then http11_text m s else Some (False, s) }"

definition http11_qdtext :: "mem \<Rightarrow> stringaa \<Rightarrow> (bool \<times> stringaa) option" where
  "http11_qdtext m s = do {
     c \<leftarrow> stringaa_get_char m s;
     if c \<noteq> CHR 0x22 then http11_text m s else Some (False, s) }"

definition http11_quoted_pair :: "mem \<Rightarrow> stringaa \<Rightarrow> (bool \<times> stringaa) option" where
  "http11_quoted_pair m s = do {
     c \<leftarrow> stringaa_get_char m s;
     if c = CHR 0x5C then do {
       let s = skip s;
       c \<leftarrow> stringaa_get_char m s;
       Some (if HTTP11_CHAR c then (True, skip s) else (False, step_back s)) }
     else Some (False, s) }"

definition http11_quoted_string :: "mem \<Rightarrow> stringaa \<Rightarrow> (bool \<times> stringaa) option" where
  "http11_quoted_string m s = (let pos = read_pos s in do {
     c \<leftarrow> stringaa_get_char m s;
     if c = CHR 0x22 then do {
       s \<leftarrow> loop_while (\<lambda>s. do {
         (b, s) \<leftarrow> http11_qdtext m s;
         if b then Some (True, s) else http11_quoted_pair m s }) (skip s);
       c \<leftarrow> stringaa_get_char m s;
       Some (if c = CHR 0x22 then (True, skip s) else (False, s\<lparr>read_pos := pos\<rparr>)) }
     else Some (False, s\<lparr>read_pos := pos\<rparr>) })"

text \<open>The loop of \<open>http11_comment\<close>, with the call of \<open>http11_comment\<close> in its condition unfolded.\<close>

partial_function (option) comment_loop :: "mem \<Rightarrow> stringaa \<Rightarrow> stringaa option" where
  "comment_loop m s = do {
     (b, s) \<leftarrow> http11_ctext m s;
     (b, s) \<leftarrow> (if b then Some (True, s) else http11_quoted_pair m s);
     (b, s) \<leftarrow> (if b then Some (True, s) else do {
       c \<leftarrow> stringaa_get_char m s;
       if c = CHR ''('' then do {
         s' \<leftarrow> comment_loop m (skip s);
         c \<leftarrow> stringaa_get_char m s';
         Some (if c = CHR '')'' then (True, skip s') else (False, s'\<lparr>read_pos := read_pos s\<rparr>)) }
       else Some (False, s\<lparr>read_pos := read_pos s\<rparr>) });
     if b then comment_loop m s else Some s }"

declare comment_loop.simps [code]

definition http11_comment :: "mem \<Rightarrow> stringaa \<Rightarrow> (bool \<times> stringaa) option" where
  "http11_comment m s = do {
     c \<leftarrow> stringaa_get_char m s;
     if c = CHR ''('' then do {
       s' \<leftarrow> comment_loop m (skip s);
       c \<leftarrow> stringaa_get_char m s';
       Some (if c = CHR '')'' then (True, skip s') else (False, s'\<lparr>read_pos := read_pos s\<rparr>)) }
     else Some (False, s\<lparr>read_pos := read_pos s\<rparr>) }"

lemma comment_loop_unfold: "comment_loop m s = do {
     (b, s) \<leftarrow> http11_ctext m s;
     (b, s) \<leftarrow> (if b then Some (True, s) else http11_quoted_pair m s);
     (b, s) \<leftarrow> (if b then Some (True, s) else http11_comment m s);
     if b then comment_loop m s else Some s }"
  unfolding http11_comment_def by (rule comment_loop.simps)

section \<open>What the loops compute\<close>

lemma skip_eq: "read_pos s < write_pos s \<Longrightarrow> skip s = s\<lparr>read_pos := Suc (read_pos s)\<rparr>"
  by (auto simp: skip_def stringaa_next_read_pos_def intro!: arg_cong [where f = "\<lambda>p. s\<lparr>read_pos := p\<rparr>"])

lemma skip_end: "write_pos s \<le> read_pos s \<Longrightarrow> skip s = s\<lparr>read_pos := write_pos s\<rparr>"
  by (simp add: skip_def stringaa_next_read_pos_def)

lemma step_back_eq: "p < write_pos s \<Longrightarrow> step_back (s\<lparr>read_pos := Suc p\<rparr>) = s\<lparr>read_pos := p\<rparr>"
  by (simp add: step_back_def stringaa_prev_read_pos_def)

lemma forever_Some: "forever body s = Some r \<Longrightarrow> False"
  by (rule forever.raw_induct [of "\<lambda>_ _ _. False"]) (auto simp: bind_eq_Some_conv)

lemma forever_None: "forever body s = None"
  using forever_Some not_None_eq by metis

lemma scan_while_eq:
  assumes "cursor m s" and "\<not> P NUL" and "c = peek (chars m s) (read_pos s)"
  shows "scan_while P m s c = Some (peek (chars m s) (run_end P (chars m s) (read_pos s)),
    s\<lparr>read_pos := run_end P (chars m s) (read_pos s)\<rparr>)"
  using assms
proof (induction "write_pos s - read_pos s" arbitrary: s c rule: less_induct)
  case less
  let ?cs = "chars m s" and ?p = "read_pos s"
  have ok: "readable m s" "?p \<le> write_pos s" using less(2) by (auto simp: cursor_def)
  show ?case
  proof (cases "?p < length ?cs \<and> P c")
    case False
    with ok less(3,4) show ?thesis
      by (subst scan_while.simps) (auto simp: run_end_out run_end_step peek_def split: if_splits)
  next
    case True
    then have "run_end P ?cs ?p = run_end P ?cs (Suc ?p)"
      using less(4) by (auto simp: run_end_step)
    with True less(1) [of "s\<lparr>read_pos := Suc ?p\<rparr>" "peek ?cs (Suc ?p)"] ok less(3,4) show ?thesis
      by (subst scan_while.simps) (auto simp: skip_eq cursor_def)
  qed
qed

text \<open>The number of rounds of \<open>scan_times\<close>, and of \<open>match_word\<close>.\<close>

fun common :: "'a list \<Rightarrow> 'a list \<Rightarrow> nat" where
  "common (x # xs) (y # ys) = (if x = y then Suc (common xs ys) else 0)"
| "common _ _ = 0"

lemma common_le: "common xs ys \<le> length xs" "common xs ys \<le> length ys"
  by (induction xs ys rule: common.induct) auto

lemma common_full: "common xs ys = length xs \<longleftrightarrow> take (length xs) ys = xs"
  by (induction xs ys rule: common.induct) auto

lemma common_append [simp]: "common xs (xs @ ys) = length xs"
  by (induction xs) auto

lemma scan_times_eq:
  assumes "cursor m s" and "\<not> P NUL"
  shows "scan_times P n m s (peek (chars m s) (read_pos s)) =
    Some (read_pos s + n \<le> run_end P (chars m s) (read_pos s),
      peek (chars m s) (min (read_pos s + n) (run_end P (chars m s) (read_pos s))),
      s\<lparr>read_pos := min (read_pos s + n) (run_end P (chars m s) (read_pos s))\<rparr>)"
  using assms
proof (induction n arbitrary: s)
  case 0
  then show ?case using run_end_bounds [of "read_pos s" "chars m s" P] by (simp add: cursor_def min_def)
next
  case (Suc n)
  let ?cs = "chars m s" and ?p = "read_pos s"
  have ok: "readable m s" "?p \<le> write_pos s" using Suc(2) by (auto simp: cursor_def)
  show ?case
  proof (cases "?p < length ?cs \<and> P (peek ?cs ?p)")
    case False
    with ok Suc(3) show ?thesis
      by (auto simp: run_end_out run_end_step peek_def split: if_splits)
  next
    case True
    then have "run_end P ?cs ?p = run_end P ?cs (Suc ?p)"
      by (auto simp: run_end_step)
    with True show ?thesis
      using Suc(1) [of "s\<lparr>read_pos := Suc ?p\<rparr>"] ok Suc(3) by (auto simp: skip_eq cursor_def)
  qed
qed

lemma match_word_eq:
  assumes "cursor m s" and "f NUL \<notin> set w" and "c = peek (chars m s) (read_pos s)"
  shows "match_word f m s c w = (let n = common w (map f (drop (read_pos s) (chars m s))) in
      Some (n = length w, peek (chars m s) (read_pos s + n), s\<lparr>read_pos := read_pos s + n\<rparr>))"
  using assms
proof (induction w arbitrary: s c)
  case Nil
  then show ?case by simp
next
  case (Cons w ws)
  let ?cs = "chars m s" and ?p = "read_pos s"
  have ok: "readable m s" "?p \<le> write_pos s" using Cons(2) by (auto simp: cursor_def)
  show ?case
  proof (cases "?p < length ?cs")
    case False
    with ok Cons(3,4) show ?thesis by auto
  next
    case True
    then have "drop ?p ?cs = ?cs ! ?p # drop (Suc ?p) ?cs" by (simp add: Cons_nth_drop_Suc)
    with True ok Cons(3,4) Cons(1) [of "s\<lparr>read_pos := Suc ?p\<rparr>" "peek ?cs (Suc ?p)"]
    show ?thesis by (auto simp: skip_eq cursor_def Let_def)
  qed
qed

section \<open>What the rules recognise\<close>

definition crlf_at :: "char list \<Rightarrow> nat \<Rightarrow> bool" where
  "crlf_at cs p \<longleftrightarrow> Suc p < length cs \<and> cs ! p = CR \<and> cs ! Suc p = LF"

definition first_crlf :: "char list \<Rightarrow> nat \<Rightarrow> nat option" where
  "first_crlf cs p = List.find (crlf_at cs) [p..<length cs]"

lemma first_crlf_step: "first_crlf cs p =
    (if p < length cs then if crlf_at cs p then Some p else first_crlf cs (Suc p) else None)"
  by (auto simp: first_crlf_def upt_rec)

lemma first_crlf_SomeD: "first_crlf cs p = Some q \<Longrightarrow> p \<le> q \<and> crlf_at cs q"
  by (auto simp: first_crlf_def find_Some_iff)

lemma crlf_at_peek: "crlf_at cs p \<longleftrightarrow> peek cs p = CR \<and> peek cs (Suc p) = LF"
  by (auto simp: crlf_at_def peek_def)

lemma http11_crlf_eq:
  assumes "cursor m s"
  shows "http11_crlf m s = Some (if crlf_at (chars m s) (read_pos s)
    then (True, s\<lparr>read_pos := read_pos s + 2\<rparr>) else (False, s))"
proof -
  have "read_pos s < write_pos s" if "peek (chars m s) (read_pos s) = CR"
    using that by (auto simp: peek_def split: if_splits)
  with assms show ?thesis
    by (auto simp: http11_crlf_def cursor_def crlf_at_peek skip_eq skip_end step_back_eq peek_def
        split: if_splits)
qed

lemma find_crlf_loop_eq:
  assumes "cursor m s"
  shows "find_crlf_loop m s (peek (chars m s) (read_pos s)) =
    Some (case first_crlf (chars m s) (read_pos s) of Some q \<Rightarrow> (True, s\<lparr>read_pos := q\<rparr>)
      | None \<Rightarrow> (False, s\<lparr>read_pos := write_pos s\<rparr>))"
  using assms
proof (induction "write_pos s - read_pos s" arbitrary: s rule: less_induct)
  case less
  let ?cs = "chars m s" and ?p = "read_pos s"
  have ok: "readable m s" "?p \<le> write_pos s" using less(2) by (auto simp: cursor_def)
  show ?case
  proof (cases "?p < write_pos s")
    case False
    with ok show ?thesis
      by (subst find_crlf_loop.simps, subst first_crlf_step) auto
  next
    case True
    with ok less(1) [of "s\<lparr>read_pos := Suc ?p\<rparr>"] show ?thesis
      by (subst find_crlf_loop.simps, subst first_crlf_step)
        (auto simp: skip_eq step_back_eq cursor_def crlf_at_peek split: option.split)
  qed
qed

lemma http11_find_crlf_eq:
  assumes "cursor m s"
  shows "http11_find_crlf m s = Some (case first_crlf (chars m s) (read_pos s) of
    Some q \<Rightarrow> (True, s\<lparr>read_pos := q\<rparr>) | None \<Rightarrow> (False, s))"
  using assms find_crlf_loop_eq [OF assms]
  by (simp add: http11_find_crlf_def cursor_def split: option.split)

text \<open>Where white space that begins at a position has its blanks, after an optional line end.\<close>

definition blanks_from :: "char list \<Rightarrow> nat \<Rightarrow> nat" where
  "blanks_from cs p = (if crlf_at cs p then p + 2 else p)"

lemma blank_NUL: "\<not> HTTP11_BLANK NUL"
  by (simp add: HTTP11_BLANK_def)

lemma token_NUL: "\<not> TOKEN_CHARS NUL"
  by (simp add: cclass schar_def)

lemma digit_NUL: "\<not> HTTP11_DIGIT NUL"
  by (simp add: cclass range_defs)

lemma blanks_from_le: "p \<le> length cs \<Longrightarrow> p \<le> blanks_from cs p \<and> blanks_from cs p \<le> length cs"
  by (simp add: blanks_from_def crlf_at_def)

lemma skip_scan_while:
  assumes "cursor m s" and "P (peek (chars m s) (read_pos s))" and "\<not> P NUL"
  shows "scan_while P m (skip s) (peek (chars m s) (Suc (read_pos s))) =
    Some (peek (chars m s) (run_end P (chars m s) (read_pos s)),
      s\<lparr>read_pos := run_end P (chars m s) (read_pos s)\<rparr>)" "Suc (read_pos s) \<le> write_pos s"
    "skip s = s\<lparr>read_pos := Suc (read_pos s)\<rparr>"
proof -
  show lt: "Suc (read_pos s) \<le> write_pos s"
    using assms by (cases "read_pos s < write_pos s") auto
  then show sk: "skip s = s\<lparr>read_pos := Suc (read_pos s)\<rparr>" by (simp add: skip_eq)
  have "run_end P (chars m s) (read_pos s) = run_end P (chars m s) (Suc (read_pos s))"
    using lt assms(2) by (simp add: run_end_step)
  with assms lt sk scan_while_eq [of m "skip s" P "peek (chars m s) (Suc (read_pos s))"]
  show "scan_while P m (skip s) (peek (chars m s) (Suc (read_pos s))) =
    Some (peek (chars m s) (run_end P (chars m s) (read_pos s)),
      s\<lparr>read_pos := run_end P (chars m s) (read_pos s)\<rparr>)"
    by (simp add: cursor_def)
qed

lemma http11_lws_eq:
  assumes "cursor m s"
  defines "cs \<equiv> chars m s" and "p \<equiv> blanks_from (chars m s) (read_pos s)"
  shows "http11_lws m s = Some (if HTTP11_BLANK (peek cs p)
    then (True, s\<lparr>read_pos := run_end HTTP11_BLANK cs p\<rparr>) else (False, s))"
proof -
  let ?s = "s\<lparr>read_pos := p\<rparr>"
  have c: "cursor m ?s" "read_pos s \<le> write_pos s" "readable m s"
    using assms blanks_from_le [of "read_pos s" "chars m s"] by (auto simp: cursor_def)
  have e: "(if crlf_at (chars m s) (read_pos s) then (True, s\<lparr>read_pos := read_pos s + 2\<rparr>)
      else (False, s)) = (crlf_at (chars m s) (read_pos s), ?s)"
    by (simp add: p_def blanks_from_def)
  have r: "readable m (skip ?s)" if "HTTP11_BLANK (peek cs p)"
    using skip_scan_while [of m ?s HTTP11_BLANK] that c blank_NUL by (simp add: cs_def)
  then show ?thesis
    using skip_scan_while [of m ?s HTTP11_BLANK] c blank_NUL
    by (auto simp: http11_lws_def http11_crlf_eq [OF assms(1)] e cs_def)
qed

lemma http11_token_eq:
  assumes "cursor m s"
  shows "http11_token m s = Some (if TOKEN_CHARS (peek (chars m s) (read_pos s))
    then (True, s\<lparr>read_pos := run_end TOKEN_CHARS (chars m s) (read_pos s)\<rparr>) else (False, s))"
proof -
  have "readable m s" using assms by (simp add: cursor_def)
  with assms show ?thesis
    using skip_scan_while [of m s TOKEN_CHARS] token_NUL
    by (auto simp: http11_token_def TOKEN_CHARS_def)
qed

section \<open>Quoted strings\<close>

lemma loop_while_stuck: "body s = Some (True, s) \<Longrightarrow> loop_while body s = None"
proof (rule ccontr)
  assume b: "body s = Some (True, s)" and "loop_while body s \<noteq> None"
  then obtain r where "loop_while body s = Some r" by auto
  then have "body s \<noteq> Some (True, s)"
    by (rule loop_while.raw_induct [of "\<lambda>body s _. body s \<noteq> Some (True, s)", rotated])
      (auto simp: bind_eq_Some_conv split: if_splits)
  with b show False by simp
qed

text \<open>The position after all the white space at a position.\<close>

function lws_run :: "char list \<Rightarrow> nat \<Rightarrow> nat" where
  "lws_run cs p = (if HTTP11_BLANK (peek cs (blanks_from cs p))
     then lws_run cs (run_end HTTP11_BLANK cs (blanks_from cs p)) else p)"
  by pat_completeness auto

lemma lws_progress:
  assumes "HTTP11_BLANK (peek cs (blanks_from cs p))"
  shows "p < run_end HTTP11_BLANK cs (blanks_from cs p)"
    and "run_end HTTP11_BLANK cs (blanks_from cs p) \<le> length cs"
proof -
  let ?b = "blanks_from cs p"
  have "?b < length cs"
    using assms blank_NUL by (cases "?b < length cs") auto
  moreover from this have "run_end HTTP11_BLANK cs ?b = run_end HTTP11_BLANK cs (Suc ?b)"
    using assms by (simp add: run_end_step)
  moreover have "p \<le> ?b" by (simp add: blanks_from_def)
  ultimately show "p < run_end HTTP11_BLANK cs ?b" "run_end HTTP11_BLANK cs ?b \<le> length cs"
    using run_end_bounds [of "Suc ?b" cs HTTP11_BLANK] by auto
qed

termination lws_run
proof (relation "measure (\<lambda>(cs, p). length cs - p)")
  fix cs p
  assume "HTTP11_BLANK (peek cs (blanks_from cs p))"
  from lws_progress [OF this]
  show "((cs, run_end HTTP11_BLANK cs (blanks_from cs p)), cs, p)
      \<in> measure (\<lambda>(cs, p). length cs - p)"
    by simp
qed simp

declare lws_run.simps [simp del]

definition quoted_body :: "mem \<Rightarrow> stringaa \<Rightarrow> (bool \<times> stringaa) option" where
  "quoted_body m s = do {
     (b, s) \<leftarrow> http11_qdtext m s;
     if b then Some (True, s) else http11_quoted_pair m s }"

lemma quoted_body_eq:
  assumes "cursor m s"
  defines "cs \<equiv> chars m s" and "p \<equiv> read_pos s"
  shows "quoted_body m s = Some (if HTTP11_BLANK (peek cs (blanks_from cs p))
    then (True, s\<lparr>read_pos := run_end HTTP11_BLANK cs (blanks_from cs p)\<rparr>)
    else (peek cs p \<noteq> CHR 0x22 \<and> \<not> HTTP11_CTL (peek cs p), s))"
proof -
  have "readable m s" using assms by (simp add: cursor_def)
  moreover have "peek cs p \<noteq> CHR 0x22" if "HTTP11_BLANK (peek cs (blanks_from cs p))"
    using that by (auto simp: blanks_from_def HTTP11_BLANK_def crlf_at_def split: if_splits)
  moreover have "\<not> HTTP11_CTL (CHR 0x5C)" "\<not> HTTP11_CTL (CHR 0x22)"
    by (simp_all add: HTTP11_CTL_def schar_def)
  ultimately show ?thesis
    using assms by (auto simp: quoted_body_def http11_qdtext_def http11_text_def http11_lws_eq
        http11_quoted_pair_def)
qed

lemma quoted_loop_eq:
  assumes "cursor m s"
  defines "q \<equiv> lws_run (chars m s) (read_pos s)"
  shows "loop_while (quoted_body m) s =
    (if peek (chars m s) q \<noteq> CHR 0x22 \<and> \<not> HTTP11_CTL (peek (chars m s) q) then None
     else Some (s\<lparr>read_pos := q\<rparr>))"
  using assms(1) unfolding q_def
proof (induction "write_pos s - read_pos s" arbitrary: s rule: less_induct)
  case less
  let ?cs = "chars m s" and ?p = "read_pos s"
  let ?e = "run_end HTTP11_BLANK ?cs (blanks_from ?cs ?p)"
  have ok: "readable m s" "?p \<le> write_pos s" using less(2) by (auto simp: cursor_def)
  show ?case
  proof (cases "HTTP11_BLANK (peek ?cs (blanks_from ?cs ?p))")
    case True
    note pr = lws_progress [OF True]
    with less(1) [of "s\<lparr>read_pos := ?e\<rparr>"] ok quoted_body_eq [OF less(2)] True show ?thesis
      by (subst loop_while.simps, subst (1 2 3) lws_run.simps) (simp only: bind.bind_lunit if_True prod.case, simp add: cursor_def)
  next
    case False
    then have q: "lws_run ?cs ?p = ?p" by (subst lws_run.simps) simp
    note body = quoted_body_eq [OF less(2)]
    show ?thesis
    proof (cases "peek ?cs ?p \<noteq> CHR 0x22 \<and> \<not> HTTP11_CTL (peek ?cs ?p)")
      case True
      with body False have "quoted_body m s = Some (True, s)" by simp
      from loop_while_stuck [of "quoted_body m" s, OF this] True q show ?thesis by simp
    next
      case no: False
      with body False have "quoted_body m s = Some (False, s)" by auto
      with no q show ?thesis by (subst loop_while.simps) auto
    qed
  qed
qed

text \<open>A quoted string is recognised only when it holds nothing but white space: on any other
  character \<open>http11_text\<close> reports success without a move, and the loop of \<open>http11_quoted_string\<close>
  never ends, whether the closing quote follows or not.\<close>

theorem http11_quoted_string_only_blank:
  assumes "cursor m s" and "peek (chars m s) (read_pos s) = CHR 0x22"
  defines "q \<equiv> lws_run (chars m s) (Suc (read_pos s))"
  shows "http11_quoted_string m s =
    (if peek (chars m s) q = CHR 0x22 then Some (True, s\<lparr>read_pos := min (Suc q) (write_pos s)\<rparr>)
     else if HTTP11_CTL (peek (chars m s) q) then Some (False, s) else None)"
proof -
  have lt: "read_pos s < write_pos s" "readable m s"
    using assms(1,2) by (auto simp: cursor_def peek_def split: if_splits)
  then have "cursor m (s\<lparr>read_pos := Suc (read_pos s)\<rparr>)" by (simp add: cursor_def)
  from quoted_loop_eq [OF this]
  have l: "loop_while (quoted_body m) (skip s) =
      (if peek (chars m s) q \<noteq> CHR 0x22 \<and> \<not> HTTP11_CTL (peek (chars m s) q) then None
       else Some (s\<lparr>read_pos := q\<rparr>))"
    by (simp add: skip_eq [OF lt(1)] q_def)
  have q: "q < write_pos s" if "peek (chars m s) q = CHR 0x22"
    using that by (auto simp: peek_def split: if_splits)
  have c: "\<not> HTTP11_CTL (CHR 0x22)" by (simp add: HTTP11_CTL_def schar_def)
  have e: "http11_quoted_string m s = do {
      s' \<leftarrow> loop_while (quoted_body m) (skip s);
      c \<leftarrow> stringaa_get_char m s';
      Some (if c = CHR 0x22 then (True, skip s') else (False, s'\<lparr>read_pos := read_pos s\<rparr>)) }"
    unfolding http11_quoted_string_def Let_def quoted_body_def [symmetric]
    by (simp only: stringaa_get_char_readable [OF lt(2)] assms(2) bind.bind_lunit if_True simp_thms)
  show ?thesis
    using q c lt(2) by (auto simp: e l skip_eq)
qed

lemma http11_quoted_string_only_blank_witness:
  "http11_quoted_string (memory_of [[CHR 0x22, CHR ''a'', CHR 0x22]]) (string_at 0 3) = None"
proof -
  let ?m = "memory_of [[CHR 0x22, CHR ''a'', CHR 0x22]]"
  have "lws_run [CHR 0x22, CHR ''a'', CHR 0x22] 1 = 1"
    by (simp add: lws_run.simps blanks_from_def crlf_at_def HTTP11_BLANK_def)
  then show ?thesis
    using http11_quoted_string_only_blank [of ?m "string_at 0 3"]
    by (simp add: cursor_def HTTP11_CTL_def schar_def)
qed

end
