(* ===== verification/Http_Request.thy ===== *)
theory Http_Request
  imports Http_Tables Http_Lexer Uri_Parser
begin

text \<open>
  The request parser of \<open>src/http/httpaa.h\<close>, on the structs of \<open>httpaa_structs.h\<close>: the request
  line, the headers, which the parser records as views of the request, and the loop of
  \<open>http11_request\<close>.  A function takes the struct \<open>httpaa\<close> and the request string and returns its
  result with both as they are left; the fields that a failed call has already set stay set.
\<close>

section \<open>Structs\<close>

record http11_http_version_struct =
  major_version :: int
  minor_version :: int

record http11_request_line_struct =
  rl_method :: http11_method_index
  request_uri :: uriaa
  http_version :: http11_http_version_struct

record http11_status_line_struct =
  status_http_version :: http11_http_version_struct
  reason_phrase :: stringaa

record http11_request_struct =
  request_line :: http11_request_line_struct
  request_header :: "stringaa list"
  request_body :: stringaa

record http11_response_struct =
  status_line :: http11_status_line_struct
  response_header :: "stringaa list"
  response_body :: stringaa

record httpaa =
  http_request :: http11_request_struct
  http_response :: http11_response_struct
  request_file_name :: stringaa
  response_file_name :: stringaa

text \<open>The struct after \<open>memset\<close> with zero, as the worker makes it; the header arrays have the 38
  entries of a request and the 28 of a response.\<close>

definition httpaa_zero :: httpaa where
  "httpaa_zero = (let v = \<lparr>major_version = 0, minor_version = 0\<rparr> in
     \<lparr>http_request = \<lparr>request_line = \<lparr>rl_method = http11_method_options,
          request_uri = uriaa_zero, http_version = v\<rparr>,
        request_header = replicate (9 + 19 + 10) stringaa_zero, request_body = stringaa_zero\<rparr>,
      http_response = \<lparr>status_line = \<lparr>status_http_version = v, reason_phrase = stringaa_zero\<rparr>,
        response_header = replicate (9 + 9 + 10) stringaa_zero, response_body = stringaa_zero\<rparr>,
      request_file_name = stringaa_zero, response_file_name = stringaa_zero\<rparr>)"

definition rline :: "httpaa \<Rightarrow> http11_request_line_struct" where
  "rline h = request_line (http_request h)"

definition set_rline :: "http11_request_line_struct \<Rightarrow> httpaa \<Rightarrow> httpaa" where
  "set_rline r h = h\<lparr>http_request := (http_request h)\<lparr>request_line := r\<rparr>\<rparr>"

definition headers :: "httpaa \<Rightarrow> stringaa list" where
  "headers h = request_header (http_request h)"

definition set_header :: "nat \<Rightarrow> stringaa \<Rightarrow> httpaa \<Rightarrow> httpaa" where
  "set_header i x h = h\<lparr>http_request := (http_request h)\<lparr>request_header := (headers h)[i := x]\<rparr>\<rparr>"

section \<open>The request line\<close>

text \<open>The digits are counted as they are passed.\<close>

partial_function (option) count_while ::
  "(char \<Rightarrow> bool) \<Rightarrow> mem \<Rightarrow> stringaa \<Rightarrow> char \<Rightarrow> nat \<Rightarrow> (nat \<times> char \<times> stringaa) option" where
  "count_while P m s c n = (if P c
     then do { c \<leftarrow> stringaa_get_char m (skip s); count_while P m (skip s) c (n + 1) }
     else Some (n, c, s))"

definition BUF_INT_SIZE :: nat where "BUF_INT_SIZE = 50"

declare count_while.simps [code]

text \<open>\<open>atoi\<close> on a string of digits, undefined when the value is no \<open>int\<close>.\<close>

definition decimal :: "char list \<Rightarrow> nat" where
  "decimal cs = foldl (\<lambda>n c. 10 * n + (of_char c - 48)) 0 cs"

definition c_atoi :: "char list \<Rightarrow> int option" where
  "c_atoi cs = (if decimal cs < 2 ^ 31 then Some (int (decimal cs)) else None)"

text \<open>The copy of \<open>size\<close> digits at \<open>pos\<close> to \<open>buf_int\<close>, cut to its size, and their value.\<close>

definition buf_number :: "mem \<Rightarrow> stringaa \<Rightarrow> nat \<Rightarrow> nat \<Rightarrow> int option" where
  "buf_number m s pos size1 = do {
     cs \<leftarrow> load_n m (padd (buf s) pos) (if size1 \<ge> BUF_INT_SIZE then BUF_INT_SIZE - 1 else size1);
     c_atoi cs }"

definition http11_http_version :: "mem \<Rightarrow> httpaa \<Rightarrow> stringaa \<Rightarrow> (bool \<times> httpaa \<times> stringaa) option" where
  "http11_http_version m http s = (let pos = read_pos s in do {
     c \<leftarrow> stringaa_get_char m s;
     (b, c, s) \<leftarrow> match_word c_toupper m s c ''HTTP/'';
     if b \<and> HTTP11_DIGIT c then do {
       let pos1 = read_pos s;
       c \<leftarrow> stringaa_get_char m (skip s);
       (size1, c, s) \<leftarrow> count_while HTTP11_DIGIT m (skip s) c 1;
       if c = CHR ''.'' then do {
         let s = skip s;
         c \<leftarrow> stringaa_get_char m s;
         if HTTP11_DIGIT c then do {
           let pos2 = read_pos s;
           c \<leftarrow> stringaa_get_char m (skip s);
           (size2, c, s) \<leftarrow> count_while HTTP11_DIGIT m (skip s) c 1;
           major \<leftarrow> buf_number m s pos1 size1;
           minor \<leftarrow> buf_number m s pos2 size2;
           Some (True, set_rline ((rline http)\<lparr>http_version :=
             \<lparr>major_version = major, minor_version = minor\<rparr>\<rparr>) http, s) }
         else Some (False, http, s\<lparr>read_pos := pos\<rparr>) }
       else Some (False, http, s\<lparr>read_pos := pos\<rparr>) }
     else Some (False, http, s\<lparr>read_pos := pos\<rparr>) })"

definition http11_method :: "mem \<Rightarrow> httpaa \<Rightarrow> stringaa \<Rightarrow> (bool \<times> httpaa \<times> stringaa) option" where
  "http11_method m http s = (let pos = read_pos s in do {
     c \<leftarrow> stringaa_get_char m s;
     (r, s) \<leftarrow> match_table c_toupper m s c 0 http11_method_array;
     Some (case r of
       Some i \<Rightarrow> (True, set_rline ((rline http)\<lparr>rl_method := http11_methods ! i\<rparr>) http, s)
     | None \<Rightarrow> (False, http, s\<lparr>read_pos := pos\<rparr>)) })"

definition http11_request_uri ::
  "mem \<Rightarrow> httpaa \<Rightarrow> stringaa \<Rightarrow> (bool \<times> httpaa \<times> stringaa \<times> mem) option" where
  "http11_request_uri m http s = do {
     let u = request_uri (rline http);
     (_, x, m) \<leftarrow> stringaa_set_substring m (u_uri u) s STRINGAA_READ_POS STRINGAA_WRITE_POS;
     (b, u) \<leftarrow> uriaa_check_url m (u\<lparr>u_uri := x\<rparr>);
     Some (if b
       then (True, set_rline ((rline http)\<lparr>request_uri :=
               u\<lparr>u_uri := (u_uri u)\<lparr>write_pos := read_pos (u_uri u)\<rparr>\<rparr>\<rparr>) http,
             s\<lparr>read_pos := read_pos s + read_pos (u_uri u)\<rparr>, m)
       else (False, set_rline ((rline http)\<lparr>request_uri := u\<rparr>) http, s, m)) }"

definition http11_request_line ::
  "mem \<Rightarrow> httpaa \<Rightarrow> stringaa \<Rightarrow> (bool \<times> httpaa \<times> stringaa \<times> mem) option" where
  "http11_request_line m http s = (let pos = read_pos s in do {
     (b, http, s) \<leftarrow> http11_method m http s;
     if b then do {
       c \<leftarrow> stringaa_get_char m s;
       if c = SP then do {
         (b, http, s, m) \<leftarrow> http11_request_uri m http (skip s);
         if b then do {
           c \<leftarrow> stringaa_get_char m s;
           if c = SP then do {
             (b, http, s) \<leftarrow> http11_http_version m http (skip s);
             if b then do {
               (b, s) \<leftarrow> http11_crlf m s;
               Some (b, http, if b then s else s\<lparr>read_pos := pos\<rparr>, m) }
             else Some (False, http, s\<lparr>read_pos := pos\<rparr>, m) }
           else Some (False, http, s\<lparr>read_pos := pos\<rparr>, m) }
         else Some (False, http, s\<lparr>read_pos := pos\<rparr>, m) }
       else Some (False, http, s\<lparr>read_pos := pos\<rparr>, m) }
     else Some (False, http, s\<lparr>read_pos := pos\<rparr>, m) })"

section \<open>Headers\<close>

text \<open>The loop over the letters of a name; it also ends when the string does.\<close>

fun header_word :: "mem \<Rightarrow> stringaa \<Rightarrow> char \<Rightarrow> string \<Rightarrow> (bool \<times> char \<times> stringaa) option" where
  "header_word m s c [] = Some (True, c, s)"
| "header_word m s c (w # ws) = (if w = c
     then (case stringaa_next_read_pos s of (nx, s) \<Rightarrow>
       if nx then do { c \<leftarrow> stringaa_get_char m s; header_word m s (c_tolower c) ws }
       else Some (False, c, s))
     else Some (False, c, s))"

text \<open>The loop over the names, with the way back to \<open>pos\<close> between two of them.\<close>

fun header_table ::
  "mem \<Rightarrow> nat \<Rightarrow> stringaa \<Rightarrow> char \<Rightarrow> nat \<Rightarrow> string list \<Rightarrow> (nat option \<times> stringaa) option" where
  "header_table m pos s c i [] = Some (None, s)"
| "header_table m pos s c i (w # ws) = do {
     (b, c, s) \<leftarrow> header_word m s c w;
     if b \<and> c = CHR '':'' then Some (Some i, s)
     else if read_pos s \<noteq> pos then do {
       let s = s\<lparr>read_pos := pos\<rparr>;
       c \<leftarrow> stringaa_get_char m s;
       header_table m pos s (c_tolower c) (i + 1) ws }
     else header_table m pos s c (i + 1) ws }"

text \<open>The body that the functions for the four kinds of headers share.\<close>

definition http11_header ::
  "nat \<Rightarrow> string list \<Rightarrow> mem \<Rightarrow> httpaa \<Rightarrow> stringaa \<Rightarrow> (bool \<times> httpaa \<times> stringaa \<times> mem) option" where
  "http11_header start names m http s = (let pos = read_pos s in do {
     c \<leftarrow> stringaa_get_char m s;
     (r, s) \<leftarrow> header_table m pos s (c_tolower c) 0 names;
     case r of
       Some i \<Rightarrow> do {
         let pos = read_pos s;
         (b, s) \<leftarrow> http11_find_crlf m s;
         let size1 = (if b then read_pos s - pos else write_pos s - pos);
         (_, x, m) \<leftarrow> stringaa_set_chars_size m (headers http ! (start + i)) (padd (buf s) pos) size1;
         Some (True, set_header (start + i) x http, s, m) }
     | None \<Rightarrow> Some (False, http, s\<lparr>read_pos := pos\<rparr>, m) })"

definition http11_general_header ::
  "mem \<Rightarrow> httpaa \<Rightarrow> stringaa \<Rightarrow> (bool \<times> httpaa \<times> stringaa \<times> mem) option" where
  "http11_general_header = http11_header HTTP11_GENERAL_HEADER_ARRAY_START http11_general_header_array"

definition http11_request_header ::
  "mem \<Rightarrow> httpaa \<Rightarrow> stringaa \<Rightarrow> (bool \<times> httpaa \<times> stringaa \<times> mem) option" where
  "http11_request_header = http11_header HTTP11_REQUEST_HEADER_ARRAY_START http11_request_header_array"

definition http11_response_header ::
  "mem \<Rightarrow> httpaa \<Rightarrow> stringaa \<Rightarrow> (bool \<times> httpaa \<times> stringaa \<times> mem) option" where
  "http11_response_header = http11_header HTTP11_RESPONSE_HEADER_ARRAY_START http11_response_header_array"

definition http11_entity_header ::
  "mem \<Rightarrow> httpaa \<Rightarrow> stringaa \<Rightarrow> (bool \<times> httpaa \<times> stringaa \<times> mem) option" where
  "http11_entity_header = http11_header HTTP11_ENTITY_HEADER_ARRAY_START http11_entity_header_array"

section \<open>The request\<close>

definition http11_message_body :: "stringaa \<Rightarrow> bool" where
  "http11_message_body s = False"

text \<open>The condition of the loop: the three kinds of headers in turn.\<close>

definition any_header ::
  "mem \<Rightarrow> httpaa \<Rightarrow> stringaa \<Rightarrow> (bool \<times> httpaa \<times> stringaa \<times> mem) option" where
  "any_header m http s = do {
     (b, http, s, m) \<leftarrow> http11_general_header m http s;
     if b then Some (True, http, s, m) else do {
       (b, http, s, m) \<leftarrow> http11_request_header m http s;
       if b then Some (True, http, s, m) else http11_entity_header m http s } }"

partial_function (option) request_headers ::
  "mem \<Rightarrow> httpaa \<Rightarrow> stringaa \<Rightarrow> (bool \<times> httpaa \<times> stringaa \<times> mem) option" where
  "request_headers m http s = do {
     (b, http, s, m) \<leftarrow> any_header m http s;
     if b then do {
       (b, s) \<leftarrow> http11_crlf m s;
       if b then request_headers m http s else Some (False, http, s, m) }
     else do {
       (b, s) \<leftarrow> http11_crlf m s;
       if b then Some (True, http, s, m)
       else do {
         (b, s) \<leftarrow> http11_find_crlf m s;
         if b then do { (_, s) \<leftarrow> http11_crlf m s; request_headers m http s }
         else Some (False, http, s, m) } } }"

declare request_headers.simps [code]

definition http11_request ::
  "mem \<Rightarrow> httpaa \<Rightarrow> stringaa \<Rightarrow> (bool \<times> httpaa \<times> stringaa \<times> mem) option" where
  "http11_request m http s = do {
     (b, http, s, m) \<leftarrow> http11_request_line m http s;
     if b then request_headers m http s else Some (False, http, s, m) }"

definition httpaa_parse_request_headers ::
  "mem \<Rightarrow> httpaa \<Rightarrow> stringaa \<Rightarrow> (bool \<times> httpaa \<times> stringaa \<times> mem) option" where
  "httpaa_parse_request_headers m http s = (let pos = read_pos s in do {
     (b, s) \<leftarrow> http11_find_crlf m s;
     (b, http, s, m) \<leftarrow> (if b then do {
         (_, s) \<leftarrow> http11_crlf m s;
         (b, s) \<leftarrow> http11_find_crlf m s;
         if b then http11_request m http (snd (stringaa_begin_read_pos s))
         else Some (False, http, s, m) }
       else Some (False, http, s, m));
     Some (b, http, if b then s else s\<lparr>read_pos := pos\<rparr>, m) })"

end
