(* ===== verification/Http_Headers.thy ===== *)
theory Http_Headers
  imports Http_Request
begin

text \<open>
  The header loop of \<open>http11_request\<close> as a function of the characters of the request: the line a
  header function recognises, the view it records, and the loop as a list of such records,
  \<open>head_parse\<close>.  The last section reads the list on a block of lines.
\<close>

section \<open>One name\<close>

definition name_at :: "char list \<Rightarrow> nat \<Rightarrow> string \<Rightarrow> bool" where
  "name_at cs p w \<longleftrightarrow> map c_tolower (take (length w) (drop p cs)) = w
     \<and> peek cs (p + length w) = CHR '':''"

lemma tolower_colon [simp]: "c_tolower c = CHR '':'' \<longleftrightarrow> c = CHR '':''"
  unfolding char_eq_nat [of "c_tolower c"] char_eq_nat [of c] of_char_tolower by auto

lemma tolower_NUL [simp]: "c_tolower NUL = NUL"
  by (simp add: c_tolower_def range_defs)

lemma header_word_eq:
  assumes "cursor m s" and "NUL \<notin> set w" and "c = c_tolower (peek (chars m s) (read_pos s))"
  shows "\<exists>b c'. header_word m s c w = Some (b, c', s\<lparr>read_pos := read_pos s
      + common w (map c_tolower (drop (read_pos s) (chars m s)))\<rparr>)
    \<and> (b \<longleftrightarrow> common w (map c_tolower (drop (read_pos s) (chars m s))) = length w
        \<and> (w \<noteq> [] \<longrightarrow> read_pos s + length w < write_pos s))
    \<and> (b \<longrightarrow> c' = c_tolower (peek (chars m s) (read_pos s + length w)))"
  using assms
proof (induction w arbitrary: s c)
  case Nil
  then show ?case by (intro exI [of _ True] exI [of _ c]) simp
next
  case (Cons w ws)
  let ?cs = "chars m s" and ?p = "read_pos s"
  have ok: "readable m s" "?p \<le> write_pos s" using Cons(2) by (auto simp: cursor_def)
  show ?case
  proof (cases "?p < write_pos s \<and> w = c")
    case False
    with ok Cons(3,4) show ?thesis
      by (cases "?p < write_pos s") (auto simp: Cons_nth_drop_Suc [symmetric])
  next
    case True
    then have d: "drop ?p ?cs = ?cs ! ?p # drop (Suc ?p) ?cs" by (simp add: Cons_nth_drop_Suc)
    have w: "w = c_tolower (?cs ! ?p)" using True Cons(4) by simp
    show ?thesis
    proof (cases "Suc ?p < write_pos s")
      case lt: True
      with True ok Cons(3,4) Cons(1) [of "s\<lparr>read_pos := Suc ?p\<rparr>" "c_tolower (peek ?cs (Suc ?p))"]
      obtain b c' where "header_word m (s\<lparr>read_pos := Suc ?p\<rparr>) (c_tolower (peek ?cs (Suc ?p))) ws =
            Some (b, c', s\<lparr>read_pos := Suc ?p + common ws (map c_tolower (drop (Suc ?p) ?cs))\<rparr>)"
          "b \<longleftrightarrow> common ws (map c_tolower (drop (Suc ?p) ?cs)) = length ws
            \<and> (ws \<noteq> [] \<longrightarrow> Suc ?p + length ws < write_pos s)"
          "b \<longrightarrow> c' = c_tolower (peek ?cs (Suc ?p + length ws))"
        by (auto simp: cursor_def)
      with True lt ok w Cons(4) show ?thesis
        by (auto simp: d stringaa_next_read_pos_def)
    next
      case False
      with True have "Suc ?p = write_pos s" by simp
      with True False w Cons(4) show ?thesis
        by (auto simp: d stringaa_next_read_pos_def)
    qed
  qed
qed

text \<open>The first name of a table that a line has, with its index and length.\<close>

fun name_index :: "char list \<Rightarrow> nat \<Rightarrow> nat \<Rightarrow> string list \<Rightarrow> (nat \<times> nat) option" where
  "name_index cs p i [] = None"
| "name_index cs p i (w # ws) =
     (if name_at cs p w then Some (i, length w) else name_index cs p (i + 1) ws)"

lemma header_table_eq:
  assumes "cursor m s" and "\<forall>w \<in> set ws. NUL \<notin> set w \<and> w \<noteq> []"
    and "c = c_tolower (peek (chars m s) (read_pos s))"
  shows "header_table m (read_pos s) s c i ws = Some (case name_index (chars m s) (read_pos s) i ws of
    Some (j, n) \<Rightarrow> (Some j, s\<lparr>read_pos := read_pos s + n\<rparr>) | None \<Rightarrow> (None, s))"
  using assms(2)
proof (induction ws arbitrary: i)
  case Nil
  then show ?case by simp
next
  case (Cons w ws)
  let ?cs = "chars m s" and ?p = "read_pos s"
  let ?n = "common w (map c_tolower (drop ?p ?cs))"
  have ok: "readable m s" using assms(1) by (simp add: cursor_def)
  from header_word_eq [OF assms(1) _ assms(3), of w] Cons(2)
  obtain b c' where b: "header_word m s c w = Some (b, c', s\<lparr>read_pos := ?p + ?n\<rparr>)"
      "b \<longleftrightarrow> ?n = length w \<and> ?p + length w < write_pos s"
      "b \<longrightarrow> c' = c_tolower (peek ?cs (?p + length w))"
    by auto
  have at: "name_at ?cs ?p w \<longleftrightarrow> b \<and> c' = CHR '':''"
    using b(2,3) by (auto simp: name_at_def common_full take_map peek_def split: if_splits)
  have len: "?n = length w" if "name_at ?cs ?p w"
    using that b(2) at by simp
  show ?case
  proof (cases "name_at ?cs ?p w")
    case True
    with at b(1) len show ?thesis by simp
  next
    case False
    have "?p + ?n \<noteq> ?p \<or> s\<lparr>read_pos := ?p + ?n\<rparr> = s \<and> c' = c" if "\<not> b"
    proof (cases w)
      case (Cons a as)
      have "?n = 0 \<Longrightarrow> a \<noteq> c"
      proof
        assume "?n = 0" "a = c"
        with Cons Cons.prems assms(3) have "?p < write_pos s"
          by (cases "?p < write_pos s") auto
        with \<open>?n = 0\<close> \<open>a = c\<close> Cons assms(3) show False
          by (simp add: Cons_nth_drop_Suc [symmetric])
      qed
      with Cons b(1) show ?thesis by (cases "?n = 0") auto
    qed (use Cons.prems in simp)
    moreover have "?n > 0" if b
      using that b(2) Cons.prems by (cases w) auto
    ultimately show ?thesis
      using False at b(1) Cons assms(3) ok by (cases "?n = 0") auto
  qed
qed

section \<open>One header\<close>

text \<open>The view \<open>[q, e)\<close> of the request that a header becomes.\<close>

definition header_view :: "stringaa \<Rightarrow> nat \<Rightarrow> nat \<Rightarrow> stringaa \<Rightarrow> stringaa" where
  "header_view s q e x = x\<lparr>buf := padd (buf s) q, buf_size := e - q, read_pos := 0,
     write_pos := e - q, is_init := True, is_alloc := False, is_null_terminated := False,
     is_link := False, is_binary := False\<rparr>"

definition set_view :: "stringaa \<Rightarrow> nat \<times> nat \<times> nat \<Rightarrow> httpaa \<Rightarrow> httpaa" where
  "set_view s = (\<lambda>(k, q, e) http. set_header k (header_view s q e (headers http ! k)) http)"

definition line_end :: "char list \<Rightarrow> nat \<Rightarrow> nat" where
  "line_end cs q = (case first_crlf cs q of Some e \<Rightarrow> e | None \<Rightarrow> length cs)"

text \<open>No header of the struct owns a block, and the array has its 38 entries.\<close>

definition headers_ok :: "httpaa \<Rightarrow> bool" where
  "headers_ok http \<longleftrightarrow> length (headers http) = 38 \<and> (\<forall>x \<in> set (headers http). \<not> is_alloc x)"

lemma headers_ok_zero: "headers_ok httpaa_zero"
  by (simp add: headers_ok_def headers_def httpaa_zero_def Let_def)

lemma headers_set_header [simp]: "headers (set_header k x http) = (headers http)[k := x]"
  by (simp add: headers_def set_header_def)

lemma headers_set_rline [simp]: "headers (set_rline r http) = headers http"
  by (simp add: headers_def set_rline_def)

lemma headers_ok_set_view [simp]: "headers_ok http \<Longrightarrow> headers_ok (set_view s a http)"
  by (auto simp: headers_ok_def set_view_def header_view_def dest!: set_update_subset_insert [THEN subsetD]
      split: prod.split)

lemma header_view_read_pos [simp]: "header_view (s\<lparr>read_pos := p\<rparr>) = header_view s"
  by (simp add: header_view_def fun_eq_iff)

lemma set_view_read_pos [simp]: "set_view (s\<lparr>read_pos := p\<rparr>) = set_view s"
  by (simp add: set_view_def fun_eq_iff)

lemma set_chars_size_view:
  assumes "\<not> is_alloc x" and "buf s \<noteq> Null" and "q < e"
  shows "stringaa_set_chars_size m x (padd (buf s) q) (e - q) = Some (True, header_view s q e x, m)"
  using assms by (simp add: stringaa_set_chars_size_def set_flags_def header_view_def end_of_def)

definition header_find :: "char list \<Rightarrow> nat \<Rightarrow> (nat \<times> string) list \<Rightarrow> (nat \<times> string) option" where
  "header_find cs p = List.find (\<lambda>(k, w). name_at cs p w)"

lemma name_index_find: "map_option (\<lambda>(j, n). (start + j, n)) (name_index cs p i ws) =
    map_option (\<lambda>(k, w). (k, length w)) (header_find cs p (List.enumerate (start + i) ws))"
  by (induction ws arbitrary: i) (auto simp: header_find_def)

lemma name_at_lt: "name_at cs p w \<Longrightarrow> p + length w < length cs"
  by (auto simp: name_at_def peek_def split: if_splits)

lemma header_findD: "header_find cs p ks = Some (k, w) \<Longrightarrow> (k, w) \<in> set ks \<and> name_at cs p w"
  by (auto simp: header_find_def find_Some_iff) (metis nth_mem)

lemma header_find_append: "header_find cs p (xs @ ys) =
    (case header_find cs p xs of None \<Rightarrow> header_find cs p ys | Some r \<Rightarrow> Some r)"
  by (induction xs) (auto simp: header_find_def)

text \<open>The effect of a header function that recognises the name \<open>w\<close> for the header \<open>k\<close>, or none.\<close>

definition header_result ::
  "mem \<Rightarrow> httpaa \<Rightarrow> stringaa \<Rightarrow> (nat \<times> string) option \<Rightarrow> bool \<times> httpaa \<times> stringaa \<times> mem" where
  "header_result m http s r = (case r of None \<Rightarrow> (False, http, s, m)
     | Some (k, w) \<Rightarrow> let q = read_pos s + length w in
         (True, set_view s (k, q, line_end (chars m s) q) http,
          s\<lparr>read_pos := (case first_crlf (chars m s) q of Some e \<Rightarrow> e | None \<Rightarrow> q)\<rparr>, m))"

lemma cursor_buf: "cursor m s \<Longrightarrow> p < write_pos s \<Longrightarrow> buf s \<noteq> Null"
  by (auto simp: cursor_def readable_def load_n_def)

lemma http11_header_eq:
  assumes "cursor m s" and "headers_ok http" and "start + length names \<le> 38"
    and "\<forall>w \<in> set names. NUL \<notin> set w \<and> w \<noteq> []"
  shows "http11_header start names m http s =
    Some (header_result m http s (header_find (chars m s) (read_pos s) (List.enumerate start names)))"
proof -
  let ?cs = "chars m s" and ?p = "read_pos s"
  note ix = name_index_find [of start ?cs ?p 0 names]
  note tab = header_table_eq [OF assms(1,4) refl, of 0]
  have ok: "readable m s" using assms(1) by (simp add: cursor_def)
  show ?thesis
  proof (cases "header_find ?cs ?p (List.enumerate start names)")
    case None
    with ix have "name_index ?cs ?p 0 names = None" by simp
    with None tab ok show ?thesis by (simp add: http11_header_def header_result_def)
  next
    case (Some kw)
    obtain k w where kw: "kw = (k, w)" by fastforce
    with ix Some obtain j where j: "name_index ?cs ?p 0 names = Some (j, length w)" "k = start + j"
      by (cases "name_index ?cs ?p 0 names") auto
    from header_findD [OF Some [unfolded kw]] have at: "name_at ?cs ?p w"
      and "(k, w) \<in> set (List.enumerate start names)" by auto
    then have k: "k < 38" using assms(3) by (auto simp: in_set_enumerate_eq)
    let ?q = "?p + length w" and ?s = "s\<lparr>read_pos := ?p + length w\<rparr>"
    have q: "?q < write_pos s" "?cs ! ?q = CHR '':''"
      using name_at_lt [OF at] at by (auto simp: name_at_def)
    then have c: "cursor m ?s" "buf s \<noteq> Null" using ok cursor_buf [OF assms(1) q(1)] by (auto simp: cursor_def)
    have "\<not> is_alloc (headers http ! k)" using assms(2) k by (simp add: headers_ok_def)
    note set = set_chars_size_view [OF this c(2)]
    show ?thesis
    proof (cases "first_crlf ?cs ?q")
      case fc: None
      with set [OF q(1)] q(1) kw Some j tab ok http11_find_crlf_eq [OF c(1)] show ?thesis
        by (simp add: http11_header_def header_result_def set_view_def line_end_def Let_def)
    next
      case fc: (Some e)
      have "?q < e"
        using first_crlf_SomeD [OF fc] q(2) by (cases "e = ?q") (auto simp: crlf_at_def)
      with fc set [OF this] kw Some j tab ok http11_find_crlf_eq [OF c(1)] show ?thesis
        by (simp add: http11_header_def header_result_def set_view_def line_end_def Let_def)
    qed
  qed
qed

section \<open>The loop\<close>

text \<open>The names in the order in which the loop tries them, with their indices in the array.\<close>

definition header_names :: "(nat \<times> string) list" where
  "header_names = List.enumerate HTTP11_GENERAL_HEADER_ARRAY_START http11_general_header_array
     @ List.enumerate HTTP11_REQUEST_HEADER_ARRAY_START http11_request_header_array
     @ List.enumerate HTTP11_ENTITY_HEADER_ARRAY_START http11_entity_header_array"

lemmas header_tables = http11_general_header_array_def http11_request_header_array_def
  http11_entity_header_array_def HTTP11_GENERAL_HEADER_ARRAY_START_def
  HTTP11_REQUEST_HEADER_ARRAY_START_def HTTP11_ENTITY_HEADER_ARRAY_START_def

lemma any_header_eq:
  assumes "cursor m s" and "headers_ok http"
  shows "any_header m http s =
    Some (header_result m http s (header_find (chars m s) (read_pos s) header_names))"
proof -
  have g: "http11_general_header m http s = Some (header_result m http s (header_find (chars m s)
      (read_pos s) (List.enumerate HTTP11_GENERAL_HEADER_ARRAY_START http11_general_header_array)))"
    unfolding http11_general_header_def
    by (rule http11_header_eq [OF assms]) (simp_all add: header_tables)
  have r: "http11_request_header m http s = Some (header_result m http s (header_find (chars m s)
      (read_pos s) (List.enumerate HTTP11_REQUEST_HEADER_ARRAY_START http11_request_header_array)))"
    unfolding http11_request_header_def
    by (rule http11_header_eq [OF assms]) (simp_all add: header_tables)
  have e: "http11_entity_header m http s = Some (header_result m http s (header_find (chars m s)
      (read_pos s) (List.enumerate HTTP11_ENTITY_HEADER_ARRAY_START http11_entity_header_array)))"
    unfolding http11_entity_header_def
    by (rule http11_header_eq [OF assms]) (simp_all add: header_tables)
  show ?thesis
    unfolding any_header_def g header_names_def header_find_append
    using r e by (auto simp: header_result_def Let_def split: option.split)
qed

text \<open>The headers the loop records, as indices and ranges, its result and its final position.\<close>

function head_parse :: "char list \<Rightarrow> nat \<Rightarrow> (nat \<times> nat \<times> nat) list \<times> bool \<times> nat" where
  "head_parse cs p = (case header_find cs p header_names of
     Some (k, w) \<Rightarrow> (let q = p + length w in case first_crlf cs q of
         Some e \<Rightarrow> (let (vs, r) = head_parse cs (e + 2) in ((k, q, e) # vs, r))
       | None \<Rightarrow> ([(k, q, length cs)], False, q))
   | None \<Rightarrow> if crlf_at cs p then ([], True, p + 2)
       else case first_crlf cs p of Some e \<Rightarrow> head_parse cs (e + 2) | None \<Rightarrow> ([], False, p))"
  by pat_completeness auto
termination
  by (relation "measure (\<lambda>(cs, p). length cs - p)")
    (auto dest!: first_crlf_SomeD simp: crlf_at_def)

declare head_parse.simps [simp del]

lemma crlf_at_first: "first_crlf cs p = Some e \<Longrightarrow> crlf_at cs e \<and> p \<le> e \<and> e + 2 \<le> length cs"
  using first_crlf_SomeD [of cs p e] by (auto simp: crlf_at_def)

lemma request_headers_eq:
  assumes "cursor m s" and "headers_ok http"
  shows "request_headers m http s = (case head_parse (chars m s) (read_pos s) of (vs, b, q) \<Rightarrow>
    Some (b, fold (set_view s) vs http, s\<lparr>read_pos := q\<rparr>, m))"
  using assms
proof (induction "write_pos s - read_pos s" arbitrary: s http rule: less_induct)
  case less
  let ?cs = "chars m s" and ?p = "read_pos s"
  have ok: "readable m s" "?p \<le> write_pos s" using less(2) by (auto simp: cursor_def)
  have rec: "request_headers m h (s\<lparr>read_pos := e + 2\<rparr>) = (case head_parse ?cs (e + 2) of (vs, b, q) \<Rightarrow>
      Some (b, fold (set_view s) vs h, s\<lparr>read_pos := q\<rparr>, m))"
    if "headers_ok h" "first_crlf ?cs q = Some e" "?p \<le> q" for h e q
  proof -
    have "e + 2 \<le> write_pos s" "write_pos s - (e + 2) < write_pos s - ?p"
      using crlf_at_first [OF that(2)] that(3) by auto
    with less(1) [of "s\<lparr>read_pos := e + 2\<rparr>" h] that(1) ok show ?thesis
      by (simp add: cursor_def)
  qed
  note unf = request_headers.simps [of m http s] any_header_eq [OF less(2,3)]
  show ?case
  proof (cases "header_find ?cs ?p header_names")
    case (Some kw)
    obtain k w where kw: "kw = (k, w)" by fastforce
    let ?q = "?p + length w"
    have "?q < write_pos s" using header_findD [OF Some [unfolded kw]] name_at_lt by fastforce
    then have cq: "cursor m (s\<lparr>read_pos := ?q\<rparr>)" using ok by (simp add: cursor_def)
    let ?h = "set_view s (k, ?q, line_end ?cs ?q) http"
    show ?thesis
    proof (cases "first_crlf ?cs ?q")
      case None
      have "\<not> crlf_at ?cs ?q"
        using None by (subst (asm) first_crlf_step) (auto split: if_splits simp: crlf_at_def)
      with None Some kw http11_crlf_eq [OF cq] show ?thesis
        by (subst head_parse.simps)
          (simp add: unf header_result_def Let_def line_end_def)
    next
      case fc: (Some e)
      note e = crlf_at_first [OF fc]
      from e have "cursor m (s\<lparr>read_pos := e\<rparr>)" using ok by (simp add: cursor_def)
      note cr = http11_crlf_eq [OF this]
      have le: "line_end ?cs ?q = e" by (simp add: line_end_def fc)
      show ?thesis
        using Some kw fc e cr rec [of ?h ?q e] less(3)
        by (subst head_parse.simps)
          (simp add: unf header_result_def Let_def le split: prod.split)
    qed
  next
    case None
    show ?thesis
    proof (cases "crlf_at ?cs ?p \<or> first_crlf ?cs ?p = None")
      case True
      with None http11_crlf_eq [OF less(2)] http11_find_crlf_eq [OF less(2)] show ?thesis
        by (subst head_parse.simps) (auto simp: unf header_result_def)
    next
      case False
      then obtain e where fc: "first_crlf ?cs ?p = Some e" and nc: "\<not> crlf_at ?cs ?p" by auto
      note e = crlf_at_first [OF fc]
      from e have "cursor m (s\<lparr>read_pos := e\<rparr>)" using ok by (simp add: cursor_def)
      note cr = http11_crlf_eq [OF this]
      show ?thesis
        using None nc fc e cr rec [of http ?p e] less(3) http11_crlf_eq [OF less(2)]
          http11_find_crlf_eq [OF less(2)]
        by (subst head_parse.simps) (simp add: unf header_result_def split: prod.split)
    qed
  qed
qed

section \<open>Blocks of lines\<close>

text \<open>A header line, without its line end, and a block of them with the empty line that ends it.\<close>

definition line_ok :: "char list \<Rightarrow> bool" where
  "line_ok l \<longleftrightarrow> l \<noteq> [] \<and> (\<forall>i < length l. \<not> crlf_at (l @ [CR, LF]) i)"

definition block :: "char list list \<Rightarrow> char list" where
  "block ls = concat (map (\<lambda>l. l @ [CR, LF]) ls) @ [CR, LF]"

lemma block_simps [simp]: "block [] = [CR, LF]" "block (l # ls) = l @ CR # LF # block ls"
  by (simp_all add: block_def)

text \<open>The header a line sets, with the name it is written under.\<close>

definition line_name :: "char list \<Rightarrow> string \<Rightarrow> bool" where
  "line_name l w \<longleftrightarrow> length w < length l \<and> map c_tolower (take (length w) l) = w \<and> l ! length w = CHR '':''"

definition line_header :: "char list \<Rightarrow> (nat \<times> string) option" where
  "line_header l = List.find (\<lambda>(k, w). line_name l w) header_names"

text \<open>The text a block gives a header: what follows the name in the last line that sets it.\<close>

fun header_value :: "char list list \<Rightarrow> nat \<Rightarrow> char list option" where
  "header_value [] k = None"
| "header_value (l # ls) k = (case header_value ls k of Some v \<Rightarrow> Some v
     | None \<Rightarrow> (case line_header l of
         Some (j, w) \<Rightarrow> if j = k then Some (drop (length w) l) else None
       | None \<Rightarrow> None))"

fun line_views :: "nat \<Rightarrow> char list list \<Rightarrow> (nat \<times> nat \<times> nat) list" where
  "line_views p [] = []"
| "line_views p (l # ls) = (case line_header l of
       Some (k, w) \<Rightarrow> [(k, p + length w, p + length l)] | None \<Rightarrow> [])
     @ line_views (p + length l + 2) ls"

lemma header_names_ok: "(k, w) \<in> set header_names \<Longrightarrow> k < 38 \<and> w \<noteq> [] \<and> CR \<notin> set w"
  unfolding header_names_def header_tables by auto

lemma tolower_CR [simp]: "c_tolower CR = CR"
  by (simp add: c_tolower_def range_defs)

lemma name_at_line:
  assumes "w \<noteq> []" and "CR \<notin> set w"
  shows "name_at (pre @ l @ CR # post) (length pre) w \<longleftrightarrow> line_name l w"
proof (cases "length w < length l")
  case True
  then show ?thesis by (auto simp: name_at_def line_name_def nth_append)
next
  case False
  have "CR \<in> set w" if "map c_tolower (take (length w) (l @ CR # post)) = w" "length w \<noteq> length l"
  proof -
    have "length l < length w" using that(2) False by simp
    then have "map c_tolower (take (length w) (l @ CR # post)) ! length l = CR"
      by (simp add: nth_append)
    with that(1) \<open>length l < length w\<close> show ?thesis by (metis nth_mem)
  qed
  moreover have "peek (pre @ l @ CR # post) (length pre + length l) = CR"
    by (simp add: nth_append)
  ultimately show ?thesis
    using False assms(2)
    by (cases "length w = length l") (auto simp: name_at_def line_name_def)
qed

lemma find_cong: "(\<And>x. x \<in> set xs \<Longrightarrow> P x = Q x) \<Longrightarrow> List.find P xs = List.find Q xs"
  by (induction xs) auto

lemma header_find_line:
  "header_find (pre @ l @ CR # post) (length pre) header_names = line_header l"
  unfolding header_find_def line_header_def
  by (rule find_cong) (use header_names_ok name_at_line in fast)

lemma line_header_nil [simp]: "line_header [] = None"
  by (simp add: line_header_def line_name_def find_None_iff)

lemma line_headerD: "line_header l = Some (k, w) \<Longrightarrow> k < 38 \<and> length w < length l"
  using header_names_ok [of k w] nth_mem [of _ header_names]
  by (auto simp: line_header_def find_Some_iff line_name_def) (metis nth_mem header_names_ok)

lemma first_crlfI:
  "q \<le> e \<Longrightarrow> crlf_at cs e \<Longrightarrow> (\<And>i. q \<le> i \<Longrightarrow> i < e \<Longrightarrow> \<not> crlf_at cs i) \<Longrightarrow> first_crlf cs q = Some e"
proof (induction "e - q" arbitrary: q)
  case 0
  then show ?case by (subst first_crlf_step) (auto simp: crlf_at_def)
next
  case (Suc n)
  then have "first_crlf cs (Suc q) = Some e" by (intro Suc(1)) auto
  with Suc show ?case by (subst first_crlf_step) (auto simp: crlf_at_def)
qed

lemma crlf_at_line:
  assumes "line_ok l" and "i \<le> length l"
  shows "crlf_at (pre @ l @ CR # LF # post) (length pre + i) \<longleftrightarrow> i = length l"
proof (cases "i = length l")
  case True
  then show ?thesis by (simp add: crlf_at_def nth_append)
next
  case False
  with assms have "\<not> crlf_at (l @ [CR, LF]) i" "i < length l" by (auto simp: line_ok_def)
  then show ?thesis by (auto simp: crlf_at_def nth_append split: if_splits)
qed

lemma first_crlf_line:
  assumes "line_ok l" and "i \<le> length l"
  shows "first_crlf (pre @ l @ CR # LF # post) (length pre + i) = Some (length pre + length l)"
proof (rule first_crlfI)
  fix j
  assume "length pre + i \<le> j" "j < length pre + length l"
  with crlf_at_line [OF assms(1), of "j - length pre" pre post]
  show "\<not> crlf_at (pre @ l @ CR # LF # post) j" by auto
qed (use assms crlf_at_line [OF assms(1), of "length l" pre post] in simp_all)

lemma head_parse_block:
  assumes "\<forall>l \<in> set ls. line_ok l"
  shows "head_parse (pre @ block ls @ body) (length pre) =
    (line_views (length pre) ls, True, length pre + length (block ls))"
  using assms
proof (induction ls arbitrary: pre)
  case Nil
  then show ?case
    using header_find_line [of pre "[]" "LF # body"]
    by (subst head_parse.simps) (simp add: crlf_at_def nth_append)
next
  case (Cons l ls)
  let ?cs = "pre @ l @ CR # LF # block ls @ body"
  have l: "line_ok l" and ls: "\<forall>l \<in> set ls. line_ok l" using Cons(2) by auto
  have rec: "head_parse ?cs (length pre + length l + 2) =
      (line_views (length pre + length l + 2) ls, True, length pre + length l + 2 + length (block ls))"
    using Cons(1) [OF ls, of "pre @ l @ [CR, LF]"] by simp
  note find = header_find_line [of pre l "LF # block ls @ body"]
  show ?case
  proof (cases "line_header l")
    case None
    have "\<not> crlf_at ?cs (length pre)"
      using crlf_at_line [OF l, of 0 pre "block ls @ body"] l by (auto simp: line_ok_def)
    with None find rec first_crlf_line [OF l, of 0 pre "block ls @ body"] show ?thesis
      by (subst head_parse.simps) simp
  next
    case (Some kw)
    obtain k w where kw: "kw = (k, w)" by fastforce
    from line_headerD [OF Some [unfolded kw]] have "length w \<le> length l" by simp
    with Some kw find rec first_crlf_line [OF l, of "length w" pre "block ls @ body"] show ?thesis
      by (subst head_parse.simps) (simp add: Let_def)
  qed
qed

lemma header_view_chars:
  assumes "readable m s" and "q \<le> e" and "e \<le> write_pos s"
  shows "readable m (header_view s q e x)"
    "chars m (header_view s q e x) = take (e - q) (drop q (chars m s))"
  using load_n_readable [OF assms(1), of q "e - q"] assms(2,3)
  by (simp_all add: readable_def chars_def header_view_def)

text \<open>A header that a line sets is a view of the text after its name, up to the line end.\<close>

definition views_text :: "mem \<Rightarrow> stringaa \<Rightarrow> char list \<Rightarrow> stringaa \<Rightarrow> bool" where
  "views_text m s v x \<longleftrightarrow> (\<exists>q y r. x = header_view s q (q + length v) y \<and> drop q (chars m s) = v @ CR # r)"

lemma fold_views_text:
  assumes "chars m s = pre @ block ls @ body" and "length (headers http) = 38" and "k < 38"
  shows "case header_value ls k of
      None \<Rightarrow> headers (fold (set_view s) (line_views (length pre) ls) http) ! k = headers http ! k
    | Some v \<Rightarrow> views_text m s v (headers (fold (set_view s) (line_views (length pre) ls) http) ! k)"
  using assms(1,2)
proof (induction ls arbitrary: pre http)
  case Nil
  then show ?case by simp
next
  case (Cons l ls)
  have cs: "chars m s = (pre @ l @ [CR, LF]) @ block ls @ body" using Cons(2) by simp
  note rec = Cons(1) [OF cs]
  show ?case
  proof (cases "line_header l")
    case None
    with rec [of http] Cons(3) show ?thesis by (cases "header_value ls k") simp_all
  next
    case (Some kw)
    obtain j w where kw: "kw = (j, w)" by fastforce
    from line_headerD [OF Some [unfolded kw]] have j: "j < 38" "length w \<le> length l" by auto
    let ?q = "length pre + length w"
    have "drop ?q (chars m s) = drop (length w) l @ CR # LF # block ls @ body" using cs j(2) by simp
    moreover have "length pre + length l = ?q + length (drop (length w) l)" using j(2) by simp
    ultimately have v: "views_text m s (drop (length w) l) (header_view s ?q (length pre + length l) (headers http ! j))"
      unfolding views_text_def
      by (intro exI [of _ ?q] exI [of _ "headers http ! j"] exI [of _ "LF # block ls @ body"]) simp
    with rec [of "set_view s (j, ?q, length pre + length l) http"] Some kw j(1) Cons(3) assms(3)
    show ?thesis
      by (auto simp: set_view_def nth_list_update split: option.split_asm option.split)
  qed
qed

text \<open>What a header is after a block has been parsed.\<close>

definition header_is :: "mem \<Rightarrow> stringaa \<Rightarrow> char list option \<Rightarrow> stringaa \<Rightarrow> bool" where
  "header_is m old v x = (case v of None \<Rightarrow> x = old
     | Some v \<Rightarrow> is_init x \<and> readable m x \<and> chars m x = v)"

lemma views_text_is:
  assumes "views_text m s v x" and "readable m s"
  shows "header_is m old (Some v) x"
proof -
  from assms(1) obtain q y r where x: "x = header_view s q (q + length v) y" "drop q (chars m s) = v @ CR # r"
    by (auto simp: views_text_def)
  have "q + length v \<le> write_pos s" using arg_cong [OF x(2), of length] by simp
  note c = header_view_chars [OF assms(2) _ this, of q y, folded x(1)]
  have "is_init x" using x(1) by (simp add: header_view_def)
  then show ?thesis using c x(2) by (simp add: header_is_def)
qed

lemma fold_line_views:
  assumes "readable m s" and "chars m s = pre @ block ls @ body" and "length (headers http) = 38"
    and "k < 38"
  shows "header_is m (headers http ! k) (header_value ls k)
    (headers (fold (set_view s) (line_views (length pre) ls) http) ! k)"
  using fold_views_text [OF assms(2-4)] views_text_is [OF _ assms(1)]
  by (cases "header_value ls k") (auto simp: header_is_def)

end
