(* ===== verification/Http_Request_Proofs.thy ===== *)
theory Http_Request_Proofs
  imports Http_Headers Uri_Properties
begin

text \<open>
  The request line and the whole request: what \<open>http11_method\<close>, \<open>http11_http_version\<close> and
  \<open>http11_request_uri\<close> recognise, that \<open>http11_request\<close> returns on every input, and that it takes
  a printed request apart into what it was printed from.
\<close>

section \<open>Tables of words\<close>

text \<open>\<open>match_table\<close> on the text at the position \<open>q\<close>.\<close>

fun table_list :: "(char \<Rightarrow> char) \<Rightarrow> char list \<Rightarrow> nat \<Rightarrow> nat \<Rightarrow> string list \<Rightarrow> (nat \<times> nat) option" where
  "table_list f t i q [] = None"
| "table_list f t i q (w # ws) = (let n = common w (map f t) in
     if n = length w then Some (i, q + n) else table_list f (drop n t) (i + 1) (q + n) ws)"

lemma match_table_eq:
  assumes "cursor m s" and "\<forall>w \<in> set ws. f NUL \<notin> set w"
  shows "\<exists>q'. match_table f m s (peek (chars m s) (read_pos s)) i ws = Some (
      case table_list f (drop (read_pos s) (chars m s)) i (read_pos s) ws of
        Some (j, q) \<Rightarrow> (Some j, s\<lparr>read_pos := q\<rparr>) | None \<Rightarrow> (None, s\<lparr>read_pos := q'\<rparr>))"
  using assms
proof (induction ws arbitrary: s i)
  case Nil
  then show ?case by (auto intro: exI [of _ "read_pos s"])
next
  case (Cons w ws)
  let ?cs = "chars m s" and ?p = "read_pos s"
  let ?n = "common w (map f (drop ?p ?cs))"
  have "?n \<le> length ?cs - ?p" using common_le(2) [of w "map f (drop ?p ?cs)"] by simp
  then have "cursor m (s\<lparr>read_pos := ?p + ?n\<rparr>)" using Cons(2) by (auto simp: cursor_def)
  from Cons(1) [OF this, of "i + 1"] Cons(3) have "\<exists>q'.
    match_table f m (s\<lparr>read_pos := ?p + ?n\<rparr>) (peek ?cs (?p + ?n)) (i + 1) ws = Some (
      case table_list f (drop (?p + ?n) ?cs) (i + 1) (?p + ?n) ws of
        Some (j, q) \<Rightarrow> (Some j, s\<lparr>read_pos := q\<rparr>) | None \<Rightarrow> (None, s\<lparr>read_pos := q'\<rparr>))"
    by (simp cong: option.case_cong)
  then obtain q' where "match_table f m (s\<lparr>read_pos := ?p + ?n\<rparr>) (peek ?cs (?p + ?n)) (i + 1) ws = Some (
      case table_list f (drop (?p + ?n) ?cs) (i + 1) (?p + ?n) ws of
        Some (j, q) \<Rightarrow> (Some j, s\<lparr>read_pos := q\<rparr>) | None \<Rightarrow> (None, s\<lparr>read_pos := q'\<rparr>))"
    by blast
  with Cons(3) match_word_eq [OF Cons(2), of f w] show ?case
    by (intro exI [of _ q']) (simp add: Let_def add.commute [of ?n])
qed

lemma table_list_bound: "table_list f t i q ws = Some (j, q') \<Longrightarrow> q \<le> q' \<and> q' \<le> q + length t"
proof (induction f t i q ws rule: table_list.induct)
  case (2 f t i q w ws)
  then show ?case
    using common_le(2) [of w "map f t"] by (fastforce simp: Let_def split: if_splits)
qed simp

section \<open>Method\<close>

lemma method_words: "\<forall>w \<in> set http11_method_array. c_toupper NUL \<notin> set w"
  by (simp add: http11_method_array_def c_toupper_def range_defs)

lemma toupper_letters [simp]:
  "c_toupper (CHR ''A'') = CHR ''A''" "c_toupper (CHR ''C'') = CHR ''C''"
  "c_toupper (CHR ''D'') = CHR ''D''" "c_toupper (CHR ''E'') = CHR ''E''"
  "c_toupper (CHR ''G'') = CHR ''G''" "c_toupper (CHR ''H'') = CHR ''H''"
  "c_toupper (CHR ''I'') = CHR ''I''" "c_toupper (CHR ''L'') = CHR ''L''"
  "c_toupper (CHR ''N'') = CHR ''N''" "c_toupper (CHR ''O'') = CHR ''O''"
  "c_toupper (CHR ''P'') = CHR ''P''" "c_toupper (CHR ''R'') = CHR ''R''"
  "c_toupper (CHR ''S'') = CHR ''S''" "c_toupper (CHR ''T'') = CHR ''T''"
  "c_toupper (CHR ''U'') = CHR ''U''"
  by (simp_all add: c_toupper_def range_defs)

lemma method_tables:
  "table_list c_toupper (''OPTIONS'' @ r) 0 p http11_method_array = Some (0, p + 7)"
  "table_list c_toupper (''GET'' @ r) 0 p http11_method_array = Some (1, p + 3)"
  "table_list c_toupper (''HEAD'' @ r) 0 p http11_method_array = Some (2, p + 4)"
  "table_list c_toupper (''POST'' @ r) 0 p http11_method_array = Some (3, p + 4)"
  "table_list c_toupper (''PUT'' @ r) 0 p http11_method_array = None"
  "table_list c_toupper (''DELETE'' @ r) 0 p http11_method_array = Some (5, p + 6)"
  "table_list c_toupper (''TRACE'' @ r) 0 p http11_method_array = Some (6, p + 5)"
  "table_list c_toupper (''CONNECT'' @ r) 0 p http11_method_array = Some (7, p + 7)"
  "table_list c_toupper (''PPUT'' @ r) 0 p http11_method_array = Some (4, p + 4)"
  by (simp_all add: http11_method_array_def)

lemma http11_method_eq:
  assumes "cursor m s"
  shows "http11_method m http s = Some (
    case table_list c_toupper (drop (read_pos s) (chars m s)) 0 (read_pos s) http11_method_array of
      Some (i, q) \<Rightarrow> (True, set_rline ((rline http)\<lparr>rl_method := http11_methods ! i\<rparr>) http, s\<lparr>read_pos := q\<rparr>)
    | None \<Rightarrow> (False, http, s))"
proof -
  have "readable m s" using assms by (simp add: cursor_def)
  with match_table_eq [where f = c_toupper, OF assms method_words, of 0] show ?thesis
    by (auto simp: http11_method_def split: option.splits)
qed

definition method_name :: "http11_method_index \<Rightarrow> string" where
  "method_name k = http11_method_array ! method_value k"

lemma http11_method_eq':
  assumes "cursor m s" and "drop (read_pos s) (chars m s) = method_name k @ r"
  shows "http11_method m http s = Some (if k = http11_method_put then (False, http, s)
    else (True, set_rline ((rline http)\<lparr>rl_method := k\<rparr>) http,
      s\<lparr>read_pos := read_pos s + length (method_name k)\<rparr>))"
  unfolding http11_method_eq [OF assms(1)] assms(2)
  by (cases k; simp add: method_name_def http11_method_array_def http11_methods_def)

text \<open>\<open>http11_method\<close> recognises every method of its table but \<open>PUT\<close>, and moves past it: the
  letter \<open>P\<close> of \<open>PUT\<close> is taken for that of \<open>POST\<close>, and the position is not set back before \<open>PUT\<close>
  is tried.\<close>

theorem http11_method_all_but_put:
  assumes "cursor m s" and "drop (read_pos s) (chars m s) = method_name k @ r"
  shows "http11_method m http s = Some (if k = http11_method_put then (False, http, s)
    else (True, set_rline ((rline http)\<lparr>rl_method := k\<rparr>) http,
      s\<lparr>read_pos := read_pos s + length (method_name k)\<rparr>))"
  by (rule http11_method_eq' [OF assms])

lemma http11_method_all_but_put_witness:
  "http11_method (memory_of [''PUT /'']) httpaa_zero (string_at 0 5) = Some (False, httpaa_zero, string_at 0 5)"
  using http11_method_all_but_put [of "memory_of [''PUT /'']" "string_at 0 5" http11_method_put "'' /''"]
  by (simp add: cursor_def method_name_def http11_method_array_def)

text \<open>What does select \<open>PUT\<close> is a request that begins with \<open>PPUT\<close>.\<close>

theorem http11_method_pput:
  assumes "cursor m s" and "drop (read_pos s) (chars m s) = ''PPUT'' @ r"
  shows "http11_method m http s = Some (True,
    set_rline ((rline http)\<lparr>rl_method := http11_method_put\<rparr>) http, s\<lparr>read_pos := read_pos s + 4\<rparr>)"
  using method_tables(9) [of r "read_pos s"]
  by (simp add: http11_method_eq [OF assms(1)] assms(2) http11_methods_def)

lemma http11_method_pput_witness:
  "returns (http11_method (memory_of [''PPUT /'']) httpaa_zero (string_at 0 6)) (\<lambda>(b, h, s). b
    \<and> rl_method (rline h) = http11_method_put)"
  using http11_method_pput [of "memory_of [''PPUT /'']" "string_at 0 6" "'' /''"]
  by (simp add: cursor_def rline_def set_rline_def)

section \<open>Version\<close>

lemma count_while_eq:
  assumes "cursor m s" and "\<not> P NUL" and "c = peek (chars m s) (read_pos s)"
  shows "count_while P m s c n = Some (n + (run_end P (chars m s) (read_pos s) - read_pos s),
    peek (chars m s) (run_end P (chars m s) (read_pos s)),
    s\<lparr>read_pos := run_end P (chars m s) (read_pos s)\<rparr>)"
  using assms
proof (induction "write_pos s - read_pos s" arbitrary: s c n rule: less_induct)
  case less
  let ?cs = "chars m s" and ?p = "read_pos s"
  have ok: "readable m s" "?p \<le> write_pos s" using less(2) by (auto simp: cursor_def)
  show ?case
  proof (cases "?p < length ?cs \<and> P c")
    case False
    with ok less(3,4) show ?thesis
      by (subst count_while.simps) (auto simp: run_end_out run_end_step peek_def split: if_splits)
  next
    case True
    then have e: "run_end P ?cs ?p = run_end P ?cs (Suc ?p)"
      using less(4) by (auto simp: run_end_step)
    have "Suc ?p \<le> run_end P ?cs (Suc ?p)"
      using True run_end_bounds [of "Suc ?p" ?cs P] by simp
    with e True less(1) [of "s\<lparr>read_pos := Suc ?p\<rparr>" "peek ?cs (Suc ?p)" "n + 1"] ok less(3,4)
    show ?thesis
      by (subst count_while.simps) (auto simp: skip_eq cursor_def)
  qed
qed

lemma run_end_span:
  assumes "\<forall>c \<in> set w. P c" and "r = [] \<or> \<not> P (hd r)"
  shows "run_end P (pre @ w @ r) (length pre) = length pre + length w"
proof -
  have "takeWhile P (w @ r) = w"
    using assms by (cases r) (auto simp: takeWhile_append2)
  then show ?thesis by (simp add: run_end_def)
qed

text \<open>The first digit of a run, and the digits after it.\<close>

lemma count_digits:
  assumes "cursor m s" and "chars m s = pre @ w @ r" and "read_pos s = length pre" and "w \<noteq> []"
    and "\<forall>c \<in> set w. HTTP11_DIGIT c" and "r = [] \<or> \<not> HTTP11_DIGIT (hd r)"
  shows "HTTP11_DIGIT (peek (chars m s) (read_pos s))"
    "stringaa_get_char m (skip s) = Some (peek (chars m s) (Suc (read_pos s)))"
    "count_while HTTP11_DIGIT m (skip s) (peek (chars m s) (Suc (read_pos s))) (Suc 0) =
      Some (length w, peek (chars m s) (length pre + length w), s\<lparr>read_pos := length pre + length w\<rparr>)"
proof -
  obtain d ds where w: "w = d # ds" using assms(4) by (cases w) auto
  have lt: "read_pos s < write_pos s"
    using arg_cong [OF assms(2), of length] assms(3) w by simp
  then have sk: "skip s = s\<lparr>read_pos := Suc (read_pos s)\<rparr>" by (rule skip_eq)
  have ok: "readable m s" using assms(1) by (simp add: cursor_def)
  show "HTTP11_DIGIT (peek (chars m s) (read_pos s))"
    using assms(2,3,5) w by (simp add: nth_append)
  show "stringaa_get_char m (skip s) = Some (peek (chars m s) (Suc (read_pos s)))"
    using sk ok by simp
  have "cursor m (s\<lparr>read_pos := Suc (read_pos s)\<rparr>)" using lt ok by (simp add: cursor_def)
  from count_while_eq [where P = HTTP11_DIGIT, OF this digit_NUL refl, of "Suc 0"]
    run_end_span [of ds HTTP11_DIGIT r "pre @ [d]"] assms(2,3,5,6) sk w
  show "count_while HTTP11_DIGIT m (skip s) (peek (chars m s) (Suc (read_pos s))) (Suc 0) =
      Some (length w, peek (chars m s) (length pre + length w), s\<lparr>read_pos := length pre + length w\<rparr>)"
    by simp
qed

lemma buf_number_eq:
  assumes "readable m s" and "chars m s = pre @ w @ r" and "length w < BUF_INT_SIZE" and "decimal w < 2 ^ 31"
  shows "buf_number m (s\<lparr>read_pos := p\<rparr>) (length pre) (length w) = Some (int (decimal w))"
proof -
  have "length pre + length w \<le> write_pos s"
    using arg_cong [OF assms(2), of length] by simp
  from load_n_readable [OF assms(1) this] assms(2-4) show ?thesis
    by (simp add: buf_number_def c_atoi_def)
qed

text \<open>A number the code can read into an \<open>int\<close>.\<close>

definition number_ok :: "char list \<Rightarrow> bool" where
  "number_ok w \<longleftrightarrow> w \<noteq> [] \<and> (\<forall>c \<in> set w. HTTP11_DIGIT c) \<and> length w < BUF_INT_SIZE \<and> decimal w < 2 ^ 31"

lemma upper_http: "map c_toupper ''HTTP/'' = ''HTTP/''"
  by (simp add: c_toupper_def range_defs)

lemma http11_http_version_eq:
  assumes "cursor m s" and "chars m s = pre @ ''HTTP/'' @ a @ ''.'' @ b @ r" and "read_pos s = length pre"
    and "number_ok a" and "number_ok b" and "r = [] \<or> \<not> HTTP11_DIGIT (hd r)"
  shows "http11_http_version m http s = Some (True, set_rline ((rline http)\<lparr>http_version :=
      \<lparr>major_version = int (decimal a), minor_version = int (decimal b)\<rparr>\<rparr>) http,
    s\<lparr>read_pos := length (pre @ ''HTTP/'' @ a @ ''.'' @ b)\<rparr>)"
proof -
  let ?cs = "chars m s"
  have ok: "readable m s" using assms(1) by (simp add: cursor_def)
  obtain p1 where p1: "?cs = p1 @ a @ ''.'' @ b @ r" "length p1 = length pre + 5"
    using assms(2) by (intro that [of "pre @ ''HTTP/''"]) simp_all
  obtain p2 where p2: "?cs = p2 @ b @ r" "length p2 = Suc (length p1 + length a)"
    using p1 by (intro that [of "p1 @ a @ ''.''"]) simp_all
  let ?s1 = "s\<lparr>read_pos := length p1\<rparr>" and ?s2 = "s\<lparr>read_pos := length p1 + length a\<rparr>"
  let ?s3 = "s\<lparr>read_pos := length p2\<rparr>"
  have len: "length p2 + length b \<le> write_pos s"
    using arg_cong [OF p2(1), of length] by simp
  then have c: "cursor m ?s1" "cursor m ?s3" using ok p2(2) by (simp_all add: cursor_def)
  have "map c_toupper (drop (read_pos s) ?cs) = ''HTTP/'' @ map c_toupper (a @ ''.'' @ b @ r)"
    using assms(2,3) upper_http by simp
  then have co: "common ''HTTP/'' (map c_toupper (drop (read_pos s) ?cs)) = 5"
    by (simp only: common_append) simp
  have nn: "c_toupper NUL \<notin> set ''HTTP/''" by (simp add: c_toupper_def range_defs)
  have l5: "(5 = length ''HTTP/'') = True" by simp
  have "match_word c_toupper m s (peek ?cs (read_pos s)) ''HTTP/'' =
      Some (True, peek ?cs (read_pos s + 5), s\<lparr>read_pos := read_pos s + 5\<rparr>)"
    unfolding match_word_eq [where f = c_toupper, OF assms(1) nn refl] co Let_def l5 ..
  note mw = this [unfolded assms(3), folded p1(2)]
  have a: "a \<noteq> []" "\<forall>c \<in> set a. HTTP11_DIGIT c" and b: "b \<noteq> []" "\<forall>c \<in> set b. HTTP11_DIGIT c"
    using assms(4,5) by (simp_all add: number_ok_def)
  have dot: "\<not> HTTP11_DIGIT (CHR ''.'')" by (simp add: cclass range_defs)
  have pk: "peek ?cs (length p1 + length a) = CHR ''.''" by (simp add: p1(1) nth_append)
  have 1: "HTTP11_DIGIT (peek ?cs (length p1))"
      "stringaa_get_char m (skip ?s1) = Some (peek ?cs (Suc (length p1)))"
      "count_while HTTP11_DIGIT m (skip ?s1) (peek ?cs (Suc (length p1))) 1 = Some (length a, CHR ''.'', ?s2)"
    using count_digits [OF c(1), of p1 a "''.'' @ b @ r"] a dot pk p1(1) by simp_all
  have sk: "skip ?s2 = ?s3" using len b p2(2) by (subst skip_eq) (auto simp: neq_Nil_conv)
  have 2: "HTTP11_DIGIT (peek ?cs (length p2))"
      "stringaa_get_char m (skip ?s3) = Some (peek ?cs (Suc (length p2)))"
      "count_while HTTP11_DIGIT m (skip ?s3) (peek ?cs (Suc (length p2))) 1 =
        Some (length b, peek ?cs (length p2 + length b), s\<lparr>read_pos := length p2 + length b\<rparr>)"
    using count_digits [OF c(2), of p2 b r] assms(6) b p2(1) by simp_all
  have n: "buf_number m (s\<lparr>read_pos := q\<rparr>) (length p1) (length a) = Some (int (decimal a))"
      "buf_number m (s\<lparr>read_pos := q\<rparr>) (length p2) (length b) = Some (int (decimal b))" for q
    using buf_number_eq [OF ok p1(1)] buf_number_eq [OF ok p2(1)] assms(4,5)
    by (simp_all add: number_ok_def)
  have g: "stringaa_get_char m s = Some (peek ?cs (length pre))"
      "stringaa_get_char m ?s3 = Some (peek ?cs (length p2))"
    using ok assms(3) by simp_all
  have e: "length (pre @ ''HTTP/'' @ a @ ''.'' @ b) = length p2 + length b" using p1(2) p2(2) by simp
  show ?thesis
    unfolding http11_http_version_def Let_def e
    by (simp only: g mw bind.bind_lunit prod.case simp_thms 1 if_True sk 2) (simp add: n)
qed

section \<open>Request target\<close>

lemma scan_end_span:
  assumes "\<forall>c \<in> set w. P c" and "r = [] \<or> \<not> P (hd r) \<and> hd r \<noteq> CHR ''%''"
  shows "scan_end P (pre @ w @ r) (length pre) = length pre + length w"
  using assms(1)
proof (induction w arbitrary: pre)
  case Nil
  show ?case
    using assms(2) by (subst scan_end.simps) (cases r; simp add: escape_at_def nth_append)
next
  case (Cons c w)
  with Cons(1) [of "pre @ [c]"] show ?case
    by (subst scan_end.simps) (simp add: nth_append)
qed

lemma query_eq: "(\<lambda>c. uric_pre c \<or> no_char c) = uric_pre"
  by (simp add: fun_eq_iff no_char_def)

lemma net_path_one_slash:
  assumes "cursor m (u_uri u)" and "peek (chars m (u_uri u)) (u_pos u) = CHR ''/''"
    and "peek (chars m (u_uri u)) (u_pos u + 1) \<noteq> CHR ''/''"
  shows "net_path m u = Some (False, u)"
proof -
  let ?cs = "chars m (u_uri u)" and ?u = "set_u_pos (u_pos u + 1) u"
  have p: "u_pos u < length ?cs" using assms(2) by (auto simp: peek_def split: if_splits)
  have 1: "uri_is_char m u (CHR ''/'') = Some (True, ?u)"
    using uri_is_char_eq [OF assms(1), of "CHR ''/''"] assms(2) p by (simp add: min_def)
  have "cursor m (u_uri ?u)" using assms(1) p by (intro cursor_set_u_pos) simp_all
  from uri_is_char_eq [OF this, of "CHR ''/''"] assms(3)
  have "uri_is_char m ?u (CHR ''/'') = Some (False, ?u)" by simp
  with 1 show ?thesis by (simp add: net_path_def Let_def)
qed

lemma absoluteURI_slash:
  assumes "cursor m (u_uri u)" and "peek (chars m (u_uri u)) (u_pos u) = CHR ''/''"
  shows "absoluteURI m u = Some (False, u)"
proof -
  have "\<not> ALPHA_CHARS (CHR ''/'')" by (simp add: cclass range_defs)
  with assms show ?thesis
    by (simp add: absoluteURI_def scheme_def Let_def cursor_def u_pos_def set_u_pos_def)
qed

text \<open>The struct after a path \<open>[0, e)\<close> and, when one follows, a query.\<close>

definition target_result :: "uriaa \<Rightarrow> nat \<Rightarrow> char list option \<Rightarrow> uriaa" where
  "target_result u e qs = (let v = (set_u_pos e u)\<lparr>u_abs_path := part_of (u_uri u) 0 e (u_abs_path u)\<rparr> in
     case qs of None \<Rightarrow> v
     | Some q \<Rightarrow> (let f = e + 1 + length q in
         (set_u_pos f v)\<lparr>u_query := part_of (u_uri u) (e + 1) f (u_query u)\<rparr>))"

definition target_ok :: "char list \<Rightarrow> char list option \<Rightarrow> bool" where
  "target_ok p qs \<longleftrightarrow> (\<exists>w. p = CHR ''/'' # w \<and> (\<forall>c \<in> set w. PATH c) \<and> (w = [] \<or> hd w \<noteq> CHR ''/''))
     \<and> (case qs of None \<Rightarrow> True | Some q \<Rightarrow> \<forall>c \<in> set q. uric_pre c)"

definition target :: "char list \<Rightarrow> char list option \<Rightarrow> char list" where
  "target p qs = p @ (case qs of None \<Rightarrow> [] | Some q \<Rightarrow> CHR ''?'' # q)"

lemma target_classes:
  "\<not> PATH SP" "\<not> uric_pre SP" "\<not> PATH (CHR ''?'')" "\<not> PATH (CHR ''#'')"
  by (simp_all add: cclass range_defs)

lemma uri_is_char_no:
  "cursor m (u_uri u) \<Longrightarrow> peek (chars m (u_uri u)) (u_pos u) \<noteq> c \<Longrightarrow> uri_is_char m u c = Some (False, u)"
  using uri_is_char_eq [of m u c] by auto

lemma uriaa_check_url_target:
  assumes "cursor m (u_uri u)" and "u_pos u = 0" and "is_init (u_uri u)"
    and "chars m (u_uri u) = target p qs @ SP # r" and "target_ok p qs"
  shows "uriaa_check_url m u = Some (True, target_result u (length p) qs)"
proof -
  let ?cs = "chars m (u_uri u)" and ?e = "length p"
  obtain w where w: "p = CHR ''/'' # w" "\<forall>c \<in> set w. PATH c" "w = [] \<or> hd w \<noteq> CHR ''/''"
    using assms(5) by (auto simp: target_ok_def)
  define r' where "r' = (case qs of None \<Rightarrow> SP # r | Some q \<Rightarrow> CHR ''?'' # q @ SP # r)"
  have cs: "?cs = p @ r'" using assms(4) by (simp add: target_def r'_def split: option.split)
  have len: "length p + length r' = write_pos (u_uri u)" using arg_cong [OF cs, of length] by simp
  have hd: "r' \<noteq> []" "hd r' \<in> {SP, CHR ''?''}" by (auto simp: r'_def split: option.split)
  have p0: "peek ?cs (u_pos u) = CHR ''/''" using cs w assms(2) by simp
  have p1: "peek ?cs (u_pos u + 1) \<noteq> CHR ''/''"
    using cs w(1,3) hd assms(2) by (cases w; cases r') (auto simp: nth_append)
  have "\<not> PATH (hd r') \<and> hd r' \<noteq> CHR ''%''" using hd target_classes by auto
  then have se: "scan_end PATH ?cs (u_pos u + 1) = ?e"
    using scan_end_span [of w PATH r' "[CHR ''/'']"] w cs assms(2) by simp
  let ?v = "(set_u_pos ?e u)\<lparr>u_abs_path := part_of (u_uri u) 0 ?e (u_abs_path u)\<rparr>"
  have ab: "abs_path m u = Some (True, ?v)"
    using abs_path_longest_run_eq [OF assms(1)] p0 se assms(2) by simp
  have cv: "cursor m (u_uri ?v)" "chars m (u_uri ?v) = ?cs" "u_pos ?v = ?e"
    using assms(1) len by (simp_all add: cursor_def u_pos_def set_u_pos_def)
  have pe: "peek ?cs ?e = hd r'" using cs hd(1) by (cases r') (simp_all add: nth_append)
  have rel: "relativeURI m u = Some (True, target_result u ?e qs)"
  proof (cases qs)
    case None
    with pe cv uri_is_char_no [OF cv(1), of "CHR ''?''"] ab net_path_one_slash [OF assms(1) p0 p1] show ?thesis
      by (simp add: relativeURI_def Let_def target_result_def r'_def)
  next
    case (Some q)
    let ?v1 = "set_u_pos (?e + 1) ?v"
    have q: "\<forall>c \<in> set q. uric_pre c" using assms(5) Some by (simp add: target_ok_def)
    have 1: "uri_is_char m ?v (CHR ''?'') = Some (True, ?v1)"
      using uri_is_char_eq [OF cv(1), of "CHR ''?''"] pe cv Some len by (simp add: r'_def min_def)
    have c1: "cursor m (u_uri ?v1)" using cv(1) len Some by (simp add: cursor_def r'_def)
    have "scan_end uric_pre ?cs (?e + 1) = ?e + 1 + length q"
      using scan_end_span [of q uric_pre "SP # r" "p @ [CHR ''?'']"] q target_classes cs Some
      by (simp add: r'_def)
    then have "scan_class uric_pre no_char m ?v1 = Some (set_u_pos (?e + 1 + length q) ?v1)"
      using scan_class_eq [where pre = uric_pre and post = no_char, OF c1 plain_classes(1)] cv(2)
      by (simp add: query_eq)
    with Some 1 ab net_path_one_slash [OF assms(1) p0 p1] show ?thesis
      by (simp add: relativeURI_def Let_def target_result_def query_def)
  qed
  let ?t = "target_result u ?e qs"
  have tp: "u_pos ?t = length (target p qs)" "u_uri ?t = (u_uri u)\<lparr>read_pos := length (target p qs)\<rparr>"
    by (simp_all add: target_result_def target_def u_pos_def set_u_pos_def Let_def split: option.split)
  have "length (target p qs) < write_pos (u_uri u)" using arg_cong [OF assms(4), of length] by simp
  with tp assms(1) have "cursor m (u_uri ?t)" "chars m (u_uri ?t) = ?cs" by (simp_all add: cursor_def)
  moreover have "peek ?cs (length (target p qs)) = SP" unfolding assms(4) by (simp add: nth_append)
  ultimately have "uri_is_char m ?t (CHR ''#'') = Some (False, ?t)"
    using tp(1) by (intro uri_is_char_no) simp_all
  with rel absoluteURI_slash [OF assms(1) p0] have "URI_reference m u = Some (True, ?t)"
    by (simp add: URI_reference_def Let_def)
  moreover have "buf (u_uri u) \<noteq> Null" "write_pos (u_uri u) > 0"
    using cursor_buf [OF assms(1), of 0] len w(1) by auto
  ultimately show ?thesis using assms(3) by (simp add: uriaa_check_url_def)
qed

lemma set_substring_rest:
  assumes "\<not> is_alloc x" and "read_pos s < write_pos s" and "write_pos s < 2 ^ 31"
  shows "stringaa_set_substring m x s STRINGAA_READ_POS STRINGAA_WRITE_POS =
    Some (True, header_view s (read_pos s) (write_pos s) x, m)"
proof -
  have "to_int (read_pos s) = int (read_pos s)" "to_int (write_pos s) = int (write_pos s)"
    using assms(2,3) by (simp_all add: to_int_small)
  with assms show ?thesis
    by (simp add: stringaa_set_substring_def STRINGAA_READ_POS_def STRINGAA_WRITE_POS_def Let_def
        set_flags_def header_view_def end_of_def nat_diff_distrib)
qed

text \<open>A struct whose request has not been parsed yet, as after \<open>memset\<close>.\<close>

definition fresh_http :: "httpaa \<Rightarrow> bool" where
  "fresh_http http \<longleftrightarrow> headers_ok http \<and> \<not> is_alloc (u_uri (request_uri (rline http)))
     \<and> \<not> is_init (u_uri (request_uri (rline http)))
     \<and> (\<forall>x \<in> set (parts (request_uri (rline http))). \<not> is_init x \<and> \<not> is_null_terminated x)"

lemma fresh_http_zero: "fresh_http httpaa_zero"
  by (simp add: fresh_http_def headers_ok_zero)
    (simp add: rline_def httpaa_zero_def Let_def uriaa_zero_def parts_def)

text \<open>The URI struct of a request whose target begins at the read position.\<close>

definition request_target :: "stringaa \<Rightarrow> uriaa \<Rightarrow> char list \<Rightarrow> char list option \<Rightarrow> uriaa" where
  "request_target s u p qs = (let t = target_result
       (u\<lparr>u_uri := header_view s (read_pos s) (write_pos s) (u_uri u)\<rparr>) (length p) qs in
     t\<lparr>u_uri := (u_uri t)\<lparr>write_pos := read_pos (u_uri t)\<rparr>\<rparr>)"

lemma http11_request_uri_eq:
  assumes "cursor m s" and "chars m s = pre @ target p qs @ SP # r" and "read_pos s = length pre"
    and "target_ok p qs" and "write_pos s < 2 ^ 31" and "\<not> is_alloc (u_uri (request_uri (rline http)))"
  shows "http11_request_uri m http s = Some (True,
    set_rline ((rline http)\<lparr>request_uri := request_target s (request_uri (rline http)) p qs\<rparr>) http,
    s\<lparr>read_pos := length pre + length (target p qs)\<rparr>, m)"
proof -
  let ?u = "request_uri (rline http)"
  let ?x = "header_view s (read_pos s) (write_pos s) (u_uri ?u)"
  have len: "length pre + length (target p qs) < write_pos s"
    using arg_cong [OF assms(2), of length] by simp
  then have lt: "read_pos s < write_pos s" using assms(3) by simp
  have "readable m s" using assms(1) by (simp add: cursor_def)
  from header_view_chars [OF this, of "read_pos s" "write_pos s"] lt
  have v: "readable m ?x" "chars m ?x = drop (read_pos s) (chars m s)" by simp_all
  have x: "read_pos ?x = 0" "is_init ?x" by (simp_all add: header_view_def)
  have "uriaa_check_url m (?u\<lparr>u_uri := ?x\<rparr>) = Some (True, target_result (?u\<lparr>u_uri := ?x\<rparr>) (length p) qs)"
    using v x assms(2-4) by (intro uriaa_check_url_target [of _ _ _ _ r]) (simp_all add: cursor_def u_pos_def)
  moreover have "read_pos (u_uri (target_result (?u\<lparr>u_uri := ?x\<rparr>) (length p) qs)) = length (target p qs)"
    by (simp add: target_result_def target_def set_u_pos_def Let_def split: option.split)
  ultimately show ?thesis
    using set_substring_rest [OF assms(6) lt assms(5)] assms(3)
    by (simp add: http11_request_uri_def request_target_def Let_def)
qed

lemma load_n_0: "load_n m p 0 = Some []"
  by (simp add: load_n_def)

text \<open>What the recorded parts hold.\<close>

lemma request_target_parts:
  assumes "cursor m s" and "chars m s = pre @ target p qs @ SP # r" and "read_pos s = length pre"
    and "\<not> is_null_terminated (u_abs_path u)" and "\<not> is_null_terminated (u_query u)"
  shows "chars m (u_abs_path (request_target s u p qs)) = p"
    "is_init (u_abs_path (request_target s u p qs))"
    "qs = Some q \<Longrightarrow> chars m (u_query (request_target s u p qs)) = q"
    "qs = Some q \<Longrightarrow> is_init (u_query (request_target s u p qs))"
proof -
  have ok: "readable m s" using assms(1) by (simp add: cursor_def)
  have len: "length pre + length (target p qs) < write_pos s"
    using arg_cong [OF assms(2), of length] by simp
  have part: "chars m (part_of (header_view s (length pre) (write_pos s) y) i j x) = take (j - i) (drop i (target p qs @ SP # r))"
    if "\<not> is_null_terminated x" "i \<le> j" "j \<le> length (target p qs)" for x y i j
    using load_n_readable [OF ok, of "length pre + i" "j - i"] that len assms(2)
    by (cases "i = j") (auto simp: chars_def part_of_def header_view_def end_of_def Let_def load_n_0)
  show "chars m (u_abs_path (request_target s u p qs)) = p"
    using part [OF assms(4), of 0 "length p"] assms(3)
    by (simp add: request_target_def target_result_def target_def set_u_pos_def Let_def split: option.split)
  show "is_init (u_abs_path (request_target s u p qs))"
    by (simp add: request_target_def target_result_def set_u_pos_def part_of_def Let_def split: option.split)
  show "chars m (u_query (request_target s u p qs)) = q" if "qs = Some q"
    using part [OF assms(5), of "length p + 1" "length p + 1 + length q"] assms(3) that
    by (simp add: request_target_def target_result_def target_def set_u_pos_def Let_def)
  show "is_init (u_query (request_target s u p qs))" if "qs = Some q"
    using that by (simp add: request_target_def target_result_def set_u_pos_def part_of_def Let_def)
qed

lemma request_target_readable:
  assumes "cursor m s" and "chars m s = pre @ target p qs @ SP # r" and "read_pos s = length pre"
    and "\<not> is_null_terminated (u_abs_path u)"
  shows "readable m (u_abs_path (request_target s u p qs))"
proof -
  have "length pre + length (target p qs) < write_pos s"
    using arg_cong [OF assms(2), of length] by simp
  then have "length pre + length p \<le> write_pos s" by (simp add: target_def)
  moreover have "readable m s" using assms(1) by (simp add: cursor_def)
  ultimately show ?thesis
    using load_n_readable [of m s "length pre" "length p"] assms(3,4)
    by (simp add: readable_def request_target_def target_result_def part_of_def end_of_def header_view_def
        set_u_pos_def Let_def load_n_0 split: option.split)
qed

section \<open>Request line\<close>

lemma rline_simps [simp]:
  "rline (set_rline r h) = r" "set_rline r (set_rline r' h) = set_rline r h"
  "rline (set_header i x h) = rline h" "rline (set_view s v h) = rline h"
  by (simp_all add: rline_def set_rline_def set_header_def set_view_def split: prod.split)

lemma rline_fold [simp]: "rline (fold (set_view s) vs h) = rline h"
  by (induction vs arbitrary: h) simp_all

definition print_line ::
  "http11_method_index \<Rightarrow> char list \<Rightarrow> char list option \<Rightarrow> char list \<Rightarrow> char list \<Rightarrow> char list" where
  "print_line k p qs a b =
     method_name k @ SP # target p qs @ SP # ''HTTP/'' @ a @ CHR ''.'' # b @ [CR, LF]"

definition version_of :: "char list \<Rightarrow> char list \<Rightarrow> http11_http_version_struct" where
  "version_of a b = \<lparr>major_version = int (decimal a), minor_version = int (decimal b)\<rparr>"

text \<open>The struct after the request line.\<close>

definition line_result :: "stringaa \<Rightarrow> httpaa \<Rightarrow> http11_method_index \<Rightarrow> char list \<Rightarrow> char list option \<Rightarrow>
    char list \<Rightarrow> char list \<Rightarrow> httpaa" where
  "line_result s http k p qs a b = set_rline ((rline http)\<lparr>rl_method := k,
     request_uri := request_target (s\<lparr>read_pos := read_pos s + length (method_name k) + 1\<rparr>)
       (request_uri (rline http)) p qs, http_version := version_of a b\<rparr>) http"

text \<open>A request line with any target \<open>t\<close> that the URI parser takes in whole, as the struct \<open>u\<close>.\<close>

lemma http11_request_line_with:
  assumes "cursor m s" and cs: "chars m s = pre @ method_name k @ SP # t @ SP # ''HTTP/'' @ a @ CHR ''.'' # b @ CR # LF # r"
    and pos: "read_pos s = length pre" and "k \<noteq> http11_method_put" and "number_ok a" and "number_ok b"
    and n1: "n1 = length pre + length (method_name k) + 1"
    and uri: "http11_request_uri m (set_rline ((rline http)\<lparr>rl_method := k\<rparr>) http) (s\<lparr>read_pos := n1\<rparr>) =
      Some (True, set_rline ((rline http)\<lparr>rl_method := k, request_uri := u\<rparr>) http, s\<lparr>read_pos := n1 + length t\<rparr>, m)"
  shows "http11_request_line m http s = Some (True,
    set_rline ((rline http)\<lparr>rl_method := k, request_uri := u, http_version := version_of a b\<rparr>) http,
    s\<lparr>read_pos := n1 + length t + length (SP # ''HTTP/'' @ a @ CHR ''.'' # b @ [CR, LF])\<rparr>, m)"
proof -
  let ?v = "''HTTP/'' @ a @ ''.'' @ b @ CR # LF # r"
  have ok: "readable m s" using assms(1) by (simp add: cursor_def)
  obtain p2 where p2: "chars m s = p2 @ ?v" "length p2 = n1 + length t + 1"
    using cs n1 by (intro that [of "pre @ method_name k @ SP # t @ [SP]"]) simp_all
  let ?n = "length (p2 @ ''HTTP/'' @ a @ ''.'' @ b)"
  have len: "?n + 2 \<le> write_pos s" using arg_cong [OF p2(1), of length] by simp
  have c: "cursor m (s\<lparr>read_pos := q\<rparr>)" if "q \<le> ?n" for q using that ok len by (simp add: cursor_def)
  have sp: "peek (chars m s) (length pre + length (method_name k)) = SP" "peek (chars m s) (n1 + length t) = SP"
    unfolding cs n1 by (simp_all add: nth_append)
  have sk: "skip (s\<lparr>read_pos := length pre + length (method_name k)\<rparr>) = s\<lparr>read_pos := n1\<rparr>"
      "skip (s\<lparr>read_pos := n1 + length t\<rparr>) = s\<lparr>read_pos := length p2\<rparr>"
    using len n1 p2(2) by (simp_all add: skip_eq)
  have "drop (read_pos s) (chars m s) = method_name k @ SP # t @ SP # ?v" unfolding cs pos by simp
  from http11_method_eq' [OF assms(1) this] assms(4)
  have 1: "http11_method m http s = Some (True, set_rline ((rline http)\<lparr>rl_method := k\<rparr>) http,
      s\<lparr>read_pos := length pre + length (method_name k)\<rparr>)"
    by (simp add: pos)
  let ?h2 = "set_rline ((rline http)\<lparr>rl_method := k, request_uri := u\<rparr>) http"
  have "\<not> HTTP11_DIGIT CR" by (simp add: cclass range_defs)
  then have 3: "http11_http_version m ?h2 (s\<lparr>read_pos := length p2\<rparr>) = Some (True,
      set_rline ((rline ?h2)\<lparr>http_version := version_of a b\<rparr>) ?h2, s\<lparr>read_pos := ?n\<rparr>)"
    using http11_http_version_eq [OF c, of "length p2" p2 a b "CR # LF # r" ?h2] p2(1) assms(5,6)
    by (simp add: version_of_def)
  have "crlf_at (chars m s) ?n" unfolding p2(1) by (simp add: crlf_at_def nth_append)
  then have 4: "http11_crlf m (s\<lparr>read_pos := ?n\<rparr>) = Some (True, s\<lparr>read_pos := ?n + 2\<rparr>)"
    using http11_crlf_eq [OF c [of ?n]] by simp
  have g: "stringaa_get_char m (s\<lparr>read_pos := length pre + length (method_name k)\<rparr>) = Some SP"
      "stringaa_get_char m (s\<lparr>read_pos := n1 + length t\<rparr>) = Some SP"
    using ok sp by simp_all
  have e: "n1 + length t + length (SP # ''HTTP/'' @ a @ CHR ''.'' # b @ [CR, LF]) = ?n + 2"
    using p2(2) by simp
  have res: "set_rline ((rline ?h2)\<lparr>http_version := version_of a b\<rparr>) ?h2 =
      set_rline ((rline http)\<lparr>rl_method := k, request_uri := u, http_version := version_of a b\<rparr>) http"
    by simp
  show ?thesis
    unfolding http11_request_line_def Let_def e 1
    by (simp only: 1 g sk uri 3 4 bind.bind_lunit prod.case if_True simp_thms res)
qed

lemma http11_request_line_eq:
  assumes "cursor m s" and "chars m s = pre @ print_line k p qs a b @ r" and "read_pos s = length pre"
    and "k \<noteq> http11_method_put" and "target_ok p qs" and "number_ok a" and "number_ok b"
    and "write_pos s < 2 ^ 31" and "fresh_http http"
  shows "http11_request_line m http s = Some (True, line_result s http k p qs a b,
    s\<lparr>read_pos := length pre + length (print_line k p qs a b)\<rparr>, m)"
proof -
  let ?n = "length pre + length (method_name k) + 1" and ?h = "set_rline ((rline http)\<lparr>rl_method := k\<rparr>) http"
  have cs: "chars m s = pre @ method_name k @ SP # target p qs @ SP # ''HTTP/'' @ a @ CHR ''.'' # b @ CR # LF # r"
    using assms(2) by (simp add: print_line_def)
  have "cursor m (s\<lparr>read_pos := ?n\<rparr>)"
    using assms(1) arg_cong [OF cs, of length] by (simp add: cursor_def)
  from http11_request_uri_eq [OF this, of "pre @ method_name k @ [SP]" p qs "''HTTP/'' @ a @ CHR ''.'' # b @ CR # LF # r" ?h]
    http11_request_line_with [OF assms(1) cs assms(3,4,6,7) refl]
  show ?thesis
    using cs assms(3,5,8,9) by (simp add: fresh_http_def line_result_def print_line_def)
qed

section \<open>The whole request\<close>

text \<open>A request line that has been read, and the header lines after it.\<close>

lemma http11_request_block:
  assumes "cursor m s" and "chars m s = pre @ block ls @ body" and "\<forall>l \<in> set ls. line_ok l"
    and line: "http11_request_line m http s = Some (True, h, s\<lparr>read_pos := length pre\<rparr>, m)" and "headers_ok h"
  shows "http11_request m http s = Some (True, fold (set_view s) (line_views (length pre) ls) h,
    s\<lparr>read_pos := length pre + length (block ls)\<rparr>, m)"
proof -
  have "length pre \<le> write_pos s" using arg_cong [OF assms(2), of length] by simp
  then have "cursor m (s\<lparr>read_pos := length pre\<rparr>)" using assms(1) by (simp add: cursor_def)
  from request_headers_eq [OF this assms(5)] head_parse_block [OF assms(3), of pre body] assms(2)
  show ?thesis by (simp add: http11_request_def line)
qed

lemma http11_request_run:
  assumes "cursor m s" and "chars m s = pre @ print_line k p qs a b @ block ls @ body"
    and "read_pos s = length pre" and "write_pos s < 2 ^ 31" and "fresh_http http"
    and "k \<noteq> http11_method_put" and "target_ok p qs" and "number_ok a" and "number_ok b"
    and "\<forall>l \<in> set ls. line_ok l"
  defines "n \<equiv> length pre + length (print_line k p qs a b)"
  shows "http11_request m http s = Some (True, fold (set_view s) (line_views n ls) (line_result s http k p qs a b),
    s\<lparr>read_pos := n + length (block ls)\<rparr>, m)"
proof -
  have "headers_ok (line_result s http k p qs a b)"
    using assms(5) by (simp add: fresh_http_def line_result_def headers_ok_def)
  from http11_request_block [OF assms(1) _ assms(10) _ this, of "pre @ print_line k p qs a b" body]
    http11_request_line_eq [OF assms(1-3) assms(6-9,4,5)] assms(2)
  show ?thesis by (simp add: n_def)
qed

text \<open>C2: printing a request and parsing it gives back its parts.  Take a request below 2 ^ 31 bytes: a request line with
  any method but PUT, a target made of a path and perhaps a query, and a version, followed by header lines, an
  empty line and any body.  The path begins with one slash, not two, and has path characters only, the
  query reserved and unreserved ones: neither has an escape, which the parser misreads.  The numbers of the version
  have fewer than 50 digits and fit an \<open>int\<close>; a header line is not empty and holds no line end.  Such a request is
  accepted into a struct as \<open>memset\<close> leaves it; the struct holds the method, the path, the query, the
  version, and for each header the text after the name in the last line that sets it; a header that
  no line sets, and a line with an unknown name, change nothing.  The position is left at the body,
  and the memory is as before.\<close>

theorem http11_request_parses:
  assumes "cursor m s" and "chars m s = pre @ print_line k p qs a b @ block ls @ body"
    and "read_pos s = length pre" and "write_pos s < 2 ^ 31" and "fresh_http http"
    and "k \<noteq> http11_method_put" and "target_ok p qs" and "number_ok a" and "number_ok b"
    and "\<forall>l \<in> set ls. line_ok l"
  shows "returns (http11_request m http s) (\<lambda>(ok, http', s', m'). ok \<and> m' = m
    \<and> drop (read_pos s') (chars m s') = body
    \<and> rl_method (rline http') = k \<and> http_version (rline http') = version_of a b
    \<and> header_is m stringaa_zero (Some p) (u_abs_path (request_uri (rline http')))
    \<and> (\<forall>q. qs = Some q \<longrightarrow> chars m (u_query (request_uri (rline http'))) = q)
    \<and> (\<forall>i < 38. header_is m (headers http ! i) (header_value ls i) (headers http' ! i)))"
proof -
  let ?u = "request_uri (rline http)" and ?h = "line_result s http k p qs a b"
  let ?n = "length pre + length (print_line k p qs a b)"
  let ?h' = "fold (set_view s) (line_views ?n ls) ?h"
  note run = http11_request_run [OF assms]
  have ok: "readable m s" using assms(1) by (simp add: cursor_def)
  have hok: "headers_ok ?h" using assms(5) by (simp add: fresh_http_def line_result_def headers_ok_def)
  let ?s1 = "s\<lparr>read_pos := read_pos s + length (method_name k) + 1\<rparr>"
  let ?t = "request_target ?s1 ?u p qs"
  have rl: "rline ?h = (rline http)\<lparr>rl_method := k, request_uri := ?t, http_version := version_of a b\<rparr>"
    by (simp add: line_result_def)
  have cs1: "chars m ?s1 = (pre @ method_name k @ [SP]) @ target p qs @ SP
      # ''HTTP/'' @ a @ CHR ''.'' # b @ [CR, LF] @ block ls @ body"
    using assms(2) by (simp add: print_line_def)
  have c1: "cursor m ?s1"
    using ok arg_cong [OF cs1, of length] assms(3) by (simp add: cursor_def)
  have slots: "\<not> is_null_terminated (u_abs_path ?u)" "\<not> is_null_terminated (u_query ?u)"
    using assms(5) by (simp_all add: fresh_http_def parts_def)
  note parts = request_target_parts [OF c1 cs1 _ slots]
  have "readable m (u_abs_path ?t)" using request_target_readable [OF c1 cs1 _ slots(1)] assms(3) by simp
  then have path: "header_is m stringaa_zero (Some p) (u_abs_path ?t)"
    using parts(1,2) assms(3) by (simp add: header_is_def)
  have query: "\<forall>q. qs = Some q \<longrightarrow> chars m (u_query (request_uri (rline ?h))) = q"
    unfolding rl using parts(3) assms(3) by simp
  have rl': "rl_method (rline ?h) = k" "http_version (rline ?h) = version_of a b"
      "u_abs_path (request_uri (rline ?h)) = u_abs_path ?t"
    unfolding rl by simp_all
  have hdr: "header_is m (headers http ! i) (header_value ls i) (headers ?h' ! i)" if "i < 38" for i
    using fold_line_views [OF ok, of "pre @ print_line k p qs a b" ls body ?h i] assms(2) that hok
    by (simp add: headers_ok_def) (simp add: line_result_def)
  show ?thesis
    unfolding run using path query hdr assms(2) by (simp add: rl')
qed

lemma http11_request_parses_witness:
  "returns (http11_request
      (memory_of [''GET /a?b HTTP/1.1'' @ [CR, LF] @ ''Host: x'' @ [CR, LF, CR, LF] @ ''body''])
      httpaa_zero (string_at 0 34))
    (\<lambda>(ok, http', s', m'). ok \<and> rl_method (rline http') = http11_method_get)"
proof -
  let ?r = "''GET /a?b HTTP/1.1'' @ [CR, LF] @ ''Host: x'' @ [CR, LF, CR, LF] @ ''body''"
  have "target_ok ''/a'' (Some ''b'')" by (simp add: target_ok_def cclass range_defs)
  moreover have "number_ok ''1''" by (simp add: number_ok_def cclass range_defs BUF_INT_SIZE_def decimal_def)
  moreover have "line_ok ''Host: x''" by (auto simp: line_ok_def crlf_at_def nth_Cons' less_Suc_eq)
  moreover have "?r = [] @ print_line http11_method_get ''/a'' (Some ''b'') ''1'' ''1'' @ block [''Host: x''] @ ''body''"
    by (simp add: print_line_def method_name_def http11_method_array_def target_def)
  ultimately show ?thesis
    using http11_request_parses [of "memory_of [?r]" "string_at 0 34" "[]" http11_method_get "''/a''"
        "Some ''b''" "''1''" "''1''" "[''Host: x'']" "''body''" httpaa_zero] fresh_http_zero
    by (simp add: cursor_def returns_iff) blast
qed

end
