(* ===== verification/Http_Safety.thy ===== *)
theory Http_Safety
  imports Http_Request_Proofs
begin

text \<open>
  The request parser on arbitrary bytes: it returns, it never leaves the request, it changes no
  memory, and every header it sets is a view inside the request.  The one hypothesis on the
  bytes is that no version number in them is too large for the \<open>int\<close> that \<open>atoi\<close> makes of it.
\<close>

section \<open>Contracts of the parts of the request line\<close>

text \<open>What every function of the parser leaves alone: the data under the cursor and the headers.\<close>

definition keeps :: "stringaa \<Rightarrow> httpaa \<Rightarrow> stringaa \<Rightarrow> httpaa \<Rightarrow> bool" where
  "keeps s http s' http' \<longleftrightarrow> moved s s' \<and> headers http' = headers http"

text \<open>The digits at \<open>p\<close>, as many as the buffer takes, are a number that fits an \<open>int\<close>; and the numbers right
  behind every \<open>HTTP/\<close>, in letters of any case, do: the one before and the one after the dot.\<close>

definition number_fits :: "char list \<Rightarrow> nat \<Rightarrow> bool" where
  "number_fits cs p \<longleftrightarrow> decimal (take (BUF_INT_SIZE - 1) (takeWhile HTTP11_DIGIT (drop p cs))) < 2 ^ 31"

definition versions_ok :: "char list \<Rightarrow> bool" where
  "versions_ok cs \<longleftrightarrow> (\<forall>p. map c_toupper (take 5 (drop p cs)) = ''HTTP/'' \<longrightarrow> number_fits cs (p + 5)
     \<and> (let e = run_end HTTP11_DIGIT cs (p + 5) in peek cs e = CHR ''.'' \<longrightarrow> number_fits cs (Suc e)))"

lemma cursor_le: "cursor m s \<Longrightarrow> read_pos s \<le> write_pos s"
  by (simp add: cursor_def)

lemma keeps_refl: "cursor m s \<Longrightarrow> keeps s http s http"
  by (simp add: keeps_def moved_refl cursor_def)

lemma keepsI: "read_pos s \<le> q \<Longrightarrow> q \<le> write_pos s \<Longrightarrow> headers http' = headers http \<Longrightarrow>
    keeps s http (s\<lparr>read_pos := q\<rparr>) http'"
  by (simp add: keeps_def movedI)

lemma keeps_trans: "keeps s h s1 h1 \<Longrightarrow> keeps s1 h1 s2 h2 \<Longrightarrow> keeps s h s2 h2"
  by (auto simp: keeps_def intro: moved_trans)

lemma keeps_reset: "keeps s h s1 h1 \<Longrightarrow> cursor m s \<Longrightarrow> keeps s h (s1\<lparr>read_pos := read_pos s\<rparr>) h1"
  by (auto simp: keeps_def moved_def cursor_def intro!: exI [of _ "read_pos s"])

lemma keeps_cursor: "keeps s h s1 h1 \<Longrightarrow> cursor m s \<Longrightarrow> cursor m s1 \<and> chars m s1 = chars m s
    \<and> write_pos s1 = write_pos s"
  by (auto simp: keeps_def moved_cursor moved_chars moved_write_pos)

lemma keeps_skip:
  assumes "cursor m s"
  shows "keeps s http (skip s) http"
  using assms by (cases "read_pos s < write_pos s") (auto simp: skip_eq skip_end cursor_def intro: keepsI)

lemma http11_method_keeps:
  assumes "cursor m s"
  shows "returns (http11_method m http s) (\<lambda>(b, http', s'). keeps s http s' http'
    \<and> request_uri (rline http') = request_uri (rline http))"
proof (cases "table_list c_toupper (drop (read_pos s) (chars m s)) 0 (read_pos s) http11_method_array")
  case None
  with assms show ?thesis by (simp add: http11_method_eq keeps_refl)
next
  case (Some iq)
  obtain i q where iq: "iq = (i, q)" by fastforce
  from table_list_bound [OF Some [unfolded iq]] cursor_le [OF assms]
  have "read_pos s \<le> q" "q \<le> write_pos s" by auto
  with Some iq show ?thesis by (simp add: http11_method_eq [OF assms] keepsI)
qed

lemma http11_crlf_keeps:
  assumes "cursor m s"
  shows "returns (http11_crlf m s) (\<lambda>(b, s'). keeps s http s' http)"
proof -
  have "read_pos s + 2 \<le> write_pos s" if "crlf_at (chars m s) (read_pos s)"
    using that by (simp add: crlf_at_def)
  then show ?thesis
    using assms by (auto simp: http11_crlf_eq keeps_refl intro: keepsI)
qed

lemma buf_number_returns:
  assumes "readable m s" and "number_fits (chars m s) p" and "p \<le> write_pos s"
  shows "\<exists>v. buf_number m (s\<lparr>read_pos := q\<rparr>) p (run_end HTTP11_DIGIT (chars m s) p - p) = Some v"
proof -
  let ?w = "takeWhile HTTP11_DIGIT (drop p (chars m s))"
  let ?n = "if length ?w \<ge> BUF_INT_SIZE then BUF_INT_SIZE - 1 else length ?w"
  have n: "run_end HTTP11_DIGIT (chars m s) p - p = length ?w" by (simp add: run_end_def)
  have "length ?w \<le> write_pos s - p" using length_takeWhile_le [of HTTP11_DIGIT "drop p (chars m s)"] by simp
  then have le: "p + ?n \<le> write_pos s" using assms(3) by (auto simp: BUF_INT_SIZE_def)
  have "take ?n (drop p (chars m s)) = take (BUF_INT_SIZE - 1) ?w"
  proof -
    have "take k (drop p (chars m s)) = take k ?w" if "k \<le> length ?w" for k
      using that by (metis takeWhile_eq_take take_take min.absorb1)
    then show ?thesis by (auto simp: BUF_INT_SIZE_def)
  qed
  moreover have "decimal (take (BUF_INT_SIZE - 1) ?w) < 2 ^ 31"
    using assms(2) by (simp add: number_fits_def)
  ultimately show ?thesis
    using load_n_readable [OF assms(1) le] by (simp add: buf_number_def c_atoi_def n)
qed

lemma count_run:
  assumes "cursor m s" and "HTTP11_DIGIT (peek (chars m s) (read_pos s))"
  defines "e \<equiv> run_end HTTP11_DIGIT (chars m s) (read_pos s)"
  shows "stringaa_get_char m (skip s) = Some (peek (chars m s) (Suc (read_pos s)))"
    "count_while HTTP11_DIGIT m (skip s) (peek (chars m s) (Suc (read_pos s))) 1 =
      Some (e - read_pos s, peek (chars m s) e, s\<lparr>read_pos := e\<rparr>)"
    "read_pos s < e" "e \<le> write_pos s"
proof -
  have lt: "read_pos s < write_pos s" "readable m s"
    using assms(1,2) digit_NUL by (auto simp: cursor_def peek_def split: if_splits)
  then have sk: "skip s = s\<lparr>read_pos := Suc (read_pos s)\<rparr>" by (simp add: skip_eq)
  have e: "e = run_end HTTP11_DIGIT (chars m s) (Suc (read_pos s))"
    using lt assms(2) by (simp add: e_def run_end_step)
  then show b: "read_pos s < e" "e \<le> write_pos s"
    using run_end_bounds [of "Suc (read_pos s)" "chars m s" HTTP11_DIGIT] lt by auto
  show "stringaa_get_char m (skip s) = Some (peek (chars m s) (Suc (read_pos s)))"
    using sk lt by simp
  have "cursor m (s\<lparr>read_pos := Suc (read_pos s)\<rparr>)" using lt by (simp add: cursor_def)
  from count_while_eq [where P = HTTP11_DIGIT, OF this digit_NUL refl, of 1] e b sk
  show "count_while HTTP11_DIGIT m (skip s) (peek (chars m s) (Suc (read_pos s))) 1 =
      Some (e - read_pos s, peek (chars m s) e, s\<lparr>read_pos := e\<rparr>)"
    by simp
qed

lemma http11_http_version_keeps:
  assumes "cursor m s" and "versions_ok (chars m s)"
  shows "returns (http11_http_version m http s) (\<lambda>(b, http', s'). keeps s http s' http')"
proof -
  let ?cs = "chars m s" and ?p = "read_pos s"
  have ok: "readable m s" "?p \<le> write_pos s" using assms(1) by (auto simp: cursor_def)
  have nn: "c_toupper NUL \<notin> set ''HTTP/''" by (simp add: c_toupper_def range_defs)
  define n where "n = common ''HTTP/'' (map c_toupper (drop ?p ?cs))"
  let ?q = "?p + n"
  have q: "?q \<le> write_pos s"
    using common_le(2) [of "''HTTP/''" "map c_toupper (drop ?p ?cs)"] ok by (simp add: n_def)
  have mw: "match_word c_toupper m s (peek ?cs ?p) ''HTTP/'' =
      Some (n = length ''HTTP/'', peek ?cs ?q, s\<lparr>read_pos := ?q\<rparr>)"
    unfolding match_word_eq [where f = c_toupper, OF assms(1) nn refl] Let_def n_def ..
  have g: "stringaa_get_char m s = Some (peek ?cs ?p)" using ok by simp
  have no: "keeps s http (s\<lparr>read_pos := r, read_pos := ?p\<rparr>) http" for r
    by (simp add: keeps_refl [OF assms(1)])
  show ?thesis
  proof (cases "n = length ''HTTP/'' \<and> HTTP11_DIGIT (peek ?cs ?q)")
    case False
    then show ?thesis
      unfolding http11_http_version_def Let_def g bind.bind_lunit mw prod.case
      using no by (simp only: if_False returns_Some prod.case)
  next
    case True
    note dig = True [THEN conjunct2]
    have "map c_toupper (take 5 (drop ?p ?cs)) = ''HTTP/''"
      using True common_full [of "''HTTP/''" "map c_toupper (drop ?p ?cs)"] by (simp add: n_def take_map eval_nat_numeral)
    moreover have "?q = ?p + 5" using True by simp
    ultimately have fit: "number_fits ?cs ?q"
        "peek ?cs (run_end HTTP11_DIGIT ?cs ?q) = CHR ''.'' \<Longrightarrow> number_fits ?cs (Suc (run_end HTTP11_DIGIT ?cs ?q))"
      using assms(2) by (simp_all add: versions_ok_def Let_def)
    have mwT: "match_word c_toupper m s (peek ?cs ?p) ''HTTP/'' =
        Some (True, peek ?cs ?q, s\<lparr>read_pos := ?q\<rparr>)"
      by (simp only: mw True [THEN conjunct1] simp_thms)
    have c1: "cursor m (s\<lparr>read_pos := ?q\<rparr>)" using ok q by (simp add: cursor_def)
    define e where "e = run_end HTTP11_DIGIT ?cs ?q"
    note 1 = count_run [OF c1, simplified, folded e_def, OF dig]
    let ?s1 = "s\<lparr>read_pos := e\<rparr>"
    have c2: "cursor m ?s1" using ok 1(4) by (simp add: cursor_def)
    obtain r where r: "skip ?s1 = s\<lparr>read_pos := r\<rparr>" "e \<le> r" "r \<le> write_pos s"
      using keeps_skip [OF c2, of http] by (auto simp: keeps_def moved_def)
    have c3: "cursor m (s\<lparr>read_pos := r\<rparr>)" using ok r(3) by (simp add: cursor_def)
    have g3: "stringaa_get_char m (s\<lparr>read_pos := r\<rparr>) = Some (peek ?cs r)" using ok by simp
    show ?thesis
    proof (cases "peek ?cs e = CHR ''.'' \<and> HTTP11_DIGIT (peek ?cs r)")
      case False
      then show ?thesis
        unfolding http11_http_version_def Let_def g bind.bind_lunit mwT prod.case
        using no by (auto simp: dig 1 [unfolded One_nat_def] r(1) g3)
    next
      case dot: True
      define f where "f = run_end HTTP11_DIGIT ?cs r"
      note 2 = count_run [OF c3, simplified, folded f_def, OF conjunct2 [OF dot]]
      obtain major where major: "buf_number m (s\<lparr>read_pos := f\<rparr>) ?q (e - ?q) = Some major"
        using buf_number_returns [OF ok(1) fit(1) q] by (auto simp: e_def)
      have "e < write_pos s" using dot by (auto simp: peek_def split: if_splits)
      then have "r = Suc e" using r(1) by (simp add: skip_eq) (cases s, simp)
      then have "number_fits ?cs r" using fit(2) dot by (simp add: e_def)
      from buf_number_returns [OF ok(1) this r(3), of f]
      obtain minor where minor: "buf_number m (s\<lparr>read_pos := f\<rparr>) r (f - r) = Some minor"
        by (auto simp: f_def)
      have "keeps s http (s\<lparr>read_pos := f\<rparr>) http'" if "headers http' = headers http" for http'
        using 1 2 r that by (intro keepsI) auto
      with dot show ?thesis
        unfolding http11_http_version_def Let_def g bind.bind_lunit mwT prod.case
        by (simp add: dig 1 [unfolded One_nat_def] r(1) g3 2 [unfolded One_nat_def] major minor)
    qed
  qed
qed

lemma http11_request_uri_keeps:
  assumes "cursor m s" and "write_pos s < 2 ^ 31" and "fresh_http h"
    and "request_uri (rline http) = request_uri (rline h)"
  shows "returns (http11_request_uri m http s) (\<lambda>(b, http', s', m'). keeps s http s' http' \<and> m' = m)"
proof -
  let ?u = "request_uri (rline http)"
  have u: "\<not> is_alloc (u_uri ?u)" "\<not> is_init (u_uri ?u)" "\<forall>x \<in> set (parts ?u). \<not> is_init x"
    using assms(3) by (simp_all add: assms(4) fresh_http_def)
  have small: "to_int (read_pos s) = int (read_pos s)" "to_int (write_pos s) = int (write_pos s)"
    using assms(1,2) by (simp_all add: cursor_def)
  show ?thesis
  proof (cases "read_pos s < write_pos s")
    case False
    then have "stringaa_set_substring m (u_uri ?u) s STRINGAA_READ_POS STRINGAA_WRITE_POS = Some (True, u_uri ?u, m)"
      using small by (simp add: stringaa_set_substring_def STRINGAA_READ_POS_def STRINGAA_WRITE_POS_def)
    with u(2) assms(1) show ?thesis
      by (simp add: http11_request_uri_def uriaa_check_url_def keeps_refl keeps_def moved_refl cursor_def)
  next
    case True
    let ?x = "header_view s (read_pos s) (write_pos s) (u_uri ?u)"
    have "readable m s" using assms(1) by (simp add: cursor_def)
    from header_view_chars [OF this, of "read_pos s" "write_pos s"] True
    have x: "cursor m ?x" by (simp add: cursor_def header_view_def)
    have wp: "write_pos ?x = write_pos s - read_pos s" "read_pos ?x = 0" by (simp_all add: header_view_def)
    have "parts (?u\<lparr>u_uri := ?x\<rparr>) = parts ?u" by (simp add: parts_def)
    then have "uri_ok m (?u\<lparr>u_uri := ?x\<rparr>)" using x u(3) by (simp add: uri_ok_def view_of_def)
    from uriaa_check_url_c.total [OF this] obtain b v where
      v: "uriaa_check_url m (?u\<lparr>u_uri := ?x\<rparr>) = Some (b, v)" "adv m (?u\<lparr>u_uri := ?x\<rparr>) v"
      by (auto simp: returns_iff)
    have "read_pos (u_uri v) \<le> write_pos s - read_pos s"
      using adv_pos [OF v(2)] wp by (simp add: u_pos_def)
    then have le: "read_pos s + read_pos (u_uri v) \<le> write_pos s" using True by simp
    have "keeps s http s http'" if "headers http' = headers http" for http'
      using assms(1) that by (simp add: keeps_def moved_refl cursor_def)
    then show ?thesis
      using set_substring_rest [OF u(1) True assms(2)] v(1) le
      by (cases b) (auto simp: http11_request_uri_def intro: keepsI)
  qed
qed

lemma http11_request_line_keeps:
  assumes "cursor m s" and "write_pos s < 2 ^ 31" and "fresh_http http" and "versions_ok (chars m s)"
  shows "returns (http11_request_line m http s) (\<lambda>(b, http', s', m'). keeps s http s' http' \<and> m' = m)"
proof -
  obtain b1 h1 s1 where 1: "http11_method m http s = Some (b1, h1, s1)" "keeps s http s1 h1"
      "request_uri (rline h1) = request_uri (rline http)"
    using http11_method_keeps [OF assms(1), of http] by (auto simp: returns_iff)
  have reset: "keeps s http (x\<lparr>read_pos := read_pos s\<rparr>) h" if "keeps s http x h" for x h
    using keeps_reset [OF that assms(1)] .
  note c1 = keeps_cursor [OF 1(2) assms(1)]
  obtain k1 where g1: "stringaa_get_char m s1 = Some k1" using c1 by (auto simp: cursor_def)
  have sk1: "keeps s http (skip s1) h1" using keeps_trans [OF 1(2) keeps_skip] c1 by blast
  note c1' = keeps_cursor [OF sk1 assms(1)]
  obtain b2 h2 s2 where 2: "http11_request_uri m h1 (skip s1) = Some (b2, h2, s2, m)" "keeps s http s2 h2"
    using http11_request_uri_keeps [of m "skip s1" http h1] c1' assms(2,3) 1(3) keeps_trans [OF sk1]
    by (auto simp: returns_iff)
  note c2 = keeps_cursor [OF 2(2) assms(1)]
  obtain k2 where g2: "stringaa_get_char m s2 = Some k2" using c2 by (auto simp: cursor_def)
  have sk2: "keeps s http (skip s2) h2" using keeps_trans [OF 2(2) keeps_skip] c2 by blast
  note c2' = keeps_cursor [OF sk2 assms(1)]
  obtain b3 h3 s3 where 3: "http11_http_version m h2 (skip s2) = Some (b3, h3, s3)" "keeps s http s3 h3"
    using http11_http_version_keeps [of m "skip s2" h2] c2' assms(4) keeps_trans [OF sk2]
    by (auto simp: returns_iff)
  note c3 = keeps_cursor [OF 3(2) assms(1)]
  obtain b4 s4 where 4: "http11_crlf m s3 = Some (b4, s4)" "keeps s http s4 h3"
    using http11_crlf_keeps [of m s3 h3] c3 keeps_trans [OF 3(2)] by (auto simp: returns_iff)
  show ?thesis
    using 1 2 3 4 g1 g2 reset by (simp add: http11_request_line_def Let_def)
qed

section \<open>The header loop\<close>

lemma head_parse_bounds:
  assumes "p \<le> length cs" and "head_parse cs p = (vs, b, q)"
  shows "p \<le> q \<and> q \<le> length cs \<and> (\<forall>(k, i, j) \<in> set vs. k < 38 \<and> i \<le> j \<and> j \<le> length cs)"
  using assms
proof (induction cs p arbitrary: vs b q rule: head_parse.induct)
  case (1 cs p)
  show ?case
  proof (cases "header_find cs p header_names")
    case None
    show ?thesis
    proof (cases "crlf_at cs p \<or> first_crlf cs p = None")
      case True
      with None 1(3,4) show ?thesis
        by (subst (asm) head_parse.simps) (auto simp: crlf_at_def split: if_splits)
    next
      case False
      then obtain e where e: "first_crlf cs p = Some e" "\<not> crlf_at cs p" by auto
      with None 1(4) have "head_parse cs (e + 2) = (vs, b, q)"
        by (subst (asm) head_parse.simps) simp
      from 1(1) [OF None e(2,1) _ this] crlf_at_first [OF e(1)] show ?thesis by auto
    qed
  next
    case (Some kw)
    obtain k w where kw: "kw = (k, w)" by fastforce
    note f = header_findD [OF Some [unfolded kw]]
    have k: "k < 38" "p + length w < length cs"
      using f header_names_ok name_at_lt by (blast, blast)
    show ?thesis
    proof (cases "first_crlf cs (p + length w)")
      case None
      with Some kw k 1(4) show ?thesis
        by (subst (asm) head_parse.simps) (auto simp: Let_def)
    next
      case fc: (Some e)
      obtain vs' b' q' where r: "head_parse cs (e + 2) = (vs', b', q')" using prod_cases3 by blast
      note e = crlf_at_first [OF fc]
      have "vs = (k, p + length w, e) # vs'" "q = q'"
        using 1(4) Some kw fc r by (subst (asm) head_parse.simps, simp add: Let_def)+
      with 1(2) [OF Some kw [symmetric] refl fc _ r] e k show ?thesis by auto
    qed
  qed
qed

text \<open>The headers after some views have been set.\<close>

lemma set_views_inside:
  assumes "\<forall>(k, i, j) \<in> set vs. k < 38 \<and> i \<le> j \<and> j \<le> write_pos s" and "headers_ok http"
  shows "headers_ok (fold (set_view s) vs http) \<and> (\<forall>n < 38.
    headers (fold (set_view s) vs http) ! n = headers http ! n
    \<or> is_init (headers (fold (set_view s) vs http) ! n) \<and> view_of s (headers (fold (set_view s) vs http) ! n))"
  using assms
proof (induction vs arbitrary: http)
  case Nil
  then show ?case by simp
next
  case (Cons v vs)
  obtain k i j where v: "v = (k, i, j)" using prod_cases3 by blast
  have ij: "i \<le> j" "j \<le> write_pos s" "k < 38" using Cons(2) v by auto
  let ?x = "header_view s i j (headers http ! k)"
  have x: "is_init ?x" "view_of s ?x"
    using ij by (auto simp: header_view_def view_of_def intro!: exI [of _ i])
  have h: "headers (set_view s v http) = (headers http)[k := ?x]" "length (headers http) = 38"
    using Cons(3) by (simp_all add: v set_view_def headers_ok_def)
  from Cons(1) [of "set_view s v http"] Cons(2,3)
  have "headers_ok (fold (set_view s) (v # vs) http)" and rec: "\<forall>n < 38.
      headers (fold (set_view s) (v # vs) http) ! n = (headers http)[k := ?x] ! n
      \<or> is_init (headers (fold (set_view s) (v # vs) http) ! n)
        \<and> view_of s (headers (fold (set_view s) (v # vs) http) ! n)"
    by (auto simp: h(1))
  moreover have "(headers http)[k := ?x] ! n = (if n = k then ?x else headers http ! n)" if "n < 38" for n
    using that h(2) by (simp add: nth_list_update)
  ultimately have "headers (fold (set_view s) (v # vs) http) ! n = headers http ! n
      \<or> is_init (headers (fold (set_view s) (v # vs) http) ! n)
        \<and> view_of s (headers (fold (set_view s) (v # vs) http) ! n)" if "n < 38" for n
    using x that by (cases "n = k") auto
  with \<open>headers_ok (fold (set_view s) (v # vs) http)\<close> show ?case by blast
qed

section \<open>Safety\<close>

text \<open>C3: on any bytes, fewer than 2 ^ 31, with a struct into which no request has been parsed yet, as after
  \<open>memset\<close>, \<open>http11_request\<close> returns; the memory is unchanged, the position moves forward
  and stays inside the request, the header array keeps its size and owns no memory, and every
  header that was set is a view inside the request.  Excluded are bytes in which \<open>HTTP/\<close> stands before a
  number, or a number, a dot and a number, of which one does not fit an \<open>int\<close>.\<close>

theorem http11_request_safe:
  assumes "cursor m s" and "write_pos s < 2 ^ 31" and "fresh_http http" and "versions_ok (chars m s)"
  shows "returns (http11_request m http s) (\<lambda>(ok, http', s', m'). m' = m \<and> moved s s'
    \<and> headers_ok http' \<and> (\<forall>n < 38. headers http' ! n = headers http ! n
      \<or> is_init (headers http' ! n) \<and> view_of s (headers http' ! n)))"
proof -
  obtain b h1 s1 where l: "http11_request_line m http s = Some (b, h1, s1, m)" "keeps s http s1 h1"
    using http11_request_line_keeps [OF assms] by (auto simp: returns_iff)
  have h1: "headers h1 = headers http" "headers_ok h1"
    using l(2) assms(3) by (simp_all add: keeps_def fresh_http_def headers_ok_def)
  note c = keeps_cursor [OF l(2) assms(1)]
  show ?thesis
  proof (cases b)
    case False
    with l h1 show ?thesis by (simp add: http11_request_def keeps_def)
  next
    case True
    obtain vs r q where hp: "head_parse (chars m s1) (read_pos s1) = (vs, r, q)" using prod_cases3 by blast
    from l(2) obtain p where p: "s1 = s\<lparr>read_pos := p\<rparr>" "read_pos s \<le> p" "p \<le> write_pos s"
      by (auto simp: keeps_def elim: movedE)
    from head_parse_bounds [OF _ hp] p have bnd: "p \<le> q" "q \<le> write_pos s"
        "\<forall>(k, i, j) \<in> set vs. k < 38 \<and> i \<le> j \<and> j \<le> write_pos s"
      by auto
    have "http11_request m http s = Some (r, fold (set_view s) vs h1, s\<lparr>read_pos := q\<rparr>, m)"
      using l(1) True request_headers_eq [of m s1 h1] c h1(2) hp p(1) by (simp add: http11_request_def)
    with set_views_inside [OF bnd(3) h1(2)] h1(1) p bnd show ?thesis
      by (simp add: movedI)
  qed
qed

lemma http11_request_safe_witness:
  "returns (http11_request (memory_of [''GET 1'']) httpaa_zero (string_at 0 5)) (\<lambda>(ok, http', s', m').
    moved (string_at 0 5) s')"
proof -
  have "map c_toupper (take 5 (drop p ''GET 1'')) \<noteq> ''HTTP/''" for p
    by (simp add: drop_Cons' c_toupper_def range_defs)
  then show ?thesis
    using http11_request_safe [of "memory_of [''GET 1'']" "string_at 0 5" httpaa_zero] fresh_http_zero
    by (auto simp: versions_ok_def cursor_def returns_iff)
qed

end
