(* ===== verification/Http_Rejects.thy ===== *)
theory Http_Rejects
  imports Http_Safety
begin

text \<open>
  Requests that the parser does not accept: a head that is not complete yet, which leaves the
  struct and the position as they were, and a valid request whose path ends with an escape.
\<close>

section \<open>Incomplete heads\<close>

text \<open>C36: a request that does not hold two line ends yet is not parsed: the result is 0, and the
  struct, the position and the memory are as before, so that the call can be repeated when more
  bytes have been received.\<close>

theorem httpaa_parse_request_headers_incomplete:
  assumes "cursor m s"
    and "\<forall>e. first_crlf (chars m s) (read_pos s) = Some e \<longrightarrow> first_crlf (chars m s) (e + 2) = None"
  shows "httpaa_parse_request_headers m http s = Some (False, http, s, m)"
proof (cases "first_crlf (chars m s) (read_pos s)")
  case None
  then show ?thesis
    by (simp add: httpaa_parse_request_headers_def http11_find_crlf_eq [OF assms(1)])
next
  case (Some e)
  note e = crlf_at_first [OF Some]
  have "readable m s" using assms(1) by (simp add: cursor_def)
  with e have c: "cursor m (s\<lparr>read_pos := e\<rparr>)" "cursor m (s\<lparr>read_pos := e + 2\<rparr>)"
    by (simp_all add: cursor_def)
  with Some e assms(2) http11_crlf_eq [OF c(1)] http11_find_crlf_eq [OF c(2)] show ?thesis
    by (simp add: httpaa_parse_request_headers_def http11_find_crlf_eq [OF assms(1)])
qed

lemma httpaa_parse_request_headers_incomplete_witness:
  "httpaa_parse_request_headers (memory_of [''GET / HTTP/1.1'' @ [CR, LF]]) httpaa_zero (string_at 0 16) =
    Some (False, httpaa_zero, string_at 0 16, memory_of [''GET / HTTP/1.1'' @ [CR, LF]])"
proof -
  have "first_crlf (''GET / HTTP/1.1'' @ [CR, LF]) 0 = Some 14"
    by (simp add: first_crlf_def crlf_at_def upt_rec)
  moreover have "first_crlf (''GET / HTTP/1.1'' @ [CR, LF]) 16 = None"
    by (simp add: first_crlf_def)
  ultimately show ?thesis
    using httpaa_parse_request_headers_incomplete
      [of "memory_of [''GET / HTTP/1.1'' @ [CR, LF]]" "string_at 0 16" httpaa_zero]
    by (simp add: cursor_def)
qed

section \<open>A path that ends with an escape\<close>

lemma http_chars: "\<forall>c \<in> set ''HTTP/''. PATH c" "\<not> PATH CR" "PATH (CHR ''.'')"
  "HTTP11_DIGIT c \<Longrightarrow> PATH c" "\<not> PATH (CHR ''%'')"
  by (simp_all add: cclass range_defs)

lemma scan_end_prefix:
  assumes "\<forall>c \<in> set w. P c"
  shows "scan_end P (pre @ w @ r) (length pre) = scan_end P (pre @ w @ r) (length pre + length w)"
  using assms
proof (induction w arbitrary: pre)
  case (Cons c w)
  with Cons(1) [of "pre @ [c]"] show ?case
    by (subst scan_end.simps) (simp add: nth_append)
qed simp

lemma scan_end_escape:
  assumes "\<not> P (CHR ''%'')" and "HEX_CHARS h1" and "HEX_CHARS h2"
  shows "scan_end P (pre @ CHR ''%'' # h1 # h2 # x # r) (length pre) =
    scan_end P (pre @ CHR ''%'' # h1 # h2 # x # r) (length pre + 4)"
  using assms by (subst scan_end.simps) (simp add: escape_at_def nth_append)

lemma uriaa_check_url_slash:
  assumes "cursor m (u_uri u)" and "u_pos u = 0" and "is_init (u_uri u)"
    and "peek (chars m (u_uri u)) 0 = CHR ''/''" and "peek (chars m (u_uri u)) 1 \<noteq> CHR ''/''"
    and "scan_end PATH (chars m (u_uri u)) 1 = e" and "peek (chars m (u_uri u)) e \<notin> {CHR ''?'', CHR ''#''}"
    and "e \<le> write_pos (u_uri u)"
  shows "uriaa_check_url m u =
    Some (True, (set_u_pos e u)\<lparr>u_abs_path := part_of (u_uri u) 0 e (u_abs_path u)\<rparr>)"
proof -
  let ?v = "(set_u_pos e u)\<lparr>u_abs_path := part_of (u_uri u) 0 e (u_abs_path u)\<rparr>"
  have p: "peek (chars m (u_uri u)) (u_pos u) = CHR ''/''" "peek (chars m (u_uri u)) (u_pos u + 1) \<noteq> CHR ''/''"
    using assms(2,4,5) by simp_all
  have ab: "abs_path m u = Some (True, ?v)"
    using abs_path_longest_run_eq [OF assms(1)] p(1) assms(2,6) by simp
  have v: "cursor m (u_uri ?v)" "chars m (u_uri ?v) = chars m (u_uri u)" "u_pos ?v = e"
    using assms(1,8) by (simp_all add: cursor_def u_pos_def set_u_pos_def)
  have "uri_is_char m ?v (CHR ''?'') = Some (False, ?v)" "uri_is_char m ?v (CHR ''#'') = Some (False, ?v)"
    using assms(7) v by (auto intro!: uri_is_char_no)
  moreover have "0 < write_pos (u_uri u)"
    using assms(4) by (cases "write_pos (u_uri u)") (auto simp: peek_def)
  ultimately show ?thesis
    using ab net_path_one_slash [OF assms(1) p] absoluteURI_slash [OF assms(1) p(1)] assms(3)
      cursor_buf [OF assms(1), of 0]
    by (simp add: uriaa_check_url_def URI_reference_def relativeURI_def Let_def)
qed

text \<open>What the parser sees of such a request from its target on.\<close>

definition escape_rest :: "char list \<Rightarrow> char \<Rightarrow> char \<Rightarrow> char list \<Rightarrow> char list \<Rightarrow> char list \<Rightarrow> char list" where
  "escape_rest w h1 h2 a b r = CHR ''/'' # w @ CHR ''%'' # h1 # h2 # SP # ''HTTP/'' @ a @ ''.'' @ b @ CR # LF # r"

lemma escape_rest_scan:
  fixes r :: "char list"
  assumes "\<forall>c \<in> set w. PATH c" and "HEX_CHARS h1" and "HEX_CHARS h2" and "number_ok a" and "number_ok b"
  defines "t \<equiv> escape_rest w h1 h2 a b r" and "e \<equiv> length w + length a + length b + 11"
  shows "scan_end PATH t 1 = e" "t ! e = CR" "e < length t"
proof -
  define q where "q = CHR ''/'' # w @ [CHR ''%'', h1, h2, SP]"
  define v where "v = ''HTTP/'' @ a @ ''.'' @ b"
  have t: "t = q @ v @ CR # LF # r" and e: "length (q @ v) = e" "length q = length w + 5"
    by (simp_all add: q_def v_def t_def e_def escape_rest_def)
  have "scan_end PATH t 1 = scan_end PATH t (1 + length w)"
    using scan_end_prefix [of w PATH "[CHR ''/'']"] assms(1) by (simp add: t_def escape_rest_def)
  also have "\<dots> = scan_end PATH t (length q)"
    using scan_end_escape [of PATH h1 h2 "CHR ''/'' # w" SP] assms(2,3) http_chars(5)
    by (simp add: t_def escape_rest_def e add.commute)
  also have "\<dots> = e"
  proof -
    have "\<forall>c \<in> set v. PATH c"
      using assms(4,5) http_chars(1,3,4) by (auto simp: v_def number_ok_def)
    from scan_end_span [OF this, of "CR # LF # r" q] show ?thesis
      using http_chars(2) e(1) by (simp add: t)
  qed
  finally show "scan_end PATH t 1 = e" .
  show "t ! e = CR" using nth_append_length [of "q @ v" CR "LF # r"] by (simp add: t e(1) [symmetric])
  show "e < length t" by (simp add: t e(1) [symmetric])
qed

lemma escape_request_uri:
  assumes "readable m s" and "read_pos s + length t = write_pos s" and "drop (read_pos s) (chars m s) = t"
    and "write_pos s < 2 ^ 31" and "fresh_http http"
    and "peek t 0 = CHR ''/''" and "peek t 1 \<noteq> CHR ''/''" and "scan_end PATH t 1 = e" and "t ! e = CR" and "e < length t"
  obtains http' where "http11_request_uri m http s = Some (True, http', s\<lparr>read_pos := read_pos s + e\<rparr>, m)"
proof -
  let ?u = "request_uri (rline http)" and ?x = "header_view s (read_pos s) (write_pos s) (u_uri (request_uri (rline http)))"
  have x: "readable m ?x" "chars m ?x = t"
    using header_view_chars [OF assms(1), of "read_pos s" "write_pos s"] assms(2,3) by auto
  have u: "\<not> is_alloc (u_uri ?u)" using assms(5) by (simp add: fresh_http_def)
  have xs: "read_pos ?x = 0" "is_init ?x" "write_pos ?x = length t"
    using assms(2) by (auto simp: header_view_def)
  have "uriaa_check_url m (?u\<lparr>u_uri := ?x\<rparr>) = Some (True,
      (set_u_pos e (?u\<lparr>u_uri := ?x\<rparr>))\<lparr>u_abs_path := part_of ?x 0 e (u_abs_path ?u)\<rparr>)"
    using uriaa_check_url_slash [of m "?u\<lparr>u_uri := ?x\<rparr>" e] x xs assms(6-10) by (simp add: cursor_def u_pos_def)
  moreover have "stringaa_set_substring m (u_uri ?u) s STRINGAA_READ_POS STRINGAA_WRITE_POS = Some (True, ?x, m)"
    using set_substring_rest [OF u, of s m] assms(2,4,10) by simp
  ultimately show thesis
    by (intro that) (fastforce simp: http11_request_uri_def set_u_pos_def Let_def)
qed

text \<open>C40: a request that is valid but for the way the parser reads it: when the path ends with an
  escape, the scan takes in the space after it and runs on to the line end, the version is not
  found, and \<open>http11_request\<close> fails.\<close>

theorem http11_request_rejects_escape:
  assumes "cursor m s" and "read_pos s = length pre" and "write_pos s < 2 ^ 31" and "fresh_http http"
    and "chars m s = pre @ method_name k @ SP # CHR ''/'' # w @ CHR ''%'' # h1 # h2 # SP
        # ''HTTP/'' @ a @ ''.'' @ b @ CR # LF # r"
    and "k \<noteq> http11_method_put" and "\<forall>c \<in> set w. PATH c" and "w = [] \<or> hd w \<noteq> CHR ''/''"
    and "HEX_CHARS h1" and "HEX_CHARS h2" and "number_ok a" and "number_ok b"
  shows "returns (http11_request m http s) (\<lambda>(ok, http', s', m'). \<not> ok \<and> s' = s \<and> m' = m)"
proof -
  define t where "t = escape_rest w h1 h2 a b r"
  define e where "e = length w + length a + length b + 11"
  define p1 where "p1 = length pre + length (method_name k) + 1"
  note scan = escape_rest_scan [OF assms(7,9-12), of r, folded t_def e_def]
  have cs: "chars m s = (pre @ method_name k @ [SP]) @ t" using assms(5) by (simp add: t_def escape_rest_def)
  have ok: "readable m s" using assms(1) by (simp add: cursor_def)
  have len: "p1 + length t = write_pos s" using arg_cong [OF cs, of length] by (simp add: p1_def)
  let ?s1 = "s\<lparr>read_pos := p1\<rparr>" and ?h1 = "set_rline ((rline http)\<lparr>rl_method := k\<rparr>) http"
  have "drop (read_pos s) (chars m s) = method_name k @ SP # t" using cs assms(2) by simp
  from http11_method_eq' [OF assms(1) this] assms(2,6)
  have 1: "http11_method m http s = Some (True, ?h1, s\<lparr>read_pos := length pre + length (method_name k)\<rparr>)"
    by simp
  have sp: "peek (chars m s) (length pre + length (method_name k)) = SP"
    unfolding cs by (simp add: nth_append)
  have sk: "skip (s\<lparr>read_pos := length pre + length (method_name k)\<rparr>) = ?s1"
    using len scan(3) by (simp add: skip_eq p1_def)
  have t1: "peek t 0 = CHR ''/''" "peek t 1 \<noteq> CHR ''/''"
    using assms(8) by (cases w; simp add: t_def escape_rest_def)+
  have "fresh_http ?h1" using assms(4) by (simp add: fresh_http_def headers_ok_def)
  then obtain hx where 2: "http11_request_uri m ?h1 ?s1 = Some (True, hx, s\<lparr>read_pos := p1 + e\<rparr>, m)"
    using escape_request_uri [of m ?s1 t ?h1 e] ok len cs assms(3) t1 scan by (auto simp: p1_def)
  have "peek (chars m s) (p1 + e) = CR"
    using cs scan(2,3) len by (simp add: p1_def nth_append)
  then have "http11_request_line m http s = Some (False, hx, s, m)"
    using 1 2 sp sk ok by (simp add: http11_request_line_def)
  then show ?thesis by (simp add: http11_request_def)
qed

lemma http11_request_rejects_escape_witness:
  "returns (http11_request (memory_of [''GET /%20 HTTP/1.1'' @ [CR, LF, CR, LF]]) httpaa_zero (string_at 0 21))
    (\<lambda>(ok, http', s', m'). \<not> ok)"
proof -
  have "number_ok ''1''" by (simp add: number_ok_def cclass range_defs BUF_INT_SIZE_def decimal_def)
  moreover have "HEX_CHARS (CHR ''2'')" "HEX_CHARS (CHR ''0'')" by (simp_all add: cclass range_defs)
  ultimately show ?thesis
    using http11_request_rejects_escape [of "memory_of [''GET /%20 HTTP/1.1'' @ [CR, LF, CR, LF]]"
        "string_at 0 21" "[]" httpaa_zero http11_method_get "[]" "CHR ''2''" "CHR ''0''" "''1''" "''1''" "[CR, LF]"]
      fresh_http_zero
    by (auto simp: cursor_def method_name_def http11_method_array_def returns_iff)
qed

end
