(* ===== verification/Work_Queue.thy ===== *)
theory Work_Queue
  imports Prelude "HOL-Library.Word"
begin

text \<open>
  The queue through which the server hands connections to the workers:
  \<open>src/worker/workeraa_index_utils.h\<close>, the queue operations of \<open>src/worker/workeraa_utils.h\<close> and
  the work structs of \<open>src/socket/socketaa_utils.h\<close>.

  The struct \<open>worker_sync\<close> is the record \<open>workeraa_sync\<close>; of the slots of its array only \<open>p_work\<close> is
  read, so a slot is the number of a work struct or \<^const>\<open>None\<close> for \<open>NULL\<close>, and the structs themselves
  are a list indexed by these numbers, as the queue never frees one.  An access outside the array
  or a list is undefined behaviour, \<^const>\<open>None\<close>.  The operations run under the mutex, so each is one
  step; what \<open>malloc\<close> and the \<open>pthread\<close> calls answer are arguments.
\<close>

section \<open>Work structs\<close>

text \<open>The fields of \<open>socket_work_struct\<close> that the program reads; the bit fields are the bits of
  \<open>w_flags\<close>.\<close>

record socketaa_work =
  w_conn :: int
  w_port :: "16 word"
  w_flags :: "16 word"

definition SOCKETAA_WORK_FLAGS_IS_SELECT :: "16 word" where "SOCKETAA_WORK_FLAGS_IS_SELECT = 1"
definition SOCKETAA_WORK_FLAGS_IS_RECV :: "16 word" where "SOCKETAA_WORK_FLAGS_IS_RECV = 2"
definition SOCKETAA_WORK_FLAGS_IS_SEND :: "16 word" where "SOCKETAA_WORK_FLAGS_IS_SEND = 4"

text \<open>The \<open>p_work\<close> of a slot or of a worker is the argument \<open>p\<close>.\<close>

definition socketaa_get_port :: "nat option \<Rightarrow> socketaa_work list \<Rightarrow> (16 word) option" where
  "socketaa_get_port p ws = (case p of None \<Rightarrow> Some 0
     | Some a \<Rightarrow> if a < length ws then Some (w_port (ws ! a)) else None)"

definition socketaa_set_work ::
  "bool \<Rightarrow> nat option \<Rightarrow> socketaa_work \<Rightarrow> socketaa_work list \<Rightarrow>
     (bool \<times> nat option \<times> socketaa_work list) option" where
  "socketaa_set_work alloc p x ws = (case p of
     Some a \<Rightarrow> if a < length ws then Some (True, p, ws[a := x]) else None
   | None \<Rightarrow> if alloc then Some (True, Some (length ws), ws @ [x]) else Some (False, None, ws))"

definition socketaa_set_work_flags ::
  "nat option \<Rightarrow> 16 word \<Rightarrow> socketaa_work list \<Rightarrow> (bool \<times> socketaa_work list) option" where
  "socketaa_set_work_flags p fl ws = (case p of None \<Rightarrow> Some (False, ws)
     | Some a \<Rightarrow> if a < length ws then Some (True, ws[a := (ws ! a)\<lparr>w_flags := fl\<rparr>]) else None)"

text \<open>The result carries the flags when they are written to \<open>*flags\<close>.\<close>

definition socketaa_get_work_flags ::
  "nat option \<Rightarrow> socketaa_work list \<Rightarrow> (bool \<times> (16 word) option) option" where
  "socketaa_get_work_flags p ws = (case p of None \<Rightarrow> Some (False, None)
     | Some a \<Rightarrow> if a < length ws then Some (True, Some (w_flags (ws ! a))) else None)"

section \<open>The shared state and its indices\<close>

record workeraa_sync =
  work :: "nat option list"
  work_count :: nat
  work_read_index :: nat
  work_write_index :: nat
  work_size :: nat

definition workeraa_work_set_next_read_index :: "workeraa_sync \<Rightarrow> bool \<times> workeraa_sync" where
  "workeraa_work_set_next_read_index y = (
     let n = work_size y;
         r = min (work_read_index y) n;
         w = min (work_write_index y) n
     in if r < w
        then (if r + 1 < w then (True, y\<lparr>work_read_index := r + 1\<rparr>)
              else (False, y\<lparr>work_read_index := w\<rparr>))
        else if r > w \<or> r = w \<and> work_count y > 0
        then (if r + 1 < n then (True, y\<lparr>work_read_index := r + 1\<rparr>)
              else if w > 0 then (True, y\<lparr>work_read_index := 0\<rparr>)
              else (False, y\<lparr>work_read_index := n\<rparr>))
        else (False, y))"

text \<open>The two tests are statements in sequence: the second one sees the write index that the first
  one has set.\<close>

definition workeraa_work_set_next_write_index :: "workeraa_sync \<Rightarrow> bool \<times> workeraa_sync" where
  "workeraa_work_set_next_write_index y = (
     let n = work_size y;
         r = min (work_read_index y) n;
         w = min (work_write_index y) n;
         (b, w, y) = (if w > r \<or> w = r \<and> work_count y = 0
           then (if w + 1 < n then (True, w + 1, y\<lparr>work_write_index := w + 1\<rparr>)
                 else if r > 0 then (True, 0, y\<lparr>work_write_index := 0\<rparr>)
                 else (False, n, y\<lparr>work_write_index := n\<rparr>))
           else (False, w, y))
     in if w < r
        then (if w + 1 < r then (True, y\<lparr>work_write_index := w + 1\<rparr>)
              else (b, y\<lparr>work_write_index := r\<rparr>))
        else (b, y))"

text \<open>The checks clamp and wrap copies of the indices: the struct keeps its own.\<close>

definition workeraa_work_check_read_index :: "workeraa_sync \<Rightarrow> bool" where
  "workeraa_work_check_read_index y = (
     let n = work_size y;
         r = min (work_read_index y) n;
         w = min (work_write_index y) n
     in if r = w \<and> work_count y > 0 \<and> r < n then True
        else if r < w then True
        else if r > w then r < n \<or> w > 0
        else False)"

definition workeraa_work_check_write_index :: "workeraa_sync \<Rightarrow> bool" where
  "workeraa_work_check_write_index y = (
     let n = work_size y;
         r = min (work_read_index y) n;
         w = min (work_write_index y) n
     in if w = r \<and> work_count y = 0 \<and> w < n then True
        else if w > r then w < n \<or> r > 0
        else w < r)"

section \<open>Putting and taking work\<close>

text \<open>\<open>lock\<close> says whether the mutex is locked, \<open>alloc\<close> whether \<open>malloc\<close> gives a struct.\<close>

definition workeraa_set_work ::
  "bool \<Rightarrow> bool \<Rightarrow> socketaa_work \<Rightarrow> workeraa_sync \<Rightarrow> socketaa_work list \<Rightarrow>
     (bool \<times> workeraa_sync \<times> socketaa_work list) option" where
  "workeraa_set_work lock alloc x y ws = (if lock \<and> workeraa_work_check_write_index y
     then if work_write_index y < length (work y)
       then do {
         (b, p, ws) \<leftarrow> socketaa_set_work alloc (work y ! work_write_index y) x ws;
         let y = y\<lparr>work := (work y)[work_write_index y := p]\<rparr>;
         Some (if b
           then (let y = snd (workeraa_work_set_next_write_index y)
             in (True, y\<lparr>work_count := work_count y + 1\<rparr>, ws))
           else (False, y, ws)) }
       else None
     else Some (False, y, ws))"

datatype 'a outcome = Blocked | Done 'a

text \<open>The loop around \<open>pthread_cond_wait\<close>.  \<open>wakes\<close> holds what each wait gives: \<^const>\<open>None\<close> an error,
  \<^term>\<open>Some y\<close> the shared state that the call finds when it has the mutex again.  When the list is
  used up, the call still waits.\<close>

fun wait_for_work :: "workeraa_sync option list \<Rightarrow> workeraa_sync \<Rightarrow> workeraa_sync outcome" where
  "wait_for_work wakes y = (if work_count y \<noteq> 0 then Done y else case wakes of
     [] \<Rightarrow> Blocked
   | None # _ \<Rightarrow> Done y
   | Some y' # wakes \<Rightarrow> wait_for_work wakes y')"

text \<open>The result has the worker's \<open>p_work\<close>, which is \<open>p\<close> when nothing is taken.\<close>

definition workeraa_get_work ::
  "bool \<Rightarrow> workeraa_sync option list \<Rightarrow> workeraa_sync \<Rightarrow> nat option \<Rightarrow>
     (bool \<times> nat option \<times> workeraa_sync) outcome option" where
  "workeraa_get_work lock wakes y p = (if lock
     then case wait_for_work wakes y of
       Blocked \<Rightarrow> Some Blocked
     | Done y \<Rightarrow> if work_count y > 0 \<and> workeraa_work_check_read_index y
         then if work_read_index y < length (work y)
           then (let p = work y ! work_read_index y;
                     y = snd (workeraa_work_set_next_read_index y)
             in Some (Done (True, p, y\<lparr>work_count := work_count y - 1\<rparr>)))
           else None
         else Some (Done (False, p, y))
     else Some (Done (False, p, y)))"

section \<open>Starting the pool\<close>

definition WORKERAA_POOL_WORK_COUNT_DEFAULT :: nat where "WORKERAA_POOL_WORK_COUNT_DEFAULT = 1024"

text \<open>\<open>workers\<close> is the number of structs in the array of workers, \<^const>\<open>None\<close> for \<open>NULL\<close>.\<close>

record workeraa_pool =
  workers :: "nat option"
  worker_count :: nat
  sync :: "workeraa_sync option"
  work_size_max :: nat

text \<open>\<open>a1\<close> and \<open>a2\<close> say whether the two calls of \<open>malloc\<close> succeed, \<open>mutex\<close> and \<open>cond\<close> whether
  \<open>pthread_mutex_init\<close> and \<open>pthread_cond_init\<close> do.\<close>

definition workeraa_sync_init ::
  "bool \<Rightarrow> bool \<Rightarrow> bool \<Rightarrow> bool \<Rightarrow> workeraa_pool \<Rightarrow> bool \<times> workeraa_pool" where
  "workeraa_sync_init a1 a2 mutex cond pool = (if a1
     then (let pool = (if work_size_max pool = 0
               then pool\<lparr>work_size_max := WORKERAA_POOL_WORK_COUNT_DEFAULT\<rparr> else pool)
       in if a2 \<and> mutex \<and> cond
          then (True, pool\<lparr>sync := Some \<lparr>work = replicate (work_size_max pool) None, work_count = 0,
             work_read_index = 0, work_write_index = 0, work_size = work_size_max pool\<rparr>\<rparr>)
          else (False, pool\<lparr>sync := None\<rparr>))
     else (False, pool\<lparr>sync := None\<rparr>))"

text \<open>The loop that starts the threads; \<open>create i\<close> says whether \<open>pthread_create\<close> starts worker \<open>i\<close>.
  The result is the \<open>i\<close> at which it ends.\<close>

function start_workers :: "(nat \<Rightarrow> bool) \<Rightarrow> nat \<Rightarrow> nat \<Rightarrow> nat" where
  "start_workers create n i = (if i < n \<and> create i then start_workers create n (i + 1) else i)"
  by pat_completeness auto
termination
  by (relation "measure (\<lambda>(create, n, i). n - i)") auto

declare start_workers.simps [simp del]

text \<open>\<open>a0\<close> says whether \<open>malloc\<close> gives the array of workers; its result goes to \<open>memset\<close> unchecked.
  No branch sets the result.\<close>

definition workeraa_pool_init ::
  "bool \<Rightarrow> bool \<Rightarrow> bool \<Rightarrow> bool \<Rightarrow> bool \<Rightarrow> (nat \<Rightarrow> bool) \<Rightarrow> workeraa_pool \<Rightarrow> (bool \<times> workeraa_pool) option" where
  "workeraa_pool_init a0 a1 a2 mutex cond create pool = (let n = worker_count pool in
     if n > 0
     then if a0
       then (let (b, pool) = workeraa_sync_init a1 a2 mutex cond pool;
                 i = (if b then start_workers create n 0 else 0)
         in Some (False, pool\<lparr>workers := Some n, worker_count := i\<rparr>))
       else None
     else Some (False, pool\<lparr>workers := None, worker_count := 0\<rparr>))"

end
