(* ===== verification/Work_Queue_Proofs.thy ===== *)
theory Work_Queue_Proofs
  imports Work_Queue
begin

text \<open>
  What the work queue promises and where it stops doing so.  The locale \<open>work_channel\<close> is the
  contract the server and the workers rely on: with room, a put appends, and a take removes the
  oldest work.  The queue keeps it until the write index reaches the last slot; the theorems after
  that show what the code does from there on.
\<close>

named_theorems queue_defs \<open>the definitions of the queue operations\<close>

section \<open>The interface\<close>

text \<open>A sequence of operations: \<^term>\<open>Some x\<close> puts \<open>x\<close>, \<^const>\<open>None\<close> takes.  The result is the list of what the
  takes have given.\<close>

fun channel_run :: "('a \<Rightarrow> 's \<Rightarrow> 's option) \<Rightarrow> ('s \<Rightarrow> ('a \<times> 's) option) \<Rightarrow> 'a option list \<Rightarrow> 's \<Rightarrow>
    ('a list \<times> 's) option" where
  "channel_run put get [] s = Some ([], s)"
| "channel_run put get (Some x # ops) s = do { s \<leftarrow> put x s; channel_run put get ops s }"
| "channel_run put get (None # ops) s = do {
     (x, s) \<leftarrow> get s;
     (xs, s) \<leftarrow> channel_run put get ops s;
     Some (x # xs, s) }"

definition inputs :: "'a option list \<Rightarrow> 'a list" where
  "inputs ops = List.map_filter id ops"

lemma inputs_simps [simp]:
  "inputs [] = []" "inputs (Some x # ops) = x # inputs ops" "inputs (None # ops) = inputs ops"
  by (simp_all add: inputs_def List.map_filter_def)

text \<open>No take comes before its put: with \<open>n\<close> works in the channel at the start, every take finds one.\<close>

fun feasible :: "'a option list \<Rightarrow> nat \<Rightarrow> bool" where
  "feasible [] n \<longleftrightarrow> True"
| "feasible (Some x # ops) n \<longleftrightarrow> feasible ops (n + 1)"
| "feasible (None # ops) n \<longleftrightarrow> 0 < n \<and> feasible ops (n - 1)"

locale work_channel =
  fixes put :: "'a \<Rightarrow> 's \<Rightarrow> 's option"
    and get :: "'s \<Rightarrow> ('a \<times> 's) option"
    and ok :: "'s \<Rightarrow> bool"
    and contents :: "'s \<Rightarrow> 'a list"
    and room :: "'s \<Rightarrow> nat"
  assumes put_law: "ok s \<Longrightarrow> 0 < room s \<Longrightarrow>
      returns (put x s) (\<lambda>s'. ok s' \<and> contents s' = contents s @ [x] \<and> room s' = room s - 1)"
    and get_law: "ok s \<Longrightarrow> contents s = x # xs \<Longrightarrow>
      returns (get s) (\<lambda>(y, s'). y = x \<and> ok s' \<and> contents s' = xs \<and> room s' = room s)"
begin

lemma run_fifo:
  "ok s \<Longrightarrow> length (inputs ops) \<le> room s \<Longrightarrow> feasible ops (length (contents s)) \<Longrightarrow>
   returns (channel_run put get ops s) (\<lambda>(outs, s'). ok s' \<and> outs @ contents s' = contents s @ inputs ops
     \<and> room s' = room s - length (inputs ops))"
proof (induction ops arbitrary: s)
  case (Cons op ops)
  show ?case
  proof (cases op)
    case (Some x)
    with Cons.prems put_law [of s x] obtain s1 where 1: "put x s = Some s1" "ok s1"
        "contents s1 = contents s @ [x]" "room s1 = room s - 1"
      by (auto elim!: returnsE)
    with Cons.IH [of s1] Cons.prems Some show ?thesis by (auto simp: returns_iff)
  next
    case None
    with Cons.prems obtain x xs where c: "contents s = x # xs" by (cases "contents s") auto
    with Cons.prems get_law [of s x xs] obtain s1 where 1: "get s = Some (x, s1)" "ok s1"
        "contents s1 = xs" "room s1 = room s"
      by (auto elim!: returnsE)
    with Cons.IH [of s1] Cons.prems None c show ?thesis by (fastforce simp: returns_iff)
  qed
qed simp

end

section \<open>The queue before the write index wraps\<close>

text \<open>The shared state after the works \<open>0, ..., w - 1\<close> have been put and the first \<open>r\<close> of them taken.\<close>

definition line :: "nat \<Rightarrow> nat \<Rightarrow> nat \<Rightarrow> workeraa_sync" where
  "line n r w = \<lparr>work = map Some [0..<w] @ replicate (n - w) None, work_count = w - r,
     work_read_index = r, work_write_index = w, work_size = n\<rparr>"

lemmas index_defs [queue_defs] = workeraa_work_set_next_read_index_def workeraa_work_set_next_write_index_def
  workeraa_work_check_read_index_def workeraa_work_check_write_index_def

lemmas step_defs = workeraa_set_work_def workeraa_get_work_def socketaa_set_work_def

declare wait_for_work.simps [simp del]

lemma wait_ready [simp]: "work_count y \<noteq> 0 \<Longrightarrow> wait_for_work wakes y = Done y"
  by (subst wait_for_work.simps) simp

lemma line_slot:
  assumes "w < n"
  shows "work (line n r w) ! w = None" and "(work (line n r w))[w := Some w] = work (line n r (w + 1))"
    and "w < length (work (line n r w))"
proof -
  have "replicate (n - w) None = (None :: nat option) # replicate (n - (w + 1)) None"
    using assms by (metis Suc_diff_Suc Suc_eq_plus1 replicate_Suc)
  then show "work (line n r w) ! w = None" "(work (line n r w))[w := Some w] = work (line n r (w + 1))"
    by (simp_all add: line_def nth_append list_update_append)
  show "w < length (work (line n r w))" using assms by (simp add: line_def)
qed

lemma set_work_line:
  assumes "w + 1 < n \<or> r = 0 \<and> w < n" and "r \<le> w" and "length ws = w"
  shows "workeraa_set_work True True x (line n r w) ws = Some (True, line n r (w + 1), ws @ [x])"
proof -
  have "w < n" using assms by auto
  note slot = line_slot [OF this, of r]
  have chk: "workeraa_work_check_write_index (line n r w)"
    using assms \<open>w < n\<close> by (auto simp: line_def queue_defs Let_def min_def)
  let ?y = "(line n r w)\<lparr>work := work (line n r (w + 1))\<rparr>"
  have "snd (workeraa_work_set_next_write_index ?y) = ?y\<lparr>work_write_index := w + 1\<rparr>"
    using assms \<open>w < n\<close> by (auto simp: line_def queue_defs Let_def min_def)
  then show ?thesis
    using chk slot assms(2,3)
    by (simp add: step_defs Let_def) (simp add: line_def)
qed

lemma get_work_line:
  assumes "r < w" and "w \<le> n"
  shows "workeraa_get_work True wakes (line n r w) p = Some (Done (True, Some r, line n (r + 1) w))"
proof -
  have "workeraa_work_check_read_index (line n r w)" "work_count (line n r w) > 0"
      "work (line n r w) ! r = Some r" "work_read_index (line n r w) < length (work (line n r w))"
    using assms by (auto simp: line_def queue_defs Let_def min_def nth_append)
  moreover have "snd (workeraa_work_set_next_read_index (line n r w)) = (line n r w)\<lparr>work_read_index := r + 1\<rparr>"
    using assms by (auto simp: line_def queue_defs Let_def min_def)
  ultimately show ?thesis
    by (simp add: step_defs Let_def) (simp add: line_def)
qed

lemma line_length [simp]: "w \<le> n \<Longrightarrow> length (work (line n r w)) = n"
  by (simp add: line_def)

text \<open>The queue as a channel: the state is the shared state with the list of work structs.\<close>

definition queue_put :: "socketaa_work \<Rightarrow> workeraa_sync \<times> socketaa_work list \<Rightarrow>
    (workeraa_sync \<times> socketaa_work list) option" where
  "queue_put x s = (case workeraa_set_work True True x (fst s) (snd s) of
     Some (True, y, ws) \<Rightarrow> Some (y, ws) | _ \<Rightarrow> None)"

definition queue_take :: "workeraa_sync \<times> socketaa_work list \<Rightarrow>
    (socketaa_work \<times> workeraa_sync \<times> socketaa_work list) option" where
  "queue_take s = (case workeraa_get_work True [] (fst s) None of
     Some (Done (True, Some a, y)) \<Rightarrow> Some (snd s ! a, y, snd s) | _ \<Rightarrow> None)"

definition in_line :: "workeraa_sync \<times> socketaa_work list \<Rightarrow> bool" where
  "in_line s \<longleftrightarrow> (\<exists>n r. fst s = line n r (length (snd s)) \<and> r \<le> length (snd s) \<and> length (snd s) \<le> n)"

definition queue_contents :: "workeraa_sync \<times> socketaa_work list \<Rightarrow> socketaa_work list" where
  "queue_contents s = drop (work_read_index (fst s)) (snd s)"

definition queue_room :: "workeraa_sync \<times> socketaa_work list \<Rightarrow> nat" where
  "queue_room s = work_size (fst s) - 1 - work_write_index (fst s)"

lemma line_sel [simp]: "work_read_index (line n r w) = r" "work_write_index (line n r w) = w"
  "work_size (line n r w) = n" "work_count (line n r w) = w - r"
  by (simp_all add: line_def)

lemma in_lineE:
  assumes "in_line s"
  obtains n r ws where "s = (line n r (length ws), ws)" and "r \<le> length ws" and "length ws \<le> n"
  using assms by (cases s) (auto simp: in_line_def)

lemma in_lineI: "r \<le> w \<Longrightarrow> w \<le> n \<Longrightarrow> w = length ws \<Longrightarrow> in_line (line n r w, ws)"
  by (auto simp: in_line_def)

interpretation queue: work_channel queue_put queue_take in_line queue_contents queue_room
proof
  fix s :: "workeraa_sync \<times> socketaa_work list" and x :: socketaa_work
  assume "in_line s" "0 < queue_room s"
  then obtain n r ws where s: "s = (line n r (length ws), ws)" "r \<le> length ws" "length ws + 1 < n"
    by (elim in_lineE) (auto simp: queue_room_def)
  then have "queue_put x s = Some (line n r (length ws + 1), ws @ [x])"
    using set_work_line [of "length ws" n r ws x] by (simp add: queue_put_def)
  with s show "returns (queue_put x s) (\<lambda>s'. in_line s' \<and> queue_contents s' = queue_contents s @ [x]
      \<and> queue_room s' = queue_room s - 1)"
    by (auto simp: queue_contents_def queue_room_def intro: in_lineI)
next
  fix s :: "workeraa_sync \<times> socketaa_work list" and x xs
  assume "in_line s" "queue_contents s = x # xs"
  then obtain n r ws where s: "s = (line n r (length ws), ws)" "length ws \<le> n" and x: "drop r ws = x # xs"
    by (elim in_lineE) (auto simp: queue_contents_def)
  from x have "r < length ws" by (cases "r < length ws") auto
  note s = s this
  then have "queue_take s = Some (x, line n (r + 1) (length ws), ws)"
    using get_work_line [of r "length ws" n "[]" None] nth_via_drop [OF x] by (simp add: queue_take_def)
  moreover have "drop (Suc r) ws = xs" using x by (metis drop_Suc list.sel(3) tl_drop)
  ultimately show "returns (queue_take s) (\<lambda>(y, s'). y = x \<and> in_line s' \<and> queue_contents s' = xs
      \<and> queue_room s' = queue_room s)"
    using s by (auto simp: queue_contents_def queue_room_def intro: in_lineI)
qed

section \<open>First in, first out\<close>

lemma less_imp_le_diff: "(k :: nat) < n \<Longrightarrow> k \<le> n - 1"
  by simp

lemma sync_init_line:
  assumes "workeraa_sync_init a1 a2 mutex cond pool = (True, pool')"
  shows "sync pool' = Some (line (work_size_max pool') 0 0)" and "0 < work_size_max pool'"
  using assms
  by (auto simp: workeraa_sync_init_def line_def Let_def WORKERAA_POOL_WORK_COUNT_DEFAULT_def split: if_splits)

text \<open>C7: the queue that \<open>workeraa_sync_init\<close> makes is first in, first out for as long as fewer works
  have been put in all than it has slots: every put succeeds, and what the takes have given,
  followed by what is still in the queue, is the sequence of works put.\<close>

theorem workeraa_queue_fifo:
  assumes "workeraa_sync_init a1 a2 mutex cond pool = (True, pool')" and "sync pool' = Some y"
    and "length (inputs ops) < work_size_max pool'" and "feasible ops 0"
  shows "returns (channel_run queue_put queue_take ops (y, []))
    (\<lambda>(outs, s'). outs @ queue_contents s' = inputs ops)"
proof -
  have y: "y = line (work_size_max pool') 0 0" using sync_init_line [OF assms(1)] assms(2) by simp
  then have "queue_contents (y, []) = []" "in_line (y, [])" "queue_room (y, []) = work_size_max pool' - 1"
    by (auto simp: queue_contents_def queue_room_def intro: in_lineI)
  then show ?thesis
    using queue.run_fifo [of "(y, [])" ops] less_imp_le_diff [OF assms(3)] assms(4)
    by (auto simp: returns_iff)
qed

definition test_work :: "int \<Rightarrow> socketaa_work" where
  "test_work c = \<lparr>w_conn = c, w_port = 8080, w_flags = 3\<rparr>"

definition test_pool :: "nat \<Rightarrow> workeraa_pool" where
  "test_pool n = \<lparr>workers = None, worker_count = 2, sync = None, work_size_max = n\<rparr>"

lemma test_pool_init: "0 < n \<Longrightarrow> workeraa_sync_init True True True True (test_pool n) =
    (True, (test_pool n)\<lparr>sync := Some (line n 0 0)\<rparr>)"
  by (simp add: workeraa_sync_init_def test_pool_def line_def)

lemma workeraa_queue_fifo_witness:
  "returns (channel_run queue_put queue_take [Some (test_work 4), Some (test_work 5), None] (line 4 0 0, []))
    (\<lambda>(outs, s'). outs @ queue_contents s' = [test_work 4, test_work 5])"
  using workeraa_queue_fifo [OF test_pool_init [of 4], of "line 4 0 0" "[Some (test_work 4), Some (test_work 5), None]"]
  by (simp add: test_pool_def)

section \<open>Filling the queue\<close>

lemma run_puts:
  "length ws + length xs \<le> n \<Longrightarrow>
   channel_run queue_put queue_take (map Some xs @ ops) (line n 0 (length ws), ws) =
   channel_run queue_put queue_take ops (line n 0 (length ws + length xs), ws @ xs)"
proof (induction xs arbitrary: ws)
  case (Cons x xs)
  have "length ws < n" using Cons.prems by simp
  then have "queue_put x (line n 0 (length ws), ws) = Some (line n 0 (length (ws @ [x])), ws @ [x])"
    using set_work_line [of "length ws" n 0 ws x] by (simp add: queue_put_def)
  moreover have "channel_run queue_put queue_take (map Some xs @ ops) (line n 0 (length (ws @ [x])), ws @ [x]) =
      channel_run queue_put queue_take ops (line n 0 (length ws + length (x # xs)), ws @ x # xs)"
    using Cons.IH [of "ws @ [x]"] Cons.prems by simp
  ultimately show ?case by simp
qed simp

lemma run_takes:
  "r + k \<le> w \<Longrightarrow> w \<le> n \<Longrightarrow> w = length ws \<Longrightarrow>
   channel_run queue_put queue_take (replicate k None @ ops) (line n r w, ws) =
   map_option (\<lambda>(xs, s). (take k (drop r ws) @ xs, s))
     (channel_run queue_put queue_take ops (line n (r + k) w, ws))"
proof (induction k arbitrary: r)
  case 0
  then show ?case by (cases "channel_run queue_put queue_take ops (line n r w, ws)") auto
next
  case (Suc k)
  then have "queue_take (line n r w, ws) = Some (ws ! r, line n (r + 1) w, ws)"
    using get_work_line [of r w n "[]" None] by (simp add: queue_take_def)
  moreover have "take (Suc k) (drop r ws) = ws ! r # take k (drop (Suc r) ws)"
    using Suc.prems by (metis Cons_nth_drop_Suc Suc_le_lessD add_Suc_right le_add1 le_less_trans take_Suc_Cons)
  moreover have "channel_run queue_put queue_take (replicate k None @ ops) (line n (r + 1) w, ws) =
      map_option (\<lambda>(xs, s). (take k (drop (Suc r) ws) @ xs, s))
        (channel_run queue_put queue_take ops (line n (r + Suc k) w, ws))"
    using Suc.IH [of "r + 1"] Suc.prems by simp
  ultimately show ?case
    by (cases "channel_run queue_put queue_take ops (line n (r + Suc k) w, ws)") (simp_all add: case_prod_unfold)
qed

text \<open>The queue serves as many works as it has slots and then stops for good: once every slot has
  been written and read, each put is refused and each take waits, although the queue is empty.\<close>

theorem workeraa_queue_wedges:
  assumes "workeraa_sync_init a1 a2 mutex cond pool = (True, pool')" and "sync pool' = Some y"
    and "length xs = work_size_max pool'"
  shows "\<exists>y'. channel_run queue_put queue_take (map Some xs @ replicate (length xs) None) (y, []) = Some (xs, y', xs)
    \<and> work_count y' = 0
    \<and> workeraa_set_work lock alloc x y' ws = Some (False, y', ws)
    \<and> workeraa_get_work True [] y' p = Some Blocked"
proof -
  let ?n = "length xs"
  have y: "y = line ?n 0 0" using sync_init_line [OF assms(1)] assms(2,3) by simp
  have "channel_run queue_put queue_take (map Some xs @ replicate ?n None) (y, []) = Some (xs, line ?n ?n ?n, xs)"
    using run_puts [of "[]" xs ?n "replicate ?n None"] run_takes [of 0 ?n ?n ?n xs "[]"] by (simp add: y)
  moreover have "workeraa_set_work lock alloc x (line ?n ?n ?n) ws = Some (False, line ?n ?n ?n, ws)"
    by (simp add: step_defs queue_defs Let_def)
  moreover have "workeraa_get_work True [] (line ?n ?n ?n) p = Some Blocked"
    by (simp add: step_defs wait_for_work.simps)
  ultimately show ?thesis by (intro exI [of _ "line ?n ?n ?n"]) simp
qed

lemma workeraa_queue_wedges_witness:
  "\<exists>y'. channel_run queue_put queue_take ([Some (test_work 4), Some (test_work 5), None, None]) (line 2 0 0, []) =
      Some ([test_work 4, test_work 5], y', [test_work 4, test_work 5])
    \<and> work_count y' = 0
    \<and> workeraa_set_work True True (test_work 6) y' [] = Some (False, y', [])
    \<and> workeraa_get_work True [] y' None = Some Blocked"
  using workeraa_queue_wedges [OF test_pool_init [of 2], of "line 2 0 0" "[test_work 4, test_work 5]" True True "test_work 6" "[]" None]
  by (simp add: test_pool_def numeral_2_eq_2)

text \<open>C38: when every slot has been written and at least one but not every work has been taken, the
  next put writes behind the end of the array.\<close>

theorem workeraa_set_work_overrun:
  assumes "workeraa_sync_init a1 a2 mutex cond pool = (True, pool')" and "sync pool' = Some y"
    and "length xs = work_size_max pool'" and "0 < k" and "k < length xs"
  shows "\<exists>y'. channel_run queue_put queue_take (map Some xs @ replicate k None) (y, []) = Some (take k xs, y', xs)
    \<and> workeraa_set_work True alloc x y' ws = None"
proof -
  let ?n = "length xs"
  have y: "y = line ?n 0 0" using sync_init_line [OF assms(1)] assms(2,3) by simp
  have "channel_run queue_put queue_take (map Some xs @ replicate k None) (y, []) = Some (take k xs, line ?n k ?n, xs)"
    using run_puts [of "[]" xs ?n "replicate k None"] run_takes [of 0 k ?n ?n xs "[]"] assms(5) by (simp add: y)
  moreover have "workeraa_set_work True alloc x (line ?n k ?n) ws = None"
    using assms(4,5) by (simp add: step_defs queue_defs Let_def)
  ultimately show ?thesis by (intro exI [of _ "line ?n k ?n"]) simp
qed

lemma workeraa_set_work_overrun_witness:
  "\<exists>y'. channel_run queue_put queue_take [Some (test_work 4), Some (test_work 5), None] (line 2 0 0, []) =
      Some ([test_work 4], y', [test_work 4, test_work 5])
    \<and> workeraa_set_work True True (test_work 6) y' [] = None"
  using workeraa_set_work_overrun [OF test_pool_init [of 2], of "line 2 0 0" "[test_work 4, test_work 5]" 1 True "test_work 6" "[]"]
  by (simp add: test_pool_def)

text \<open>Around the end of the array: \<open>n\<close> works are put and taken, then two more, in an array of \<open>n + 1\<close>.\<close>

lemma wrap_puts:
  assumes "2 \<le> n" and "length ws = n"
  shows "queue_put c (line (n + 1) n n, ws) =
      Some ((line (n + 1) n (n + 1))\<lparr>work_write_index := 1\<rparr>, ws @ [c])"
    and "queue_put d ((line (n + 1) n (n + 1))\<lparr>work_write_index := 1\<rparr>, ws @ [c]) =
      Some ((line (n + 1) n (n + 1))\<lparr>work_write_index := 2, work_count := 2\<rparr>, (ws @ [c])[1 := d])"
proof -
  have n: "1 < n" "0 < n" using assms by simp_all
  have sl: "(work (line (n + 1) n n))[n := Some n] = work (line (n + 1) n (n + 1))"
      "work (line (n + 1) n n) ! n = None"
    using line_slot [of n "n + 1" n] by simp_all
  have same: "(map Some [0..<n] @ [Some n])[Suc 0 := Some (Suc 0)] = map Some [0..<n] @ [Some n]"
    using n by (intro nth_equalityI) (auto simp: nth_append nth_list_update)
  show "queue_put c (line (n + 1) n n, ws) =
      Some ((line (n + 1) n (n + 1))\<lparr>work_write_index := 1\<rparr>, ws @ [c])"
    using n assms(2) sl by (simp add: queue_put_def step_defs queue_defs Let_def)
  show "queue_put d ((line (n + 1) n (n + 1))\<lparr>work_write_index := 1\<rparr>, ws @ [c]) =
      Some ((line (n + 1) n (n + 1))\<lparr>work_write_index := 2, work_count := 2\<rparr>, (ws @ [c])[1 := d])"
    using n assms(2) same by (auto simp: queue_put_def step_defs queue_defs Let_def line_def nth_append)
qed

lemma wrap_takes:
  assumes "2 \<le> n" and "length ws = n"
  shows "queue_take ((line (n + 1) n (n + 1))\<lparr>work_write_index := 2, work_count := 2\<rparr>, ws @ [c]) =
      Some (c, (line (n + 1) 0 (n + 1))\<lparr>work_write_index := 2, work_count := 1\<rparr>, ws @ [c])"
    and "queue_take ((line (n + 1) 0 (n + 1))\<lparr>work_write_index := 2, work_count := 1\<rparr>, ws @ [c]) =
      Some (hd ws, (line (n + 1) 1 (n + 1))\<lparr>work_write_index := 2, work_count := 0\<rparr>, ws @ [c])"
proof -
  have n: "1 < n" "0 < n" "ws \<noteq> []" using assms by auto
  show "queue_take ((line (n + 1) n (n + 1))\<lparr>work_write_index := 2, work_count := 2\<rparr>, ws @ [c]) =
      Some (c, (line (n + 1) 0 (n + 1))\<lparr>work_write_index := 2, work_count := 1\<rparr>, ws @ [c])"
    using n assms(2) by (auto simp: queue_take_def step_defs queue_defs Let_def line_def nth_append)
  show "queue_take ((line (n + 1) 0 (n + 1))\<lparr>work_write_index := 2, work_count := 1\<rparr>, ws @ [c]) =
      Some (hd ws, (line (n + 1) 1 (n + 1))\<lparr>work_write_index := 2, work_count := 0\<rparr>, ws @ [c])"
    using n assms(2)
    by (auto simp: queue_take_def step_defs queue_defs Let_def line_def nth_append hd_conv_nth)
qed

text \<open>C39: when the write index wraps, slot 0 is skipped: with one slot unused and the queue empty, two
  works are put, but the takes give the first of them and then the very first work again, which
  has been served before.\<close>

theorem workeraa_queue_stale:
  assumes "workeraa_sync_init a1 a2 mutex cond pool = (True, pool')" and "sync pool' = Some y"
    and "length xs + 1 = work_size_max pool'" and "2 \<le> length xs"
  shows "returns (channel_run queue_put queue_take
      (map Some xs @ replicate (length xs) None @ [Some c, Some d, None, None]) (y, []))
    (\<lambda>(outs, s'). outs = xs @ [c, hd xs])"
proof -
  let ?n = "length xs"
  have y: "y = line (?n + 1) 0 0" using sync_init_line [OF assms(1)] assms(2,3) by simp
  define ws where "ws = xs[1 := d]"
  have ws: "(xs @ [c])[1 := d] = ws @ [c]" "length ws = ?n" "hd ws = hd xs"
    using assms(4) by (cases xs; auto simp: ws_def list_update_append)+
  have "channel_run queue_put queue_take [Some c, Some d, None, None] (line (?n + 1) ?n ?n, xs) =
      Some ([c, hd xs], (line (?n + 1) 1 (?n + 1))\<lparr>work_write_index := 2, work_count := 0\<rparr>, ws @ [c])"
    using wrap_puts(1) [OF assms(4) refl, of c] wrap_puts(2) [OF assms(4) refl, where c = c and d = d]
      wrap_takes(1) [OF assms(4) ws(2), of c] wrap_takes(2) [OF assms(4) ws(2), of c] ws by simp
  then show ?thesis
    using run_puts [of "[]" xs "?n + 1" "replicate ?n None @ [Some c, Some d, None, None]"]
      run_takes [of 0 ?n ?n "?n + 1" xs "[Some c, Some d, None, None]"]
    by (simp add: y)
qed

lemma workeraa_queue_stale_witness:
  "returns (channel_run queue_put queue_take
      ([Some (test_work 4), Some (test_work 5), None, None, Some (test_work 6), Some (test_work 7), None, None])
      (line 3 0 0, []))
    (\<lambda>(outs, s'). outs = [test_work 4, test_work 5, test_work 6, test_work 4])"
  using workeraa_queue_stale [OF test_pool_init [of 3], of "line 3 0 0" "[test_work 4, test_work 5]" "test_work 6" "test_work 7"]
  by (simp add: test_pool_def numeral_2_eq_2)

end
