(* ===== verification/Work_Queue_Steps.thy ===== *)
theory Work_Queue_Steps
  imports Work_Queue_Proofs
begin

text \<open>
  The server and any number of workers on one queue, as a step relation: each operation runs under
  the mutex, so an execution is a sequence of whole operations, and a call that waits has no step
  until there is work, or its wait fails.  The invariant \<open>queue_ok\<close> holds in every state that is
  reached, also after the write index has wrapped, and shows which accesses stay inside the array.
\<close>

section \<open>Steps\<close>

inductive queue_step :: "workeraa_sync \<times> socketaa_work list \<Rightarrow> workeraa_sync \<times> socketaa_work list \<Rightarrow> bool" where
  put: "workeraa_set_work lock alloc x y ws = Some (b, y', ws') \<Longrightarrow> queue_step (y, ws) (y', ws')"
| get: "workeraa_get_work lock [] y p = Some (Done (b, p', y')) \<Longrightarrow> queue_step (y, ws) (y', ws)"
| wait_fails: "workeraa_get_work lock [None] y p = Some (Done (b, p', y')) \<Longrightarrow> queue_step (y, ws) (y', ws)"
| flags: "socketaa_set_work_flags p fl ws = Some (b, ws') \<Longrightarrow> queue_step (y, ws) (y, ws')"

inductive_cases queue_stepE: "queue_step (y, ws) s"

section \<open>The invariant\<close>

definition slots_ok :: "workeraa_sync \<Rightarrow> socketaa_work list \<Rightarrow> bool" where
  "slots_ok y ws \<longleftrightarrow> (\<forall>a. Some a \<in> set (work y) \<longrightarrow> a < length ws)"

definition indices_ok :: "workeraa_sync \<Rightarrow> bool" where
  "indices_ok y \<longleftrightarrow> length (work y) = work_size y \<and> 0 < work_size y
     \<and> work_read_index y \<le> work_size y \<and> work_write_index y \<le> work_size y
     \<and> (work_write_index y = 0 \<longrightarrow> work_read_index y = 0 \<and> work_count y = 0)
     \<and> (work_read_index y = work_size y \<longrightarrow> work_write_index y = work_size y)"

fun queue_ok :: "workeraa_sync \<times> socketaa_work list \<Rightarrow> bool" where
  "queue_ok (y, ws) \<longleftrightarrow> indices_ok y \<and> slots_ok y ws"

lemma next_write_ok:
  assumes "indices_ok y" and "workeraa_work_check_write_index y" and "work_write_index y < work_size y"
  shows "indices_ok ((snd (workeraa_work_set_next_write_index y))\<lparr>work_count := k\<rparr>)"
  using assms by (auto simp: indices_ok_def queue_defs Let_def min_def split: if_splits)

lemma next_read_ok:
  assumes "indices_ok y" and "0 < work_count y"
  shows "indices_ok ((snd (workeraa_work_set_next_read_index y))\<lparr>work_count := k\<rparr>)"
  using assms by (auto simp: indices_ok_def queue_defs Let_def min_def split: if_splits)

lemma next_work [simp]:
  "work (snd (workeraa_work_set_next_read_index y)) = work y"
  "work (snd (workeraa_work_set_next_write_index y)) = work y"
  by (auto simp: queue_defs Let_def)

lemma check_write_work [simp]: "workeraa_work_check_write_index (y\<lparr>work := v\<rparr>) = workeraa_work_check_write_index y"
  by (simp add: queue_defs)

lemma set_work_ok:
  assumes "queue_ok (y, ws)" and "workeraa_set_work lock alloc x y ws = Some (b, y', ws')"
  shows "queue_ok (y', ws')"
proof (cases "lock \<and> workeraa_work_check_write_index y \<and> work_write_index y < length (work y)")
  case True
  let ?w = "work_write_index y"
  define y1 where "y1 = (\<lambda>p. y\<lparr>work := (work y)[?w := p]\<rparr>)"
  define y2 where "y2 = (\<lambda>p. (snd (workeraa_work_set_next_write_index (y1 p)))
      \<lparr>work_count := work_count (snd (workeraa_work_set_next_write_index (y1 p))) + 1\<rparr>)"
  have "workeraa_set_work lock alloc x y ws = do {
      (b, p, ws) \<leftarrow> socketaa_set_work alloc (work y ! ?w) x ws;
      Some (if b then (True, y2 p, ws) else (False, y1 p, ws)) }"
    using True by (simp add: workeraa_set_work_def Let_def y1_def y2_def cong: if_cong)
  with assms(2) obtain p where 1: "socketaa_set_work alloc (work y ! ?w) x ws = Some (b, p, ws')"
      "y' = (if b then y2 p else y1 p)"
    by (auto simp: bind_eq_Some_conv split: if_splits)
  have ix: "indices_ok (y1 p)" "work_size (y1 p) = work_size y" "work_write_index (y1 p) = ?w"
      "workeraa_work_check_write_index (y1 p)"
    using assms(1) True by (simp_all add: indices_ok_def y1_def)
  have "slots_ok y ws'" "\<And>a. p = Some a \<Longrightarrow> a < length ws'"
    using 1(1) assms(1) by (fastforce simp: socketaa_set_work_def slots_ok_def split: option.splits if_splits)+
  then have sl: "slots_ok (y1 p) ws'"
    using set_update_subset_insert [of "work y" ?w p] by (auto simp: slots_ok_def y1_def)
  then have "slots_ok (y2 p) ws'" by (simp add: slots_ok_def y2_def)
  moreover have "?w < work_size y" using True assms(1) by (simp add: indices_ok_def)
  then have "indices_ok (y2 p)"
    unfolding y2_def by (intro next_write_ok ix) (simp add: ix)
  ultimately show ?thesis using 1(2) ix(1) sl by simp
next
  case False
  with assms show ?thesis by (auto simp: workeraa_set_work_def split: if_splits)
qed

lemma wait_for_work_wakes [simp]:
  "wait_for_work [] y = (if work_count y \<noteq> 0 then Done y else Blocked)"
  "wait_for_work [None] y = Done y"
  by (subst wait_for_work.simps; simp)+

lemma get_work_ok:
  assumes "queue_ok (y, ws)" and "wakes = [] \<or> wakes = [None]"
    and "workeraa_get_work lock wakes y p = Some (Done (b, p', y'))"
  shows "queue_ok (y', ws)"
  using assms next_read_ok [of y]
  by (auto simp: workeraa_get_work_def slots_ok_def Let_def split: if_splits)

lemma flags_ok:
  assumes "queue_ok (y, ws)" and "socketaa_set_work_flags p fl ws = Some (b, ws')"
  shows "queue_ok (y, ws')"
  using assms by (auto simp: socketaa_set_work_flags_def slots_ok_def split: option.splits if_splits)

lemma queue_step_ok: "queue_step s s' \<Longrightarrow> queue_ok s \<Longrightarrow> queue_ok s'"
  by (induction rule: queue_step.induct) (blast intro: set_work_ok get_work_ok flags_ok)+

lemma queue_steps_ok: "queue_step\<^sup>*\<^sup>* s s' \<Longrightarrow> queue_ok s \<Longrightarrow> queue_ok s'"
  by (induction rule: rtranclp_induct) (blast intro: queue_step_ok)+

lemma line_ok: "0 < n \<Longrightarrow> queue_ok (line n 0 0, [])"
  by (auto simp: indices_ok_def slots_ok_def) (simp_all add: line_def)

text \<open>C15: in every state that the server and the workers reach, taking a work has no access outside the
  array, and a put is refused, succeeds, or, when the write index stands behind the last slot and
  the read index does not, writes outside the array; there is no other failure.\<close>

theorem work_queue_accesses:
  assumes "workeraa_sync_init a1 a2 mutex cond pool = (True, pool')" and "sync pool' = Some y0"
    and "queue_step\<^sup>*\<^sup>* (y0, []) (y, ws)"
  shows "workeraa_get_work lock [] y p \<noteq> None
    \<and> (workeraa_set_work lock alloc x y ws = None \<longleftrightarrow>
        lock \<and> work_write_index y = work_size y \<and> 0 < work_read_index y \<and> work_read_index y < work_size y)"
proof -
  have ok: "indices_ok y" "slots_ok y ws"
    using queue_steps_ok [OF assms(3)] line_ok sync_init_line [OF assms(1)] assms(2) by auto
  have "work_read_index y < length (work y)" if "work_count y > 0" "workeraa_work_check_read_index y"
    using that ok(1) by (auto simp: indices_ok_def queue_defs Let_def split: if_splits)
  then have "workeraa_get_work lock [] y p \<noteq> None"
    by (auto simp: workeraa_get_work_def Let_def)
  moreover have "socketaa_set_work alloc (work y ! i) x ws \<noteq> None" if "i < length (work y)" for i
    using ok(2) nth_mem [OF that] by (auto simp: slots_ok_def socketaa_set_work_def split: option.split)
  then have "workeraa_set_work lock alloc x y ws = None \<longleftrightarrow>
      lock \<and> workeraa_work_check_write_index y \<and> \<not> work_write_index y < length (work y)"
    by (auto simp: workeraa_set_work_def Let_def bind_eq_None_conv split: if_splits prod.splits)
  moreover have "\<dots> \<longleftrightarrow> lock \<and> work_write_index y = work_size y \<and> 0 < work_read_index y \<and> work_read_index y < work_size y"
    using ok(1) by (auto simp: indices_ok_def queue_defs Let_def min_def split: if_splits)
  ultimately show ?thesis by blast
qed

lemma work_queue_accesses_witness:
  "workeraa_get_work True [] (line 2 0 1) None \<noteq> None
    \<and> (workeraa_set_work True True (test_work 5) (line 2 0 1) [test_work 4] = None \<longleftrightarrow>
        True \<and> work_write_index (line 2 0 1) = work_size (line 2 0 1)
        \<and> 0 < work_read_index (line 2 0 1) \<and> work_read_index (line 2 0 1) < work_size (line 2 0 1))"
proof -
  have "queue_step\<^sup>*\<^sup>* (line 2 0 0, []) (line 2 0 1, [test_work 4])"
    using set_work_line [of 0 2 0 "[]" "test_work 4"] by (auto intro!: r_into_rtranclp queue_step.put)
  then show ?thesis
    using work_queue_accesses [OF test_pool_init [of 2], of "line 2 0 0" "line 2 0 1" "[test_work 4]" True None True "test_work 5"]
    by (simp only: test_pool_def)  simp
qed

text \<open>C28: in every state that is reached the indices stay within the array, and every slot that is
  not \<open>NULL\<close> points to a work struct that exists.\<close>

theorem work_queue_invariant:
  assumes "workeraa_sync_init a1 a2 mutex cond pool = (True, pool')" and "sync pool' = Some y0"
    and "queue_step\<^sup>*\<^sup>* (y0, []) (y, ws)"
  shows "length (work y) = work_size y \<and> work_read_index y \<le> work_size y \<and> work_write_index y \<le> work_size y
    \<and> (\<forall>a. Some a \<in> set (work y) \<longrightarrow> a < length ws)"
  using queue_steps_ok [OF assms(3)] line_ok sync_init_line [OF assms(1)] assms(2)
  by (auto simp: indices_ok_def slots_ok_def)

lemma work_queue_invariant_witness:
  "length (work (line 2 0 1)) = work_size (line 2 0 1) \<and> work_read_index (line 2 0 1) \<le> work_size (line 2 0 1)
    \<and> work_write_index (line 2 0 1) \<le> work_size (line 2 0 1)
    \<and> slots_ok (line 2 0 1) [test_work 4]"
proof -
  have "queue_step\<^sup>*\<^sup>* (line 2 0 0, []) (line 2 0 1, [test_work 4])"
    using set_work_line [of 0 2 0 "[]" "test_work 4"] by (auto intro!: r_into_rtranclp queue_step.put)
  then show ?thesis
    using work_queue_invariant [OF test_pool_init [of 2], of "line 2 0 0" "line 2 0 1" "[test_work 4]"]
    by (simp add: test_pool_def slots_ok_def)
qed

section \<open>Starting the pool\<close>

lemma start_workers_le: "i \<le> n \<Longrightarrow> start_workers create n i \<le> n"
  by (induction create n i rule: start_workers.induct) (subst start_workers.simps, auto)

text \<open>\<open>workeraa_pool_init\<close> reports failure whatever happens, and when every call succeeds the pool is
  started: all workers run, on an empty queue with as many slots as were asked for.\<close>

theorem workeraa_pool_init_started:
  assumes "0 < worker_count pool" and "0 < work_size_max pool" and "\<forall>i < worker_count pool. create i"
  shows "returns (workeraa_pool_init True True True True True create pool) (\<lambda>(b, pool'). \<not> b
    \<and> worker_count pool' = worker_count pool \<and> workers pool' = Some (worker_count pool)
    \<and> sync pool' = Some (line (work_size_max pool) 0 0))"
proof -
  have "start_workers create (worker_count pool) i = worker_count pool" if "i \<le> worker_count pool" for i
    using that
  proof (induction "worker_count pool - i" arbitrary: i)
    case (Suc k)
    then show ?case using assms(3) by (subst start_workers.simps) auto
  qed (subst start_workers.simps, auto)
  from this [of 0] show ?thesis
    using assms(1,2) by (simp add: workeraa_pool_init_def workeraa_sync_init_def line_def Let_def)
qed

lemma workeraa_pool_init_started_witness:
  "returns (workeraa_pool_init True True True True True (\<lambda>_. True) (test_pool 1024)) (\<lambda>(b, pool'). \<not> b
    \<and> worker_count pool' = 2 \<and> workers pool' = Some 2 \<and> sync pool' = Some (line 1024 0 0))"
  using workeraa_pool_init_started [of "test_pool 1024" "\<lambda>_. True"] by (simp add: test_pool_def)

end
