(* ===== verification/Http_Values.thy ===== *)
theory Http_Values
  imports Http_Lexer Http_Tables Uri_Parser
begin

text \<open>
  The parsers of header values in the first half of that part of \<open>src/http/httpaa.h\<close>: fields, cache
  directives, dates and times, and the general headers.  Every function takes the memory and the
  request and gives its result code with the request; the struct \<open>httpaa\<close> that some of them get is
  never used.  \<open>http11_request\<close> does not call them: it keeps each value as a view.

  The nested conditionals of the source are a \<open>chain\<close> of steps that stops at the first that fails,
  \<open>if (f(request)) {}\<close> is \<open>attempt\<close>, and a \<open>while (1)\<close> without \<open>break\<close> is \<^const>\<open>forever\<close>.
\<close>

section \<open>Steps\<close>

fun chain :: "(stringaa \<Rightarrow> (bool \<times> stringaa) option) list \<Rightarrow> stringaa \<Rightarrow> (bool \<times> stringaa) option" where
  "chain [] s = Some (True, s)"
| "chain (f # fs) s = do { (b, s) \<leftarrow> f s; if b then chain fs s else Some (False, s) }"

definition attempt :: "(stringaa \<Rightarrow> (bool \<times> stringaa) option) \<Rightarrow> stringaa \<Rightarrow> stringaa option" where
  "attempt f s = do { (_, s) \<leftarrow> f s; Some s }"

text \<open>\<open>if (is_x) {} else { request->read_pos = pos; }\<close>\<close>

definition rewind :: "(stringaa \<Rightarrow> (bool \<times> stringaa) option) \<Rightarrow> stringaa \<Rightarrow> (bool \<times> stringaa) option" where
  "rewind f s = do { (b, s') \<leftarrow> f s; Some (b, if b then s' else s'\<lparr>read_pos := read_pos s\<rparr>) }"

definition sign :: "char \<Rightarrow> mem \<Rightarrow> stringaa \<Rightarrow> (bool \<times> stringaa) option" where
  "sign d m s = stringaa_is_char m s d"

text \<open>\<open>c = stringaa_get_char(request); if (HTTP11_SP) { stringaa_next_read_pos(request);\<close>, the same for
  \<open>HTTP11_DIGIT\<close>, the loop over \<open>n\<close> digits and the loop over a word.\<close>

definition space :: "mem \<Rightarrow> stringaa \<Rightarrow> (bool \<times> stringaa) option" where
  "space m s = do { c \<leftarrow> stringaa_get_char m s; Some (if c = SP then (True, skip s) else (False, s)) }"

definition digit :: "mem \<Rightarrow> stringaa \<Rightarrow> (bool \<times> stringaa) option" where
  "digit m s = do { c \<leftarrow> stringaa_get_char m s; Some (if HTTP11_DIGIT c then (True, skip s) else (False, s)) }"

definition digits :: "nat \<Rightarrow> mem \<Rightarrow> stringaa \<Rightarrow> (bool \<times> stringaa) option" where
  "digits n m s = do {
     c \<leftarrow> stringaa_get_char m s;
     (b, _, s) \<leftarrow> scan_times HTTP11_DIGIT n m s c;
     Some (b, s) }"

definition word :: "(char \<Rightarrow> char) \<Rightarrow> string \<Rightarrow> mem \<Rightarrow> stringaa \<Rightarrow> (bool \<times> stringaa) option" where
  "word f w m s = do {
     c \<leftarrow> stringaa_get_char m s;
     (b, _, s) \<leftarrow> match_word f m s c w;
     Some (b, s) }"

definition table_index ::
  "(char \<Rightarrow> char) \<Rightarrow> string list \<Rightarrow> mem \<Rightarrow> stringaa \<Rightarrow> (nat option \<times> stringaa) option" where
  "table_index f ws m s = do { c \<leftarrow> stringaa_get_char m s; match_table f m s c 0 ws }"

text \<open>One round of the loops over a list: an element, white space, a comma, white space, each if it is
  there.\<close>

definition list_round ::
  "(mem \<Rightarrow> stringaa \<Rightarrow> (bool \<times> stringaa) option) \<Rightarrow> mem \<Rightarrow> stringaa \<Rightarrow> stringaa option" where
  "list_round item m s = do {
     s \<leftarrow> attempt (item m) s;
     s \<leftarrow> attempt (http11_lws m) s;
     s \<leftarrow> attempt (sign (CHR '','') m) s;
     attempt (http11_lws m) s }"

definition token_or_quoted :: "mem \<Rightarrow> stringaa \<Rightarrow> (bool \<times> stringaa) option" where
  "token_or_quoted m s = do {
     (b, s) \<leftarrow> http11_token m s;
     if b then Some (True, s) else http11_quoted_string m s }"

section \<open>Fields\<close>

definition http11_field_name :: "mem \<Rightarrow> stringaa \<Rightarrow> (bool \<times> stringaa) option" where
  "http11_field_name m = rewind (http11_token m)"

definition http11_field_content :: "mem \<Rightarrow> stringaa \<Rightarrow> (bool \<times> stringaa) option" where
  "http11_field_content m s = forever (\<lambda>s. do {
     (b, s) \<leftarrow> http11_text m s;
     (b, s) \<leftarrow> (if b then Some (True, s) else http11_token m s);
     (b, s) \<leftarrow> (if b then Some (True, s) else http11_quoted_string m s);
     if b then Some s else do { c \<leftarrow> stringaa_get_char m s; Some s } }) s"

definition http11_field_value :: "mem \<Rightarrow> stringaa \<Rightarrow> (bool \<times> stringaa) option" where
  "http11_field_value m = rewind (\<lambda>s. loop_while (\<lambda>(is_field_value, s). do {
     (b, s) \<leftarrow> http11_lws m s;
     (b, s) \<leftarrow> (if b then Some (True, s) else http11_field_content m s);
     Some (b, (is_field_value \<or> b, s)) }) (False, s))"

text \<open>The position that is set back to at the end is the byte that the request has there, read without
  a test and widened from \<open>char\<close> to \<open>size_t\<close>.\<close>

definition http11_message_header :: "mem \<Rightarrow> stringaa \<Rightarrow> (bool \<times> stringaa) option" where
  "http11_message_header m s = do {
     c \<leftarrow> load m (buf s) (read_pos s);
     let pos = nat (schar c mod 2 ^ 64);
     s \<leftarrow> attempt (chain [http11_field_name m, sign (CHR '':'') m, http11_field_value m]) s;
     Some (False, s\<lparr>read_pos := pos\<rparr>) }"

section \<open>Numbers and dates\<close>

text \<open>No branch sets the result.\<close>

definition http11_delta_seconds :: "mem \<Rightarrow> stringaa \<Rightarrow> (bool \<times> stringaa) option" where
  "http11_delta_seconds m s = do {
     c \<leftarrow> stringaa_get_char m s;
     (_, s) \<leftarrow> scan_while HTTP11_DIGIT m s c;
     Some (False, s) }"

text \<open>The names of days and months are compared without case; the position is not set back.\<close>

definition name_in :: "string list \<Rightarrow> mem \<Rightarrow> stringaa \<Rightarrow> (bool \<times> stringaa) option" where
  "name_in ws m s = do {
     (r, s) \<leftarrow> table_index c_tolower (map (map c_tolower) ws) m s;
     Some (r \<noteq> None, s) }"

definition http11_wkday :: "mem \<Rightarrow> stringaa \<Rightarrow> (bool \<times> stringaa) option" where
  "http11_wkday = name_in http11_date_wkday_array"

definition http11_weekday :: "mem \<Rightarrow> stringaa \<Rightarrow> (bool \<times> stringaa) option" where
  "http11_weekday = name_in http11_date_weekday_array"

definition http11_month :: "mem \<Rightarrow> stringaa \<Rightarrow> (bool \<times> stringaa) option" where
  "http11_month = name_in http11_date_month_array"

definition http11_date1 :: "mem \<Rightarrow> stringaa \<Rightarrow> (bool \<times> stringaa) option" where
  "http11_date1 m = rewind (chain [digits 2 m, space m, http11_month m, space m, digits 4 m])"

definition http11_date2 :: "mem \<Rightarrow> stringaa \<Rightarrow> (bool \<times> stringaa) option" where
  "http11_date2 m = rewind (chain [digits 2 m, sign (CHR ''-'') m, http11_month m, sign (CHR ''-'') m, digits 2 m])"

text \<open>After the month and a space: only when there are not two digits, the branch that can succeed is
  entered, from the position of the digits.\<close>

definition http11_date3 :: "mem \<Rightarrow> stringaa \<Rightarrow> (bool \<times> stringaa) option" where
  "http11_date3 m = rewind (chain [http11_month m, space m, \<lambda>s. do {
     (b, s') \<leftarrow> digits 2 m s;
     if b then Some (False, s')
     else chain [space m, digit m] (s'\<lparr>read_pos := read_pos s\<rparr>) }])"

definition http11_time :: "mem \<Rightarrow> stringaa \<Rightarrow> (bool \<times> stringaa) option" where
  "http11_time m = rewind (chain [digits 2 m, sign (CHR '':'') m, digits 2 m, sign (CHR '':'') m, digits 2 m])"

definition http11_rfc1123_date :: "mem \<Rightarrow> stringaa \<Rightarrow> (bool \<times> stringaa) option" where
  "http11_rfc1123_date m = rewind (chain [http11_wkday m, sign (CHR '','') m, space m, http11_date1 m, space m,
     http11_time m, space m, word c_toupper ''GMT'' m])"

definition http11_rfc850_date :: "mem \<Rightarrow> stringaa \<Rightarrow> (bool \<times> stringaa) option" where
  "http11_rfc850_date m = rewind (chain [http11_weekday m, sign (CHR '','') m, space m, http11_date2 m, space m,
     http11_time m, space m, word c_toupper ''GMT'' m])"

definition http11_asctime_date :: "mem \<Rightarrow> stringaa \<Rightarrow> (bool \<times> stringaa) option" where
  "http11_asctime_date m = rewind (chain [http11_wkday m, space m, http11_date3 m, space m, http11_time m,
     space m, digits 4 m])"

definition http11_date :: "mem \<Rightarrow> stringaa \<Rightarrow> (bool \<times> stringaa) option" where
  "http11_date m s = do {
     (b, s) \<leftarrow> http11_rfc1123_date m s;
     if b then Some (True, s) else do {
       (b, s) \<leftarrow> http11_rfc850_date m s;
       if b then Some (True, s) else http11_asctime_date m s } }"

definition http11_header_date :: "mem \<Rightarrow> stringaa \<Rightarrow> (bool \<times> stringaa) option" where
  "http11_header_date = http11_date"

section \<open>Cache control\<close>

definition http11_header_cache_request_directive :: "mem \<Rightarrow> stringaa \<Rightarrow> (bool \<times> stringaa) option" where
  "http11_header_cache_request_directive m s = do {
     (r, s') \<leftarrow> table_index c_tolower http11_header_cache_request_directive_array m s;
     case r of None \<Rightarrow> Some (False, s'\<lparr>read_pos := read_pos s\<rparr>)
     | Some i \<Rightarrow> do {
         s' \<leftarrow> (case http11_header_cache_request_directives ! i of
             http11_header_cache_request_directive_max_age \<Rightarrow> attempt (chain [sign (CHR ''='') m, http11_delta_seconds m]) s'
           | http11_header_cache_request_directive_max_stale \<Rightarrow> attempt (chain [sign (CHR ''='') m, http11_delta_seconds m]) s'
           | http11_header_cache_request_directive_min_fresh \<Rightarrow> attempt (chain [sign (CHR ''='') m, http11_delta_seconds m]) s'
           | _ \<Rightarrow> Some s');
         Some (True, s') } }"

text \<open>The value of \<open>private\<close> and \<open>no-cache\<close>: the loop over the field names has no end.\<close>

definition directive_fields :: "mem \<Rightarrow> stringaa \<Rightarrow> stringaa option" where
  "directive_fields m s = attempt (chain [sign (CHR ''='') m, sign (CHR 0x22) m,
     forever (list_round http11_field_name m)]) s"

definition http11_header_cache_response_directive :: "mem \<Rightarrow> stringaa \<Rightarrow> (bool \<times> stringaa) option" where
  "http11_header_cache_response_directive m s = do {
     (r, s') \<leftarrow> table_index c_tolower http11_header_cache_response_directive_array m s;
     case r of None \<Rightarrow> Some (False, s'\<lparr>read_pos := read_pos s\<rparr>)
     | Some i \<Rightarrow> do {
         s' \<leftarrow> (case http11_header_cache_response_directives ! i of
             http11_header_cache_response_directive_private \<Rightarrow> directive_fields m s'
           | http11_header_cache_response_directive_no_cache \<Rightarrow> directive_fields m s'
           | http11_header_cache_response_directive_max_age \<Rightarrow> attempt (chain [sign (CHR ''='') m, http11_delta_seconds m]) s'
           | http11_header_cache_response_directive_s_maxage \<Rightarrow> attempt (chain [sign (CHR ''='') m, http11_delta_seconds m]) s'
           | _ \<Rightarrow> Some s');
         Some (True, s') } }"

definition http11_header_cache_directive :: "mem \<Rightarrow> stringaa \<Rightarrow> (bool \<times> stringaa) option" where
  "http11_header_cache_directive m s = do {
     (b, s) \<leftarrow> http11_header_cache_request_directive m s;
     if b then Some (True, s) else http11_header_cache_response_directive m s }"

definition http11_header_cache_control :: "mem \<Rightarrow> stringaa \<Rightarrow> (bool \<times> stringaa) option" where
  "http11_header_cache_control m = forever (list_round http11_header_cache_directive m)"

section \<open>The other general headers\<close>

definition http11_header_connection :: "mem \<Rightarrow> stringaa \<Rightarrow> (bool \<times> stringaa) option" where
  "http11_header_connection m = forever (list_round http11_token m)"

definition http11_header_extension_pragma :: "mem \<Rightarrow> stringaa \<Rightarrow> (bool \<times> stringaa) option" where
  "http11_header_extension_pragma m s = do {
     s \<leftarrow> attempt (chain [http11_token m, sign (CHR ''='') m, \<lambda>s. do {
       s \<leftarrow> attempt (http11_token m) s;
       http11_quoted_string m s }]) s;
     Some (False, s) }"

definition http11_header_pragma_directive :: "mem \<Rightarrow> stringaa \<Rightarrow> (bool \<times> stringaa) option" where
  "http11_header_pragma_directive m s = do {
     (r, s') \<leftarrow> table_index c_tolower http11_header_pragma_directive_array m s;
     if r \<noteq> None then Some (True, s')
     else do {
       (b, s') \<leftarrow> http11_header_extension_pragma m s';
       Some (False, if b then s' else s'\<lparr>read_pos := read_pos s\<rparr>) } }"

definition http11_header_pragma :: "mem \<Rightarrow> stringaa \<Rightarrow> (bool \<times> stringaa) option" where
  "http11_header_pragma m = forever (list_round http11_header_pragma_directive m)"

definition http11_header_trailer :: "mem \<Rightarrow> stringaa \<Rightarrow> (bool \<times> stringaa) option" where
  "http11_header_trailer m = forever (list_round http11_field_name m)"

definition http11_parameter :: "mem \<Rightarrow> stringaa \<Rightarrow> (bool \<times> stringaa) option" where
  "http11_parameter m s = do {
     s \<leftarrow> attempt (chain [http11_token m, sign (CHR ''='') m, token_or_quoted m]) s;
     Some (False, s) }"

definition http11_header_transfer_extension :: "mem \<Rightarrow> stringaa \<Rightarrow> (bool \<times> stringaa) option" where
  "http11_header_transfer_extension m s = do {
     s \<leftarrow> attempt (chain [http11_token m, sign (CHR '';'') m, http11_parameter m]) s;
     Some (False, s) }"

definition http11_header_transfer_coding :: "mem \<Rightarrow> stringaa \<Rightarrow> (bool \<times> stringaa) option" where
  "http11_header_transfer_coding m s = do {
     (r, s') \<leftarrow> table_index c_tolower http11_header_transfer_coding_array m s;
     if r \<noteq> None then Some (True, s')
     else do {
       (b, s') \<leftarrow> http11_header_transfer_extension m s';
       Some (False, if b then s' else s'\<lparr>read_pos := read_pos s\<rparr>) } }"

definition http11_header_transfer_encoding :: "mem \<Rightarrow> stringaa \<Rightarrow> (bool \<times> stringaa) option" where
  "http11_header_transfer_encoding m = forever (list_round http11_header_transfer_coding m)"

definition http11_product :: "mem \<Rightarrow> stringaa \<Rightarrow> (bool \<times> stringaa) option" where
  "http11_product m = rewind (\<lambda>s. do {
     (b, s) \<leftarrow> http11_token m s;
     if b then do {
       s \<leftarrow> attempt (chain [sign (CHR ''/'') m, http11_token m]) s;
       Some (True, s) }
     else Some (False, s) })"

definition http11_header_upgrade :: "mem \<Rightarrow> stringaa \<Rightarrow> (bool \<times> stringaa) option" where
  "http11_header_upgrade m = forever (list_round http11_product m)"

text \<open>\<open>http11_host\<close> and \<open>http11_port\<close> run the URI parser on a struct of their own that is zero, so that
  the request plays no part.\<close>

definition http11_host :: "mem \<Rightarrow> stringaa \<Rightarrow> (bool \<times> stringaa) option" where
  "http11_host m s = do { (b, u) \<leftarrow> host m uriaa_zero; Some (False, s) }"

definition http11_port :: "mem \<Rightarrow> stringaa \<Rightarrow> (bool \<times> stringaa) option" where
  "http11_port m s = do { (b, u) \<leftarrow> port m uriaa_zero; Some (False, s) }"

definition host_port_or_token :: "mem \<Rightarrow> stringaa \<Rightarrow> stringaa option" where
  "host_port_or_token m s = do {
     (b, s) \<leftarrow> http11_host m s;
     if b then attempt (chain [sign (CHR '':'') m, http11_port m]) s
     else attempt (http11_token m) s }"

definition http11_received_protocol :: "mem \<Rightarrow> stringaa \<Rightarrow> (bool \<times> stringaa) option" where
  "http11_received_protocol m s = do {
     s \<leftarrow> attempt (chain [http11_token m, sign (CHR ''/'') m]) s;
     s \<leftarrow> attempt (http11_token m) s;
     Some (False, s) }"

definition http11_received_by :: "mem \<Rightarrow> stringaa \<Rightarrow> (bool \<times> stringaa) option" where
  "http11_received_by m s = do { s \<leftarrow> host_port_or_token m s; Some (False, s) }"

definition http11_header_via :: "mem \<Rightarrow> stringaa \<Rightarrow> (bool \<times> stringaa) option" where
  "http11_header_via m = forever (\<lambda>s. do {
     s \<leftarrow> attempt (http11_received_protocol m) s;
     s \<leftarrow> attempt (http11_received_by m) s;
     attempt (http11_comment m) s })"

definition http11_warning_code :: "mem \<Rightarrow> stringaa \<Rightarrow> (bool \<times> stringaa) option" where
  "http11_warning_code m = rewind (chain [digit m, digit m, digit m])"

definition http11_warning_agent :: "mem \<Rightarrow> stringaa \<Rightarrow> (bool \<times> stringaa) option" where
  "http11_warning_agent m s = do { s \<leftarrow> host_port_or_token m s; Some (False, s) }"

definition http11_warning_value :: "mem \<Rightarrow> stringaa \<Rightarrow> (bool \<times> stringaa) option" where
  "http11_warning_value m s = do {
     s \<leftarrow> attempt (chain [http11_warning_code m, space m, http11_warning_agent m, space m,
       http11_quoted_string m, space m, sign (CHR 0x22) m, http11_date m, sign (CHR 0x22) m]) s;
     Some (False, s) }"

definition http11_header_warning :: "mem \<Rightarrow> stringaa \<Rightarrow> (bool \<times> stringaa) option" where
  "http11_header_warning m = forever (list_round http11_warning_value m)"

end
