(* ===== verification/Http_Header_Values.thy ===== *)
theory Http_Header_Values
  imports Http_Values
begin

text \<open>
  The parsers of the values of request, response and entity headers, the second half of that part of
  \<open>src/http/httpaa.h\<close>.  The functions that are a bare \<open>return 0\<close> are translated as such.
\<close>

section \<open>Request headers\<close>

text \<open>The loop over the parameters that follow a media range or a media type.\<close>

definition parameters_forever :: "mem \<Rightarrow> stringaa \<Rightarrow> (bool \<times> stringaa) option" where
  "parameters_forever m = forever (attempt (chain [sign (CHR '';'') m, http11_parameter m]))"

definition http11_media_range :: "mem \<Rightarrow> stringaa \<Rightarrow> (bool \<times> stringaa) option" where
  "http11_media_range m = rewind (\<lambda>s. do {
     (b, s) \<leftarrow> chain [sign (CHR ''*'') m, sign (CHR ''/'') m, sign (CHR ''*'') m] s;
     (b, s) \<leftarrow> (if b then Some (True, s) else chain [http11_token m, sign (CHR ''/'') m, sign (CHR ''*'') m] s);
     (b, s) \<leftarrow> (if b then Some (True, s) else chain [http11_token m, sign (CHR ''/'') m, http11_token m] s);
     if b then parameters_forever m s else Some (False, s) })"

definition http11_accept_extension :: "mem \<Rightarrow> stringaa \<Rightarrow> (bool \<times> stringaa) option" where
  "http11_accept_extension m s = do {
     s \<leftarrow> attempt (chain [sign (CHR '';'') m, http11_token m, sign (CHR ''='') m, token_or_quoted m]) s;
     Some (False, s) }"

text \<open>The digits after the point: any after \<open>0\<close>, zeros after \<open>1\<close>.\<close>

definition up_to_three :: "(char \<Rightarrow> bool) \<Rightarrow> mem \<Rightarrow> stringaa \<Rightarrow> (bool \<times> stringaa) option" where
  "up_to_three P m s = do {
     c \<leftarrow> stringaa_get_char m s;
     (_, _, s) \<leftarrow> scan_times P 3 m s c;
     Some (True, s) }"

definition http11_qvalue :: "mem \<Rightarrow> stringaa \<Rightarrow> (bool \<times> stringaa) option" where
  "http11_qvalue m = rewind (\<lambda>s. do {
     (b, s) \<leftarrow> sign (CHR ''0'') m s;
     if b then do {
       s \<leftarrow> attempt (chain [sign (CHR ''.'') m, up_to_three HTTP11_DIGIT m]) s;
       Some (True, s) }
     else do {
       (b, s) \<leftarrow> sign (CHR ''1'') m s;
       if b then do {
         s \<leftarrow> attempt (chain [sign (CHR ''.'') m, up_to_three (\<lambda>c. c = CHR ''0'') m]) s;
         Some (True, s) }
       else Some (False, s) } })"

definition sign_i :: "char \<Rightarrow> mem \<Rightarrow> stringaa \<Rightarrow> (bool \<times> stringaa) option" where
  "sign_i d m s = stringaa_is_chari m s d"

definition http11_accept_params :: "mem \<Rightarrow> stringaa \<Rightarrow> (bool \<times> stringaa) option" where
  "http11_accept_params m s = do {
     s \<leftarrow> attempt (chain [sign (CHR '';'') m, sign_i (CHR ''q'') m, sign (CHR ''='') m, http11_qvalue m,
       forever (attempt (http11_accept_extension m))]) s;
     Some (False, s) }"

definition http11_header_accept :: "mem \<Rightarrow> stringaa \<Rightarrow> (bool \<times> stringaa) option" where
  "http11_header_accept m = forever (attempt (chain [http11_media_range m, http11_accept_params m]))"

definition http11_charset :: "stringaa \<Rightarrow> (bool \<times> stringaa) option" where "http11_charset s = Some (False, s)"
definition http11_content_coding :: "stringaa \<Rightarrow> (bool \<times> stringaa) option" where "http11_content_coding s = Some (False, s)"
definition http11_credentials :: "stringaa \<Rightarrow> (bool \<times> stringaa) option" where "http11_credentials s = Some (False, s)"
definition http11_mailbox :: "stringaa \<Rightarrow> (bool \<times> stringaa) option" where "http11_mailbox s = Some (False, s)"
definition http11_challenge :: "stringaa \<Rightarrow> (bool \<times> stringaa) option" where "http11_challenge s = Some (False, s)"
definition http11_header_content_md5 :: "stringaa \<Rightarrow> (bool \<times> stringaa) option" where "http11_header_content_md5 s = Some (False, s)"

text \<open>\<open>;q=\<close> with its value.\<close>

definition weight :: "mem \<Rightarrow> stringaa \<Rightarrow> (bool \<times> stringaa) option" where
  "weight m = chain [sign (CHR '';'') m, sign_i (CHR ''q'') m, sign (CHR ''='') m, http11_qvalue m]"

definition http11_header_accept_charset :: "mem \<Rightarrow> stringaa \<Rightarrow> (bool \<times> stringaa) option" where
  "http11_header_accept_charset m = forever (\<lambda>s. do {
     (b, s) \<leftarrow> http11_charset s;
     s \<leftarrow> (if b then Some s else attempt (sign (CHR ''*'') m) s);
     attempt (weight m) s })"

definition http11_codings :: "mem \<Rightarrow> stringaa \<Rightarrow> (bool \<times> stringaa) option" where
  "http11_codings m s = do {
     (b, s) \<leftarrow> http11_content_coding s;
     s \<leftarrow> (if b then Some s else attempt (sign (CHR ''*'') m) s);
     Some (False, s) }"

definition http11_header_accept_encoding :: "mem \<Rightarrow> stringaa \<Rightarrow> (bool \<times> stringaa) option" where
  "http11_header_accept_encoding m = forever (attempt (chain [http11_codings m, weight m]))"

text \<open>The second loop over digits begins with the character that the first one has ended with.\<close>

definition http11_language_range :: "mem \<Rightarrow> stringaa \<Rightarrow> (bool \<times> stringaa) option" where
  "http11_language_range m = rewind (\<lambda>s. do {
     (b, s) \<leftarrow> sign (CHR ''*'') m s;
     if b then Some (False, s) else do {
       c \<leftarrow> stringaa_get_char m s;
       (_, c, s) \<leftarrow> scan_times HTTP11_DIGIT 8 m s c;
       (b, s) \<leftarrow> sign (CHR ''-'') m s;
       s \<leftarrow> (if b then do { (_, _, s) \<leftarrow> scan_times HTTP11_DIGIT 8 m s c; Some s } else Some s);
       Some (False, s) } })"

definition http11_header_accept_language :: "mem \<Rightarrow> stringaa \<Rightarrow> (bool \<times> stringaa) option" where
  "http11_header_accept_language m = forever (attempt (chain [http11_language_range m, weight m]))"

definition http11_header_authorization :: "stringaa \<Rightarrow> (bool \<times> stringaa) option" where
  "http11_header_authorization s = do { (_, s) \<leftarrow> http11_credentials s; Some (False, s) }"

definition http11_expect_params :: "mem \<Rightarrow> stringaa \<Rightarrow> (bool \<times> stringaa) option" where
  "http11_expect_params m s = do {
     s \<leftarrow> attempt (chain [sign (CHR '';'') m, http11_token m, sign (CHR ''='') m, token_or_quoted m]) s;
     Some (False, s) }"

definition http11_expectation_extension :: "mem \<Rightarrow> stringaa \<Rightarrow> (bool \<times> stringaa) option" where
  "http11_expectation_extension m s = do {
     s \<leftarrow> attempt (chain [http11_token m, sign (CHR ''='') m, \<lambda>s. do {
       s \<leftarrow> attempt (token_or_quoted m) s;
       s \<leftarrow> loop_while (http11_expect_params m) s;
       Some (True, s) }]) s;
     Some (False, s) }"

definition http11_expectation :: "mem \<Rightarrow> stringaa \<Rightarrow> (bool \<times> stringaa) option" where
  "http11_expectation m s = do {
     (b, s') \<leftarrow> word c_tolower ''100-continue'' m s;
     if b then Some (True, s')
     else do {
       (b, s') \<leftarrow> http11_expectation_extension m s';
       Some (False, if b then s' else s'\<lparr>read_pos := read_pos s\<rparr>) } }"

definition http11_header_expect :: "mem \<Rightarrow> stringaa \<Rightarrow> (bool \<times> stringaa) option" where
  "http11_header_expect m = forever (list_round http11_expectation m)"

definition http11_header_from :: "stringaa \<Rightarrow> (bool \<times> stringaa) option" where
  "http11_header_from s = do { (_, s) \<leftarrow> http11_mailbox s; Some (False, s) }"

definition http11_header_host :: "mem \<Rightarrow> stringaa \<Rightarrow> (bool \<times> stringaa) option" where
  "http11_header_host m s = do {
     (b, s) \<leftarrow> http11_host m s;
     if b then do { s \<leftarrow> attempt (chain [sign (CHR '':'') m, http11_port m]) s; Some (True, s) }
     else Some (False, s) }"

definition http11_entity_tag :: "mem \<Rightarrow> stringaa \<Rightarrow> (bool \<times> stringaa) option" where
  "http11_entity_tag m s = do {
     s \<leftarrow> attempt (chain [sign_i (CHR ''w'') m, sign (CHR ''/'') m]) s;
     s \<leftarrow> attempt (http11_quoted_string m) s;
     Some (False, s) }"

definition http11_header_if_match :: "mem \<Rightarrow> stringaa \<Rightarrow> (bool \<times> stringaa) option" where
  "http11_header_if_match m s = do {
     (b, s) \<leftarrow> sign (CHR ''*'') m s;
     if b then Some (False, s) else forever (attempt (http11_entity_tag m)) s }"

definition http11_header_if_modified_since :: "mem \<Rightarrow> stringaa \<Rightarrow> (bool \<times> stringaa) option" where
  "http11_header_if_modified_since = http11_date"

definition http11_header_if_none_match :: "mem \<Rightarrow> stringaa \<Rightarrow> (bool \<times> stringaa) option" where
  "http11_header_if_none_match m s = do {
     (b, s) \<leftarrow> sign (CHR ''*'') m s;
     if b then Some (False, s) else forever (attempt (http11_entity_tag m)) s }"

definition http11_header_if_range :: "mem \<Rightarrow> stringaa \<Rightarrow> (bool \<times> stringaa) option" where
  "http11_header_if_range m s = do {
     (b, s) \<leftarrow> http11_entity_tag m s;
     s \<leftarrow> (if b then Some s else attempt (http11_date m) s);
     Some (False, s) }"

definition http11_header_if_unmodified_since :: "mem \<Rightarrow> stringaa \<Rightarrow> (bool \<times> stringaa) option" where
  "http11_header_if_unmodified_since m s = do { s \<leftarrow> attempt (http11_date m) s; Some (False, s) }"

definition http11_header_max_forwards :: "mem \<Rightarrow> stringaa \<Rightarrow> (bool \<times> stringaa) option" where
  "http11_header_max_forwards m s = do { s \<leftarrow> attempt (digit m) s; Some (False, s) }"

definition http11_header_proxy_authorization :: "stringaa \<Rightarrow> (bool \<times> stringaa) option" where
  "http11_header_proxy_authorization s = do { (_, s) \<leftarrow> http11_credentials s; Some (False, s) }"

definition http11_bytes_unit :: "mem \<Rightarrow> stringaa \<Rightarrow> (bool \<times> stringaa) option" where
  "http11_bytes_unit = word c_tolower ''bytes''"

definition http11_byte_range_spec :: "mem \<Rightarrow> stringaa \<Rightarrow> (bool \<times> stringaa) option" where
  "http11_byte_range_spec m = chain [digit m, sign (CHR ''-'') m, digit m]"

definition http11_suffix_byte_range_spec :: "mem \<Rightarrow> stringaa \<Rightarrow> (bool \<times> stringaa) option" where
  "http11_suffix_byte_range_spec m = chain [sign (CHR ''-'') m, digit m]"

definition http11_byte_range_set :: "mem \<Rightarrow> stringaa \<Rightarrow> (bool \<times> stringaa) option" where
  "http11_byte_range_set m s = do {
     s \<leftarrow> loop_while (\<lambda>s. do {
       (b, s) \<leftarrow> http11_byte_range_spec m s;
       if b then Some (True, s) else http11_suffix_byte_range_spec m s }) s;
     Some (False, s) }"

definition http11_header_range :: "mem \<Rightarrow> stringaa \<Rightarrow> (bool \<times> stringaa) option" where
  "http11_header_range m = chain [http11_bytes_unit m, sign (CHR ''='') m, http11_byte_range_set m]"

text \<open>\<open>http11_header_referer\<close>, \<open>http11_header_location\<close> and \<open>http11_header_content_location\<close> run the URI
  parser on a struct of their own that is zero.\<close>

definition absolute_or_relative :: "mem \<Rightarrow> unit option" where
  "absolute_or_relative m = do {
     (b, u) \<leftarrow> absoluteURI m uriaa_zero;
     if b then Some () else do { (b, u) \<leftarrow> relativeURI m u; Some () } }"

definition http11_header_referer :: "mem \<Rightarrow> stringaa \<Rightarrow> (bool \<times> stringaa) option" where
  "http11_header_referer m s = do { _ \<leftarrow> absolute_or_relative m; Some (False, s) }"

definition http11_t_codings :: "mem \<Rightarrow> stringaa \<Rightarrow> (bool \<times> stringaa) option" where
  "http11_t_codings m = rewind (\<lambda>s. do {
     (b, s) \<leftarrow> word c_tolower ''trailers'' m s;
     if b then Some (True, s) else do {
       (b, s) \<leftarrow> http11_header_transfer_extension m s;
       if b then do { s \<leftarrow> attempt (http11_accept_params m) s; Some (True, s) }
       else Some (False, s) } })"

definition http11_header_te :: "mem \<Rightarrow> stringaa \<Rightarrow> (bool \<times> stringaa) option" where
  "http11_header_te m s = do { s \<leftarrow> loop_while (http11_t_codings m) s; Some (False, s) }"

text \<open>The body of the loops of \<open>http11_header_user_agent\<close> and \<open>http11_header_server\<close>.\<close>

definition product_or_comment :: "mem \<Rightarrow> stringaa \<Rightarrow> stringaa option" where
  "product_or_comment m s = do {
     (b, s) \<leftarrow> http11_product m s;
     if b then Some s else attempt (http11_comment m) s }"

definition http11_header_user_agent :: "mem \<Rightarrow> stringaa \<Rightarrow> (bool \<times> stringaa) option" where
  "http11_header_user_agent m = forever (product_or_comment m)"

section \<open>Response headers\<close>

definition http11_range_unit :: "mem \<Rightarrow> stringaa \<Rightarrow> (bool \<times> stringaa) option" where
  "http11_range_unit m = rewind (\<lambda>s. do {
     (b, s) \<leftarrow> http11_bytes_unit m s;
     if b then Some (True, s) else http11_token m s })"

definition http11_header_accept_ranges :: "mem \<Rightarrow> stringaa \<Rightarrow> (bool \<times> stringaa) option" where
  "http11_header_accept_ranges m s = do {
     s \<leftarrow> loop_while (http11_range_unit m) s;
     word c_tolower ''none'' m s }"

definition http11_header_age :: "mem \<Rightarrow> stringaa \<Rightarrow> (bool \<times> stringaa) option" where
  "http11_header_age = http11_delta_seconds"

definition http11_header_etag :: "mem \<Rightarrow> stringaa \<Rightarrow> (bool \<times> stringaa) option" where
  "http11_header_etag m s = do { s \<leftarrow> attempt (http11_entity_tag m) s; Some (False, s) }"

definition http11_header_location :: "mem \<Rightarrow> stringaa \<Rightarrow> (bool \<times> stringaa) option" where
  "http11_header_location m s = do { (b, u) \<leftarrow> absoluteURI m uriaa_zero; Some (b, s) }"

definition http11_header_proxy_authenticate :: "stringaa \<Rightarrow> (bool \<times> stringaa) option" where
  "http11_header_proxy_authenticate = forever (attempt http11_challenge)"

definition http11_header_retry_after :: "mem \<Rightarrow> stringaa \<Rightarrow> (bool \<times> stringaa) option" where
  "http11_header_retry_after m s = do {
     (b, s) \<leftarrow> http11_date m s;
     s \<leftarrow> (if b then Some s else attempt (http11_delta_seconds m) s);
     Some (False, s) }"

definition http11_header_server :: "mem \<Rightarrow> stringaa \<Rightarrow> (bool \<times> stringaa) option" where
  "http11_header_server m = forever (product_or_comment m)"

definition http11_header_vary :: "mem \<Rightarrow> stringaa \<Rightarrow> (bool \<times> stringaa) option" where
  "http11_header_vary m s = do {
     (b, s) \<leftarrow> sign (CHR ''*'') m s;
     s \<leftarrow> (if b then Some s else loop_while (http11_field_name m) s);
     Some (False, s) }"

definition http11_header_www_authenticate :: "stringaa \<Rightarrow> (bool \<times> stringaa) option" where
  "http11_header_www_authenticate s = do { s \<leftarrow> attempt http11_challenge s; Some (False, s) }"

section \<open>Entity headers\<close>

text \<open>The names of the methods are upper case, and are compared with the character in lower case.\<close>

definition http11_header_allow :: "mem \<Rightarrow> stringaa \<Rightarrow> (bool \<times> stringaa) option" where
  "http11_header_allow m = rewind (\<lambda>s. loop_while (\<lambda>(is_allow, s). do {
     (r, s) \<leftarrow> table_index c_tolower http11_method_array m s;
     if r \<noteq> None then do {
       s \<leftarrow> attempt (http11_lws m) s;
       s \<leftarrow> attempt (sign (CHR '','') m) s;
       s \<leftarrow> attempt (http11_lws m) s;
       Some (True, (True, s)) }
     else Some (False, (is_allow, s)) }) (False, s))"

definition http11_header_content_encoding :: "stringaa \<Rightarrow> (bool \<times> stringaa) option" where
  "http11_header_content_encoding = forever (attempt http11_content_coding)"

definition http11_language_tag :: "mem \<Rightarrow> stringaa \<Rightarrow> (bool \<times> stringaa) option" where
  "http11_language_tag m = rewind (\<lambda>s. do {
     let pos = read_pos s;
     c \<leftarrow> stringaa_get_char m s;
     (_, c, s) \<leftarrow> scan_times HTTP11_DIGIT 8 m s c;
     if read_pos s \<noteq> pos then do {
       (b, s) \<leftarrow> sign (CHR ''-'') m s;
       s \<leftarrow> (if b then do { (_, _, s) \<leftarrow> scan_times HTTP11_DIGIT 8 m s c; Some s } else Some s);
       Some (True, s) }
     else Some (False, s) })"

definition http11_header_content_language :: "mem \<Rightarrow> stringaa \<Rightarrow> (bool \<times> stringaa) option" where
  "http11_header_content_language m = forever (attempt (http11_language_tag m))"

text \<open>A run of digits; the result says whether there was one.\<close>

definition digit_run :: "mem \<Rightarrow> stringaa \<Rightarrow> (bool \<times> stringaa) option" where
  "digit_run m s = do {
     let pos = read_pos s;
     c \<leftarrow> stringaa_get_char m s;
     (_, s) \<leftarrow> scan_while HTTP11_DIGIT m s c;
     Some (read_pos s \<noteq> pos, s) }"

definition http11_header_content_length :: "mem \<Rightarrow> stringaa \<Rightarrow> (bool \<times> stringaa) option" where
  "http11_header_content_length = digit_run"

definition http11_header_content_location :: "mem \<Rightarrow> stringaa \<Rightarrow> (bool \<times> stringaa) option" where
  "http11_header_content_location m s = do { _ \<leftarrow> absolute_or_relative m; Some (False, s) }"

text \<open>The test for the space after the unit is on the character read before the unit.\<close>

definition http11_header_content_range :: "mem \<Rightarrow> stringaa \<Rightarrow> (bool \<times> stringaa) option" where
  "http11_header_content_range m = rewind (\<lambda>s. do {
     c \<leftarrow> stringaa_get_char m s;
     (b, s) \<leftarrow> http11_bytes_unit m s;
     if b \<and> c = SP then do {
       let s = skip s;
       (b, s) \<leftarrow> sign (CHR ''*'') m s;
       (b, s) \<leftarrow> (if b then Some (True, s) else chain [digit_run m, sign (CHR ''-'') m, digit_run m] s);
       s \<leftarrow> (if b then attempt (chain [sign (CHR ''/'') m, \<lambda>s. do {
           (b, s) \<leftarrow> sign (CHR ''*'') m s;
           if b then Some (True, s) else digit_run m s }]) s
         else Some s);
       Some (b, s) }
     else Some (False, s) })"

definition http11_media_type :: "mem \<Rightarrow> stringaa \<Rightarrow> (bool \<times> stringaa) option" where
  "http11_media_type m s = do {
     s \<leftarrow> attempt (chain [http11_token m, sign (CHR ''/'') m, http11_token m, parameters_forever m]) s;
     Some (False, s) }"

definition http11_header_content_type :: "mem \<Rightarrow> stringaa \<Rightarrow> (bool \<times> stringaa) option" where
  "http11_header_content_type m s = do { s \<leftarrow> attempt (http11_media_type m) s; Some (False, s) }"

definition http11_header_expires :: "mem \<Rightarrow> stringaa \<Rightarrow> (bool \<times> stringaa) option" where
  "http11_header_expires = http11_date"

definition http11_header_last_modified :: "mem \<Rightarrow> stringaa \<Rightarrow> (bool \<times> stringaa) option" where
  "http11_header_last_modified = http11_date"

end
