(* ===== verification/Http_Values_Proofs.thy ===== *)
theory Http_Values_Proofs
  imports Http_Header_Values
begin

text \<open>
  What the parsers of header values accept.  \<open>eats\<close> says that a step consumes a given text, whatever
  stands before and after it, and composes along a \<open>chain\<close>; \<open>moves\<close> says that a step ends, stays
  within the data and goes back when it fails.
\<close>

section \<open>The steps under a cursor\<close>

lemma sign_eq:
  assumes "cursor m s" and "d \<noteq> NUL"
  shows "sign d m s = Some (if peek (chars m s) (read_pos s) = d
    then (True, s\<lparr>read_pos := Suc (read_pos s)\<rparr>) else (False, s))"
proof -
  have "read_pos s < write_pos s" if "peek (chars m s) (read_pos s) = d"
    using that assms by (auto simp: peek_def cursor_def split: if_splits)
  with assms(1) show ?thesis
    by (auto simp: sign_def stringaa_is_char_def cursor_def skip_eq [unfolded skip_def])
qed

lemma space_eq:
  assumes "cursor m s"
  shows "space m s = Some (if peek (chars m s) (read_pos s) = SP
    then (True, s\<lparr>read_pos := Suc (read_pos s)\<rparr>) else (False, s))"
  using sign_eq [OF assms, of SP] assms
  by (auto simp: space_def sign_def stringaa_is_char_def cursor_def skip_def)

lemma digit_eq:
  assumes "cursor m s"
  shows "digit m s = Some (if HTTP11_DIGIT (peek (chars m s) (read_pos s))
    then (True, s\<lparr>read_pos := Suc (read_pos s)\<rparr>) else (False, s))"
proof -
  have "read_pos s < write_pos s" if "HTTP11_DIGIT (peek (chars m s) (read_pos s))"
    using that digit_NUL assms by (auto simp: peek_def cursor_def split: if_splits)
  with assms show ?thesis by (auto simp: digit_def cursor_def skip_eq)
qed

lemma digits_eq:
  assumes "cursor m s"
  shows "digits n m s = Some (read_pos s + n \<le> run_end HTTP11_DIGIT (chars m s) (read_pos s),
    s\<lparr>read_pos := min (read_pos s + n) (run_end HTTP11_DIGIT (chars m s) (read_pos s))\<rparr>)"
proof -
  have "readable m s" using assms by (simp add: cursor_def)
  with scan_times_eq [where P = HTTP11_DIGIT, OF assms digit_NUL, of n] show ?thesis by (simp add: digits_def)
qed

lemma word_eq:
  assumes "cursor m s" and "f NUL \<notin> set w"
  shows "word f w m s = (let n = common w (map f (drop (read_pos s) (chars m s)))
    in Some (n = length w, s\<lparr>read_pos := read_pos s + n\<rparr>))"
proof -
  have "readable m s" using assms by (simp add: cursor_def)
  with match_word_eq [where f = f and w = w, OF assms refl] show ?thesis by (simp add: word_def Let_def)
qed

text \<open>The search in a table, over the text at the position: the index of the first entry found and the
  number of characters that the entries have taken, which the entries before it may share.\<close>

fun find_name :: "nat \<Rightarrow> string list \<Rightarrow> string \<Rightarrow> nat option \<times> nat" where
  "find_name i [] xs = (None, 0)"
| "find_name i (w # ws) xs = (let n = common w xs in if n = length w then (Some i, n)
     else case find_name (Suc i) ws (drop n xs) of (r, k) \<Rightarrow> (r, n + k))"

lemma cursor_common:
  "cursor m s \<Longrightarrow> cursor m (s\<lparr>read_pos := read_pos s + common w (map f (drop (read_pos s) (chars m s)))\<rparr>)"
  using common_le(2) [of w "map f (drop (read_pos s) (chars m s))"] by (auto simp: cursor_def le_diff_conv2 add.commute)

lemma match_find_name:
  assumes "cursor m s" and "\<forall>w \<in> set ws. f NUL \<notin> set w" and "c = peek (chars m s) (read_pos s)"
  shows "match_table f m s c i ws = (case find_name i ws (map f (drop (read_pos s) (chars m s))) of
    (r, k) \<Rightarrow> Some (r, s\<lparr>read_pos := read_pos s + k\<rparr>))"
  using assms
proof (induction ws arbitrary: i s c)
  case (Cons w ws)
  let ?n = "common w (map f (drop (read_pos s) (chars m s)))"
  let ?s = "s\<lparr>read_pos := read_pos s + ?n\<rparr>"
  have d: "drop ?n (map f (drop (read_pos s) (chars m s))) = map f (drop (read_pos s + ?n) (chars m s))"
    by (simp add: drop_map add.commute)
  show ?case
    using Cons.IH [OF cursor_common [where w = w and f = f, OF Cons.prems(1)], of "peek (chars m s) (read_pos s + ?n)" "Suc i"]
      Cons.prems(2,3) match_word_eq [OF Cons.prems(1), of f w c] d
    by (simp add: Let_def add.assoc split: prod.split)
qed simp

lemma table_index_eq:
  assumes "cursor m s" and "\<forall>w \<in> set ws. f NUL \<notin> set w"
  shows "table_index f ws m s = (case find_name 0 ws (map f (drop (read_pos s) (chars m s))) of
    (r, k) \<Rightarrow> Some (r, s\<lparr>read_pos := read_pos s + k\<rparr>))"
proof -
  have "readable m s" using assms by (simp add: cursor_def)
  with match_find_name [where f = f and ws = ws, OF assms refl] show ?thesis by (simp add: table_index_def)
qed

lemma find_name_skip: "x \<noteq> y \<Longrightarrow> find_name i ((x # w) # ws) (y # ys) = find_name (Suc i) ws (y # ys)"
  by (simp split: prod.split)

lemma find_name_miss: "x2 \<noteq> y \<Longrightarrow> find_name i ((x # x2 # w) # ws) (x # y # ys) =
    (case find_name (Suc i) ws (y # ys) of (r, k) \<Rightarrow> (r, Suc k))"
  by (simp split: prod.split)

lemma find_name_hit: "find_name i ((x # w) # ws) (x # w @ ys) = (Some i, length (x # w))"
  using common_append [of "x # w" ys] by (simp add: Let_def)

lemma find_name_le: "snd (find_name i ws xs) \<le> length xs"
proof (induction ws arbitrary: i xs)
  case (Cons w ws)
  from Cons.IH [of "Suc i" "drop (common w xs) xs"] common_le(2) [of w xs]
  show ?case by (auto simp: Let_def split: prod.split)
qed simp

section \<open>Steps that consume a text\<close>

definition eats :: "mem \<Rightarrow> (stringaa \<Rightarrow> (bool \<times> stringaa) option) \<Rightarrow> string \<Rightarrow> bool" where
  "eats m f w \<longleftrightarrow> (\<forall>s r. cursor m s \<longrightarrow> drop (read_pos s) (chars m s) = w @ r \<longrightarrow>
     f s = Some (True, s\<lparr>read_pos := read_pos s + length w\<rparr>))"

lemma eatsD: "eats m f w \<Longrightarrow> cursor m s \<Longrightarrow> drop (read_pos s) (chars m s) = w @ r \<Longrightarrow>
    f s = Some (True, s\<lparr>read_pos := read_pos s + length w\<rparr>)"
  by (auto simp: eats_def)

lemma eats_nil: "eats m (chain []) []"
  by (simp add: eats_def)

lemma cursor_after: "cursor m s \<Longrightarrow> drop (read_pos s) (chars m s) = w @ r \<Longrightarrow>
    cursor m (s\<lparr>read_pos := read_pos s + length w\<rparr>)"
proof -
  assume "cursor m s" "drop (read_pos s) (chars m s) = w @ r"
  moreover from this(2) have "length (chars m s) - read_pos s = length w + length r"
    by (metis length_append length_drop)
  moreover have "length (chars m s) = write_pos s" "read_pos s \<le> write_pos s"
    using \<open>cursor m s\<close> by (simp_all add: cursor_def)
  ultimately have "read_pos s + length w \<le> write_pos s" by linarith
  with \<open>cursor m s\<close> show ?thesis by (simp add: cursor_def)
qed

lemma eats_chain:
  assumes "eats m f w" and "eats m (chain fs) ws"
  shows "eats m (chain (f # fs)) (w @ ws)"
proof (unfold eats_def, intro allI impI)
  fix s r
  assume c: "cursor m s" and d: "drop (read_pos s) (chars m s) = (w @ ws) @ r"
  let ?s = "s\<lparr>read_pos := read_pos s + length w\<rparr>"
  have "drop (read_pos ?s) (chars m ?s) = ws @ r"
    using d by (simp add: drop_drop [symmetric] add.commute)
  from eatsD [OF assms(2) cursor_after [OF c, of w "ws @ r"] this] d eatsD [OF assms(1) c, of "ws @ r"]
  show "chain (f # fs) s = Some (True, s\<lparr>read_pos := read_pos s + length (w @ ws)\<rparr>)"
    by (simp add: add.assoc)
qed

lemma eats_rewind: "eats m f w \<Longrightarrow> eats m (rewind f) w"
  by (auto simp: eats_def rewind_def)

lemma peek_drop: "drop p cs = c # r \<Longrightarrow> peek cs p = c \<and> p < length cs"
  by (metis drop_eq_Nil2 leI list.distinct(1) nth_via_drop peek_in)

lemma eats_sign: "c \<noteq> NUL \<Longrightarrow> eats m (sign c m) [c]"
  by (auto simp: eats_def sign_eq dest: peek_drop)

lemma eats_space: "eats m (space m) [SP]"
  by (auto simp: eats_def space_eq dest: peek_drop)

lemma eats_digit: "HTTP11_DIGIT d \<Longrightarrow> eats m (digit m) [d]"
  by (auto simp: eats_def digit_eq dest: peek_drop)

lemma eats_digits:
  assumes "length w = n" and "\<forall>c \<in> set w. HTTP11_DIGIT c"
  shows "eats m (digits n m) w"
  using assms by (auto simp: eats_def digits_eq run_end_def takeWhile_append2 min_def)

lemma eats_word: "map f w' = w \<Longrightarrow> f NUL \<notin> set w \<Longrightarrow> eats m (word f w m) w'"
  by (auto simp: eats_def word_eq Let_def)

lemma lower_days: "map (map c_tolower) http11_date_wkday_array =
    [''mon'', ''tue'', ''wed'', ''thu'', ''fri'', ''sat'', ''sun'']"
  by code_simp

lemma lower_weekdays: "map (map c_tolower) http11_date_weekday_array =
    [''monday'', ''tuesday'', ''wednesday'', ''thursday'', ''friday'', ''saturday'', ''sunday'']"
  by code_simp

lemma lower_months: "map (map c_tolower) http11_date_month_array =
    [''jan'', ''feb'', ''mar'', ''apr'', ''may'', ''jun'', ''jul'', ''aug'', ''sep'', ''oct'', ''nov'', ''dec'']"
  by code_simp

lemma lower_NUL: "c_tolower NUL = NUL"
  by (simp add: c_tolower_def in_range_def schar_def)

lemma name_in_eq:
  assumes "cursor m s" and "ws \<in> {http11_date_wkday_array, http11_date_weekday_array, http11_date_month_array}"
  shows "name_in ws m s = (case find_name 0 (map (map c_tolower) ws) (map c_tolower (drop (read_pos s) (chars m s))) of
    (r, k) \<Rightarrow> Some (r \<noteq> None, s\<lparr>read_pos := read_pos s + k\<rparr>))"
proof -
  have "\<forall>w \<in> set (map (map c_tolower) ws). c_tolower NUL \<notin> set w"
    using assms(2) unfolding lower_NUL
    by (elim insertE emptyE; hypsubst; simp only: lower_days lower_weekdays lower_months; simp)
  from table_index_eq [where f = c_tolower, OF assms(1) this] show ?thesis
    by (simp add: name_in_def split: prod.split)
qed

lemma eats_name:
  assumes "ws \<in> {http11_date_wkday_array, http11_date_weekday_array, http11_date_month_array}"
    and "\<And>r. \<exists>i. find_name 0 (map (map c_tolower) ws) (map c_tolower w @ r) = (Some i, length w)"
  shows "eats m (name_in ws m) w"
proof (unfold eats_def, intro allI impI)
  fix s r
  assume "cursor m s" and d: "drop (read_pos s) (chars m s) = w @ r"
  with assms(2) [of "map c_tolower r"] name_in_eq [OF \<open>cursor m s\<close> assms(1)]
  show "name_in ws m s = Some (True, s\<lparr>read_pos := read_pos s + length w\<rparr>)" by auto
qed

text \<open>The names that a table search finds: the others begin like one before them.\<close>

definition good_days :: "string list" where
  "good_days = [''Mon'', ''Tue'', ''Wed'', ''Fri'', ''Sat'']"

definition good_months :: "string list" where
  "good_months = [''Jan'', ''Feb'', ''Mar'', ''Apr'', ''Sep'', ''Oct'', ''Nov'', ''Dec'']"

lemma lower_good:
  "map (map c_tolower) good_days = [''mon'', ''tue'', ''wed'', ''fri'', ''sat'']"
  "map (map c_tolower) good_months = [''jan'', ''feb'', ''mar'', ''apr'', ''sep'', ''oct'', ''nov'', ''dec'']"
  by code_simp+

lemma good_found:
  "w \<in> set (map (map c_tolower) good_days) \<Longrightarrow> \<exists>i. find_name 0 (map (map c_tolower) http11_date_wkday_array) (w @ r) = (Some i, length w)"
  "w \<in> set (map (map c_tolower) good_months) \<Longrightarrow> \<exists>i. find_name 0 (map (map c_tolower) http11_date_month_array) (w @ r) = (Some i, length w)"
  unfolding lower_good lower_days lower_months
  by (auto simp: find_name_skip find_name_hit [of _ _ "[x, y]" for x y, unfolded append_Cons append_Nil] simp del: find_name.simps)

lemma eats_wkday: "w \<in> set good_days \<Longrightarrow> eats m (http11_wkday m) w"
  unfolding http11_wkday_def using good_found(1) [of "map c_tolower w"] by (intro eats_name) auto

lemma eats_month: "w \<in> set good_months \<Longrightarrow> eats m (http11_month m) w"
  unfolding http11_month_def using good_found(2) [of "map c_tolower w"] by (intro eats_name) auto

section \<open>Dates\<close>

definition two_digits :: "string \<Rightarrow> bool" where
  "two_digits w \<longleftrightarrow> length w = 2 \<and> (\<forall>c \<in> set w. HTTP11_DIGIT c)"

definition four_digits :: "string \<Rightarrow> bool" where
  "four_digits w \<longleftrightarrow> length w = 4 \<and> (\<forall>c \<in> set w. HTTP11_DIGIT c)"

lemmas eats_steps = eats_nil eats_chain eats_rewind eats_space eats_sign eats_digits eats_wkday eats_month

text \<open>The text of a date of RFC 1123.\<close>

definition rfc1123_text :: "string \<Rightarrow> string \<Rightarrow> string \<Rightarrow> string \<Rightarrow> string \<Rightarrow> string \<Rightarrow> string \<Rightarrow> string" where
  "rfc1123_text wd d mon y h mi sec =
     wd @ '','' @ '' '' @ (d @ '' '' @ mon @ '' '' @ y) @ '' '' @ (h @ '':'' @ mi @ '':'' @ sec) @ '' '' @ ''GMT''"

lemma eats_chain_last: "eats m f w \<Longrightarrow> eats m (chain [f]) w"
  using eats_chain [of m f w "[]" "[]"] eats_nil by simp

lemma eats_rfc1123:
  assumes "wd \<in> set good_days" and "mon \<in> set good_months" and "two_digits d" "four_digits y"
    and "two_digits h" "two_digits mi" "two_digits sec"
  shows "eats m (http11_rfc1123_date m) (rfc1123_text wd d mon y h mi sec)"
proof -
  have d1: "eats m (http11_date1 m) (d @ '' '' @ mon @ '' '' @ y)"
    unfolding http11_date1_def using assms
    by (intro eats_rewind eats_chain eats_chain_last eats_digits eats_space eats_month)
      (auto simp: two_digits_def four_digits_def)
  have t1: "eats m (http11_time m) (h @ '':'' @ mi @ '':'' @ sec)"
    unfolding http11_time_def using assms
    by (intro eats_rewind eats_chain eats_chain_last eats_digits eats_sign) (auto simp: two_digits_def)
  have "map c_toupper ''GMT'' = ''GMT'' \<and> c_toupper NUL \<notin> set ''GMT''" by code_simp
  then show ?thesis
    unfolding http11_rfc1123_date_def rfc1123_text_def using assms(1)
    by (intro eats_rewind eats_chain eats_chain_last eats_word eats_space eats_sign eats_wkday d1 t1) simp_all
qed

text \<open>C35: a date of RFC 1123 is accepted, and consumed whole, when its day is Mon, Tue, Wed, Fri or Sat and
  its month none of May, Jun, Jul and Aug.\<close>

theorem http11_date_accepts:
  assumes "cursor m s" and "drop (read_pos s) (chars m s) = rfc1123_text wd d mon y h mi sec @ r"
    and "wd \<in> set good_days" and "mon \<in> set good_months" and "two_digits d" and "four_digits y"
    and "two_digits h" and "two_digits mi" and "two_digits sec"
  shows "http11_date m s = Some (True, s\<lparr>read_pos := read_pos s + 29\<rparr>)"
proof -
  have "length wd = 3" "length mon = 3"
    using assms(3,4) by (auto simp: good_days_def good_months_def)
  then have "length (rfc1123_text wd d mon y h mi sec) = 29"
    using assms by (simp add: rfc1123_text_def two_digits_def four_digits_def)
  with eatsD [OF eats_rfc1123 [OF assms(3-9)] assms(1,2)] show ?thesis
    by (simp add: http11_date_def)
qed

lemma http11_date_accepts_witness:
  "http11_date (memory_of [''Sat, 06 Nov 2021 08:49:37 GMT'']) (string_at 0 29) =
    Some (True, (string_at 0 29)\<lparr>read_pos := 29\<rparr>)"
proof -
  have "two_digits ''06''" "four_digits ''2021''" "two_digits ''08''" "two_digits ''49''" "two_digits ''37''"
    by (simp_all add: two_digits_def four_digits_def cclass range_defs)
  then show ?thesis
    using http11_date_accepts [of "memory_of [''Sat, 06 Nov 2021 08:49:37 GMT'']" "string_at 0 29"
        "''Sat''" "''06''" "''Nov''" "''2021''" "''08''" "''49''" "''37''" "[]"]
    by (simp add: cursor_def rfc1123_text_def good_days_def good_months_def)
qed

lemma day_missed:
  assumes "x \<in> {''thu'', ''sun''}"
  shows "find_name 0 (map (map c_tolower) http11_date_wkday_array) (x @ r) = (None, 1)"
    and "find_name 0 (map (map c_tolower) http11_date_weekday_array) (x @ r) = (None, 1)"
  using assms unfolding lower_days lower_weekdays by (auto simp: find_name_skip find_name_miss simp del: find_name.simps(2))

text \<open>No date that begins with Thu or Sun is accepted, in none of the three formats and in none of the
  cases, although both days are in the tables: the search takes the first letter for that of Tue or
  Sat and goes on with the second.\<close>

theorem http11_date_misses_thu_sun:
  assumes "cursor m s" and "map c_tolower (drop (read_pos s) (chars m s)) = x @ r" and "x \<in> {''thu'', ''sun''}"
  shows "http11_date m s = Some (False, s)"
proof -
  have "http11_wkday m s = Some (False, s\<lparr>read_pos := read_pos s + 1\<rparr>)"
      "http11_weekday m s = Some (False, s\<lparr>read_pos := read_pos s + 1\<rparr>)"
    using day_missed [OF assms(3), of r] assms(2)
    by (simp_all add: http11_wkday_def http11_weekday_def name_in_eq [OF assms(1)])
  then show ?thesis
    by (simp add: http11_date_def http11_rfc1123_date_def http11_rfc850_date_def http11_asctime_date_def rewind_def)
qed

lemma http11_date_misses_thu_sun_witness:
  "http11_date (memory_of [''Sun, 06 Nov 1994 08:49:37 GMT'']) (string_at 0 29) = Some (False, string_at 0 29)"
proof -
  have "map c_tolower ''Sun, 06 Nov 1994 08:49:37 GMT'' = ''sun'' @ '', 06 nov 1994 08:49:37 gmt''" by code_simp
  then show ?thesis
    using http11_date_misses_thu_sun [of "memory_of [''Sun, 06 Nov 1994 08:49:37 GMT'']" "string_at 0 29" "''sun''"
        "'', 06 nov 1994 08:49:37 gmt''"]
    by (simp add: cursor_def)
qed

section \<open>Times\<close>

text \<open>\<open>hh:mm:ss\<close> at a position.\<close>

definition time_at :: "char list \<Rightarrow> nat \<Rightarrow> bool" where
  "time_at cs p \<longleftrightarrow> (\<forall>i \<in> {0, 1, 3, 4, 6, 7}. HTTP11_DIGIT (peek cs (p + i)))
     \<and> peek cs (p + 2) = CHR '':'' \<and> peek cs (p + 5) = CHR '':''"

lemma digits_2:
  assumes "cursor m s"
  shows "digits 2 m s = (if HTTP11_DIGIT (peek (chars m s) (read_pos s)) \<and> HTTP11_DIGIT (peek (chars m s) (read_pos s + 1))
    then Some (True, s\<lparr>read_pos := read_pos s + 2\<rparr>)
    else Some (False, s\<lparr>read_pos := min (read_pos s + 2) (run_end HTTP11_DIGIT (chars m s) (read_pos s))\<rparr>))"
proof -
  let ?cs = "chars m s" and ?p = "read_pos s"
  have lt: "q < length ?cs" if "HTTP11_DIGIT (peek ?cs q)" for q
    using that digit_NUL by (cases "q < length ?cs") auto
  have r: "run_end HTTP11_DIGIT ?cs q = (if HTTP11_DIGIT (peek ?cs q) then run_end HTTP11_DIGIT ?cs (Suc q) else q)" for q
    using lt [of q] digit_NUL by (cases "q < length ?cs") (auto simp: run_end_step run_end_out)
  have b: "q \<le> run_end HTTP11_DIGIT ?cs q" for q by (simp add: run_end_def)
  show ?thesis
    unfolding digits_eq [OF assms]
    using r [of ?p] r [of "Suc ?p"] b [of "Suc (Suc ?p)"] by (auto simp: min_def)
qed

text \<open>C34: \<open>http11_time\<close> accepts exactly two digits, a colon, two digits, a colon and two digits, moves
  behind them, and stays where it is on anything else.\<close>

theorem http11_time_exact:
  assumes "cursor m s"
  shows "http11_time m s = Some (if time_at (chars m s) (read_pos s)
    then (True, s\<lparr>read_pos := read_pos s + 8\<rparr>) else (False, s))"
proof -
  let ?cs = "chars m s" and ?p = "read_pos s"
  define a where "a = (HTTP11_DIGIT (peek ?cs ?p) \<and> HTTP11_DIGIT (peek ?cs (?p + 1)))"
  define c where "c = (HTTP11_DIGIT (peek ?cs (?p + 3)) \<and> HTTP11_DIGIT (peek ?cs (?p + 4)))"
  define e where "e = (HTTP11_DIGIT (peek ?cs (?p + 6)) \<and> HTTP11_DIGIT (peek ?cs (?p + 7)))"
  have cur: "cursor m (s\<lparr>read_pos := ?p + i + 1\<rparr>)" if "peek ?cs (?p + i) \<noteq> NUL" for i
    using that assms by (cases "?p + i < length ?cs") (auto simp: cursor_def)
  have n: "d \<noteq> NUL" if "HTTP11_DIGIT d" for d
    using that digit_NUL by auto
  have 1: "digits 2 m s = Some (a, if a then s\<lparr>read_pos := ?p + 2\<rparr> else
      s\<lparr>read_pos := min (?p + 2) (run_end HTTP11_DIGIT ?cs ?p)\<rparr>)"
    using digits_2 [OF assms] by (simp add: a_def)
  have 2: "sign (CHR '':'') m (s\<lparr>read_pos := ?p + 2\<rparr>) = Some (if peek ?cs (?p + 2) = CHR '':''
      then (True, s\<lparr>read_pos := ?p + 3\<rparr>) else (False, s\<lparr>read_pos := ?p + 2\<rparr>))" if a
    using that cur [of 1] n by (subst sign_eq) (auto simp: a_def eval_nat_numeral)
  have 3: "\<exists>j. digits 2 m (s\<lparr>read_pos := ?p + 3\<rparr>) = Some (c, if c then s\<lparr>read_pos := ?p + 5\<rparr> else s\<lparr>read_pos := j\<rparr>)"
    if "peek ?cs (?p + 2) = CHR '':''"
    using that cur [of 2] by (subst digits_2) (auto simp: c_def eval_nat_numeral)
  have 4: "sign (CHR '':'') m (s\<lparr>read_pos := ?p + 5\<rparr>) = Some (if peek ?cs (?p + 5) = CHR '':''
      then (True, s\<lparr>read_pos := ?p + 6\<rparr>) else (False, s\<lparr>read_pos := ?p + 5\<rparr>))" if c
    using that cur [of 4] n by (subst sign_eq) (auto simp: c_def eval_nat_numeral)
  have 5: "\<exists>j. digits 2 m (s\<lparr>read_pos := ?p + 6\<rparr>) = Some (e, if e then s\<lparr>read_pos := ?p + 8\<rparr> else s\<lparr>read_pos := j\<rparr>)"
    if "peek ?cs (?p + 5) = CHR '':''"
    using that cur [of 5] by (subst digits_2) (auto simp: e_def eval_nat_numeral)
  have "time_at ?cs ?p \<longleftrightarrow> a \<and> peek ?cs (?p + 2) = CHR '':'' \<and> c \<and> peek ?cs (?p + 5) = CHR '':'' \<and> e"
    by (auto simp: time_at_def a_def c_def e_def)
  with 1 2 3 4 5 show ?thesis
    by (cases "a \<and> peek ?cs (?p + 2) = CHR '':'' \<and> c \<and> peek ?cs (?p + 5) = CHR '':''"; cases e; cases c)
      (auto simp: http11_time_def rewind_def)
qed

lemma http11_time_exact_witness:
  "http11_time (memory_of [''23:59:60'']) (string_at 0 8) = Some (True, (string_at 0 8)\<lparr>read_pos := 8\<rparr>)"
proof -
  have "time_at ''23:59:60'' 0" by (simp add: time_at_def cclass range_defs)
  then show ?thesis
    using http11_time_exact [of "memory_of [''23:59:60'']" "string_at 0 8"] by (simp add: cursor_def)
qed

end
