(* ===== verification/Http_Values_Safety.thy ===== *)
theory Http_Values_Safety
  imports Http_Values_Proofs Uri_Contract
begin

text \<open>
  Which parsers of header values return, and which cannot: the parsers of dates always do, within the
  data, and those of lists never, as their loops have no exit.  For the latter a run of any number of
  rounds of the loop is shown to go well, so that it is the loop that does not end, and not an access
  outside the buffer that stops it.  Then the headers that no value satisfies.
\<close>

section \<open>Steps that return\<close>

definition moves :: "mem \<Rightarrow> (stringaa \<Rightarrow> (bool \<times> stringaa) option) \<Rightarrow> bool" where
  "moves m f \<longleftrightarrow> (\<forall>s. cursor m s \<longrightarrow> returns (f s) (\<lambda>(b, s'). moved s s'))"

named_theorems moves_rules \<open>steps that return\<close>

lemma movesI: "(\<And>s. cursor m s \<Longrightarrow> returns (f s) (\<lambda>(b, s'). moved s s')) \<Longrightarrow> moves m f"
  by (simp add: moves_def)

lemma movesE:
  assumes "moves m f" and "cursor m s"
  obtains b s' where "f s = Some (b, s')" and "moved s s'" and "cursor m s'"
proof -
  from assms have "returns (f s) (\<lambda>(b, s'). moved s s')" by (simp add: moves_def)
  then obtain b s' where "f s = Some (b, s')" "moved s s'" by (auto elim!: returnsE)
  with that moved_cursor [OF _ assms(2)] show thesis by blast
qed

lemma cursor_moved [simp]: "cursor m s \<Longrightarrow> moved s s"
  by (simp add: cursor_def moved_refl)

lemma moves_chain_nil [moves_rules]: "moves m (chain [])"
  by (simp add: moves_def)

lemma moves_chain_cons [moves_rules]:
  assumes "moves m f" and "moves m (chain fs)"
  shows "moves m (chain (f # fs))"
proof (rule movesI)
  fix s
  assume "cursor m s"
  from movesE [OF assms(1) this] obtain b s1 where 1: "f s = Some (b, s1)" "moved s s1" "cursor m s1" .
  from movesE [OF assms(2) 1(3)] obtain b2 s2 where "chain fs s1 = Some (b2, s2)" "moved s1 s2" .
  with 1 show "returns (chain (f # fs) s) (\<lambda>(b, s'). moved s s')" by (auto intro: moved_trans)
qed

lemma rewind_cases:
  assumes "moves m f" and "cursor m s"
  obtains s' where "rewind f s = Some (True, s')" and "moved s s'" | "rewind f s = Some (False, s)"
proof -
  from movesE [OF assms] obtain b s1 where "f s = Some (b, s1)" "moved s s1" .
  with that show thesis by (cases b) (auto simp: rewind_def elim!: movedE)
qed

lemma moves_rewind [moves_rules]: "moves m f \<Longrightarrow> moves m (rewind f)"
  by (rule movesI, erule rewind_cases, assumption) auto

lemma moves_sign [moves_rules]: "moves m (sign d m)"
  by (rule movesI) (simp add: sign_def moved_is_char)

lemma cursor_step:
  assumes "cursor m s" and "peek (chars m s) (read_pos s) \<noteq> NUL"
  shows "moved s (s\<lparr>read_pos := Suc (read_pos s)\<rparr>)"
  using assms by (cases "read_pos s < write_pos s") (auto simp: cursor_def intro!: movedI)

lemma moves_space [moves_rules]: "moves m (space m)"
  by (rule movesI) (simp add: space_eq cursor_step)

lemma moves_digit [moves_rules]: "moves m (digit m)"
proof (rule movesI)
  fix s
  assume c: "cursor m s"
  have "peek (chars m s) (read_pos s) \<noteq> NUL" if "HTTP11_DIGIT (peek (chars m s) (read_pos s))"
    using that digit_NUL by auto
  with c show "returns (digit m s) (\<lambda>(b, s'). moved s s')" by (simp add: digit_eq cursor_step)
qed

lemma cursor_run: "cursor m s \<Longrightarrow> q \<le> run_end P (chars m s) (read_pos s) \<Longrightarrow> read_pos s \<le> q \<Longrightarrow>
    moved s (s\<lparr>read_pos := q\<rparr>)"
  using run_end_bounds [of "read_pos s" "chars m s" P] by (auto simp: cursor_def intro!: movedI)

lemma run_end_ge: "q \<le> run_end P cs q"
  by (simp add: run_end_def)

lemma moves_digits [moves_rules]: "moves m (digits n m)"
  by (rule movesI) (auto simp: digits_eq run_end_ge intro!: cursor_run [where P = HTTP11_DIGIT])

lemma moves_word [moves_rules]:
  assumes "f NUL \<notin> set w"
  shows "moves m (word f w m)"
proof (rule movesI)
  fix s
  assume c: "cursor m s"
  with cursor_common [OF c, of w f] show "returns (word f w m s) (\<lambda>(b, s'). moved s s')"
    by (simp add: word_eq [where f = f and w = w, OF c assms] Let_def cursor_def movedI)
qed

lemma moves_name_in:
  assumes "ws \<in> {http11_date_wkday_array, http11_date_weekday_array, http11_date_month_array}"
  shows "moves m (name_in ws m)"
proof (rule movesI)
  fix s
  assume c: "cursor m s"
  obtain r k where f: "find_name 0 (map (map c_tolower) ws) (map c_tolower (drop (read_pos s) (chars m s))) = (r, k)"
    by (metis surj_pair)
  with find_name_le [of 0 "map (map c_tolower) ws" "map c_tolower (drop (read_pos s) (chars m s))"]
  have "k \<le> write_pos s - read_pos s" using c by (simp add: cursor_def)
  moreover have "read_pos s \<le> write_pos s" using c by (simp add: cursor_def)
  ultimately have "read_pos s + k \<le> write_pos s" by linarith
  with f show "returns (name_in ws m s) (\<lambda>(b, s'). moved s s')"
    by (simp add: name_in_eq [OF c assms] movedI)
qed

lemma moves_names [moves_rules]: "moves m (http11_wkday m)" "moves m (http11_weekday m)" "moves m (http11_month m)"
  unfolding http11_wkday_def http11_weekday_def http11_month_def by (rule moves_name_in, simp)+

lemma moves_token [moves_rules]: "moves m (http11_token m)"
  by (rule movesI) (auto simp: http11_token_eq run_end_ge intro!: cursor_run [where P = TOKEN_CHARS])

lemma moves_lws [moves_rules]: "moves m (http11_lws m)"
proof (rule movesI)
  fix s
  assume c: "cursor m s"
  let ?b = "blanks_from (chars m s) (read_pos s)"
  have "read_pos s \<le> ?b" "?b \<le> length (chars m s)"
    using blanks_from_le [of "read_pos s" "chars m s"] c by (auto simp: cursor_def)
  then have "moved s (s\<lparr>read_pos := run_end HTTP11_BLANK (chars m s) ?b\<rparr>)"
    using run_end_bounds [of ?b "chars m s" HTTP11_BLANK] c by (intro movedI) (auto simp: cursor_def)
  with c show "returns (http11_lws m s) (\<lambda>(b, s'). moved s s')" by (simp add: http11_lws_eq)
qed

section \<open>Dates\<close>

lemma moves_date1 [moves_rules]: "moves m (http11_date1 m)"
  unfolding http11_date1_def by (intro moves_rules)

lemma moves_date2 [moves_rules]: "moves m (http11_date2 m)"
  unfolding http11_date2_def by (intro moves_rules)

lemma moves_time [moves_rules]: "moves m (http11_time m)"
  unfolding http11_time_def by (intro moves_rules)

lemma moves_date3 [moves_rules]: "moves m (http11_date3 m)"
proof -
  have "moves m (\<lambda>s. do {
     (b, s') \<leftarrow> digits 2 m s;
     if b then Some (False, s') else chain [space m, digit m] (s'\<lparr>read_pos := read_pos s\<rparr>) })"
  proof (rule movesI)
    fix s
    assume c: "cursor m s"
    from movesE [OF moves_digits c, of 2] obtain b s1 where 1: "digits 2 m s = Some (b, s1)" "moved s s1" .
    from 1(2) have s1: "s1\<lparr>read_pos := read_pos s\<rparr> = s" by (auto elim: movedE)
    have "moves m (chain [space m, digit m])" by (intro moves_rules)
    from movesE [OF this c] obtain b2 s2 where "chain [space m, digit m] s = Some (b2, s2)" "moved s s2" .
    with 1 s1 show "returns (do { (b, s') \<leftarrow> digits 2 m s;
        if b then Some (False, s') else chain [space m, digit m] (s'\<lparr>read_pos := read_pos s\<rparr>) })
        (\<lambda>(b, s'). moved s s')" by simp
  qed
  then show ?thesis unfolding http11_date3_def by (intro moves_rules)
qed

lemma gmt_word: "c_toupper NUL \<notin> set ''GMT''"
  by code_simp

lemma moves_dates: "moves m (chain [http11_wkday m, sign (CHR '','') m, space m, http11_date1 m, space m,
     http11_time m, space m, word c_toupper ''GMT'' m])"
  "moves m (chain [http11_weekday m, sign (CHR '','') m, space m, http11_date2 m, space m,
     http11_time m, space m, word c_toupper ''GMT'' m])"
  "moves m (chain [http11_wkday m, space m, http11_date3 m, space m, http11_time m, space m, digits 4 m])"
  by (intro moves_rules gmt_word)+

lemma http11_date_run:
  assumes "cursor m s"
  shows "returns (http11_date m s) (\<lambda>(b, s'). if b then moved s s' else s' = s)"
proof -
  note r = rewind_cases [OF moves_dates(1) assms] rewind_cases [OF moves_dates(2) assms] rewind_cases [OF moves_dates(3) assms]
  show ?thesis
    by (rule r(1); rule r(2); rule r(3))
      (simp_all add: http11_date_def http11_rfc1123_date_def http11_rfc850_date_def http11_asctime_date_def)
qed

text \<open>Whatever the data, \<open>http11_date\<close> returns without a memory error; it moves forward within the
  data when it accepts, and is back where it was when it does not.\<close>

theorem http11_date_returns:
  assumes "cursor m s"
  shows "returns (http11_date m s) (\<lambda>(b, s'). if b then moved s s' else s' = s)"
  by (rule http11_date_run [OF assms])

lemma http11_date_returns_witness:
  "returns (http11_date (memory_of [''Mon,'']) (string_at 0 4)) (\<lambda>(b, s'). if b then moved (string_at 0 4) s' else s' = string_at 0 4)"
  using http11_date_returns [of "memory_of [''Mon,'']" "string_at 0 4"] by (simp add: cursor_def)

section \<open>Lists\<close>

text \<open>A number of rounds of a loop.\<close>

fun rounds :: "nat \<Rightarrow> ('s \<Rightarrow> 's option) \<Rightarrow> 's \<Rightarrow> 's option" where
  "rounds 0 body s = Some s"
| "rounds (Suc n) body s = do { s \<leftarrow> body s; rounds n body s }"

lemma rounds_moved:
  assumes "\<And>s. cursor m s \<Longrightarrow> returns (body s) (moved s)" and "cursor m s"
  shows "returns (rounds n body s) (moved s)"
  using assms(2)
proof (induction n arbitrary: s)
  case (Suc n)
  from assms(1) [OF Suc.prems] obtain s1 where 1: "body s = Some s1" "moved s s1" by (auto elim: returnsE)
  with Suc.IH [of s1] moved_cursor [OF 1(2) Suc.prems] show ?case
    by (auto simp: returns_iff intro: moved_trans)
qed simp

lemma attempt_moved: "moves m f \<Longrightarrow> cursor m s \<Longrightarrow> returns (attempt f s) (moved s)"
  by (erule movesE, assumption) (simp add: attempt_def)

lemma returns_then:
  assumes "returns x (moved s)" and "\<And>s'. moved s s' \<Longrightarrow> returns (f s') (moved s')"
  shows "returns (Option.bind x f) (moved s)"
proof -
  from assms(1) obtain s1 where 1: "x = Some s1" "moved s s1" by (auto elim: returnsE)
  from assms(2) [OF 1(2)] obtain s2 where "f s1 = Some s2" "moved s1 s2" by (auto elim: returnsE)
  with 1 show ?thesis by (auto intro: moved_trans)
qed

lemma list_round_moved:
  assumes "moves m (item m)" and "cursor m s"
  shows "returns (list_round item m s) (moved s)"
  unfolding list_round_def
proof (intro returns_then)
  show "returns (attempt (item m) s) (moved s)" using attempt_moved [OF assms] .
next
  fix s1 assume "moved s s1"
  then have 1: "cursor m s1" using assms(2) by (rule moved_cursor)
  show "returns (attempt (http11_lws m) s1) (moved s1)" by (rule attempt_moved [OF moves_lws 1])
  fix s2 assume "moved s1 s2"
  then have 2: "cursor m s2" using 1 by (rule moved_cursor)
  show "returns (attempt (sign (CHR '','') m) s2) (moved s2)" by (rule attempt_moved [OF moves_sign 2])
  fix s3 assume "moved s2 s3"
  then have 3: "cursor m s3" using 2 by (rule moved_cursor)
  show "returns (attempt (http11_lws m) s3) (moved s3)" by (rule attempt_moved [OF moves_lws 3])
qed

lemma moves_field_name [moves_rules]: "moves m (http11_field_name m)"
  unfolding http11_field_name_def by (intro moves_rules)

lemma moves_product [moves_rules]: "moves m (http11_product m)"
proof -
  have "moves m (\<lambda>s. do {
     (b, s) \<leftarrow> http11_token m s;
     if b then do { s \<leftarrow> attempt (chain [sign (CHR ''/'') m, http11_token m]) s; Some (True, s) }
     else Some (False, s) })" (is "moves m ?f")
  proof (rule movesI)
    fix s
    assume c: "cursor m s"
    from movesE [OF moves_token c] obtain b s1 where 1: "http11_token m s = Some (b, s1)" "moved s s1" "cursor m s1" .
    have "moves m (chain [sign (CHR ''/'') m, http11_token m])" by (intro moves_rules)
    from attempt_moved [OF this 1(3)] obtain s2 where
      "attempt (chain [sign (CHR ''/'') m, http11_token m]) s1 = Some s2" "moved s1 s2" by (auto elim: returnsE)
    with 1 show "returns (?f s) (\<lambda>(b, s'). moved s s')" by (auto intro: moved_trans)
  qed
  then show ?thesis unfolding http11_product_def by (rule moves_rewind)
qed

text \<open>The parsers of Connection, Trailer and Upgrade never return, on no data: each round of their loops
  goes well, stays within the data and is followed by another one.\<close>

theorem http11_lists_never_return:
  assumes "cursor m s"
  shows "(\<forall>n. returns (rounds n (list_round http11_token m) s) (moved s)
      \<and> returns (rounds n (list_round http11_field_name m) s) (moved s)
      \<and> returns (rounds n (list_round http11_product m) s) (moved s))
    \<and> http11_header_connection m s = None \<and> http11_header_trailer m s = None \<and> http11_header_upgrade m s = None"
  using assms
  by (auto intro!: rounds_moved list_round_moved moves_token moves_field_name moves_product
      simp: http11_header_connection_def http11_header_trailer_def http11_header_upgrade_def forever_None)

lemma http11_lists_never_return_witness:
  "http11_header_connection (memory_of [''close'']) (string_at 0 5) = None
   \<and> (\<forall>n. returns (rounds n (list_round http11_token (memory_of [''close''])) (string_at 0 5)) (moved (string_at 0 5)))"
  using http11_lists_never_return [of "memory_of [''close'']" "string_at 0 5"] by (simp add: cursor_def)

section \<open>Headers that no value satisfies, and a number\<close>

lemma find_name_none:
  assumes "\<forall>w \<in> set ws. w \<noteq> [] \<and> hd w \<notin> set xs"
  shows "find_name i ws xs = (None, 0)"
  using assms
proof (induction ws arbitrary: i)
  case (Cons w ws)
  then obtain x v where w: "w = x # v" "x \<notin> set xs" by (cases w) auto
  then have "common w xs = 0" by (cases xs) auto
  with Cons w show ?case by simp
qed simp

lemma lower_no_upper: "in_range (CHR ''A'') (CHR ''Z'') d \<Longrightarrow> c_tolower c \<noteq> d"
proof
  define n where "n = (of_char d :: nat)"
  have n: "n < 256" "(of_char d :: int) = int n" by (simp_all add: n_def of_nat_of_char)
  assume "in_range (CHR ''A'') (CHR ''Z'') d" "c_tolower c = d"
  with n have "65 \<le> n" "n \<le> 90" by (auto simp: in_range_def schar_def Let_def split: if_splits)
  moreover have "n = of_char (c_tolower c)" using \<open>c_tolower c = d\<close> by (simp add: n_def)
  ultimately show False unfolding of_char_tolower by (auto split: if_splits)
qed

text \<open>The parser of Allow accepts nothing: it looks for the names of the methods, which are upper case,
  in the data turned to lower case.\<close>

theorem http11_header_allow_never:
  assumes "cursor m s"
  shows "http11_header_allow m s = Some (False, s)"
proof -
  let ?xs = "map c_tolower (drop (read_pos s) (chars m s))"
  have up: "\<forall>w \<in> set http11_method_array. w \<noteq> [] \<and> in_range (CHR ''A'') (CHR ''Z'') (hd w) \<and> c_tolower NUL \<notin> set w"
    by code_simp
  then have "\<forall>w \<in> set http11_method_array. w \<noteq> [] \<and> hd w \<notin> set ?xs"
    using lower_no_upper by fastforce
  from find_name_none [OF this] have "find_name 0 http11_method_array ?xs = (None, 0)" .
  moreover have "\<forall>w \<in> set http11_method_array. c_tolower NUL \<notin> set w" using up by blast
  ultimately have "table_index c_tolower http11_method_array m s = Some (None, s)"
    using table_index_eq [where f = c_tolower and ws = http11_method_array, OF assms] by simp
  then show ?thesis
    by (simp add: http11_header_allow_def rewind_def) (subst loop_while.simps, simp)
qed

lemma http11_header_allow_never_witness:
  "http11_header_allow (memory_of [''GET, HEAD'']) (string_at 0 9) = Some (False, string_at 0 9)"
  using http11_header_allow_never [of "memory_of [''GET, HEAD'']" "string_at 0 9"] by (simp add: cursor_def)

text \<open>The parser of Content-Range accepts nothing: where it looks for the space after the unit, it tests
  the character with which the unit begins.\<close>

theorem http11_header_content_range_never:
  assumes "cursor m s"
  shows "http11_header_content_range m s = Some (False, s)"
proof -
  have low: "c_tolower NUL \<notin> set ''bytes'' \<and> c_tolower SP \<noteq> CHR ''b''" by code_simp
  then have e: "http11_bytes_unit m s = (let n = common ''bytes'' (map c_tolower (drop (read_pos s) (chars m s)))
      in Some (n = length ''bytes'', s\<lparr>read_pos := read_pos s + n\<rparr>))"
    using word_eq [where f = c_tolower and w = "''bytes''", OF assms] by (simp add: http11_bytes_unit_def)
  have "peek (chars m s) (read_pos s) \<noteq> SP" if "common ''bytes'' (map c_tolower (drop (read_pos s) (chars m s))) = length ''bytes''"
  proof
    assume sp: "peek (chars m s) (read_pos s) = SP"
    then have "read_pos s < length (chars m s)" by (auto simp: peek_def split: if_splits)
    then have "drop (read_pos s) (chars m s) = SP # drop (Suc (read_pos s)) (chars m s)"
      using sp by (simp add: Cons_nth_drop_Suc [symmetric])
    with that low show False by (simp split: if_splits)
  qed
  with e obtain b q where "http11_bytes_unit m s = Some (b, s\<lparr>read_pos := q\<rparr>)"
      "\<not> (b \<and> peek (chars m s) (read_pos s) = SP)"
    by (auto simp: Let_def)
  moreover have "stringaa_get_char m s = Some (peek (chars m s) (read_pos s))"
    using assms by (simp add: cursor_def)
  ultimately show ?thesis
    by (auto simp: http11_header_content_range_def rewind_def)
qed

lemma http11_header_content_range_never_witness:
  "http11_header_content_range (memory_of [''bytes 0-4/10'']) (string_at 0 12) = Some (False, string_at 0 12)"
  using http11_header_content_range_never [of "memory_of [''bytes 0-4/10'']" "string_at 0 12"] by (simp add: cursor_def)

text \<open>The parser of Content-Length takes the longest run of digits, and accepts when it is not empty; the
  parser of Age takes the same digits and accepts nothing.\<close>

theorem http11_header_content_length_digits:
  assumes "cursor m s"
  defines "e \<equiv> run_end HTTP11_DIGIT (chars m s) (read_pos s)"
  shows "http11_header_content_length m s = Some (HTTP11_DIGIT (peek (chars m s) (read_pos s)), s\<lparr>read_pos := e\<rparr>)
    \<and> http11_header_age m s = Some (False, s\<lparr>read_pos := e\<rparr>)"
proof -
  have "e \<noteq> read_pos s \<longleftrightarrow> HTTP11_DIGIT (peek (chars m s) (read_pos s))"
    using digit_NUL run_end_ge [of "Suc (read_pos s)" HTTP11_DIGIT "chars m s"]
    by (cases "read_pos s < length (chars m s)") (auto simp: e_def run_end_step run_end_out)
  moreover have "readable m s" using assms by (simp add: cursor_def)
  ultimately show ?thesis
    using scan_while_eq [where P = HTTP11_DIGIT, OF assms(1) digit_NUL refl]
    by (simp add: http11_header_content_length_def digit_run_def http11_header_age_def http11_delta_seconds_def e_def Let_def)
qed

lemma http11_header_content_length_digits_witness:
  "http11_header_content_length (memory_of [''81;'']) (string_at 0 3) = Some (True, (string_at 0 3)\<lparr>read_pos := 2\<rparr>)"
proof -
  have "HTTP11_DIGIT (CHR ''8'')" "HTTP11_DIGIT (CHR ''1'')" "\<not> HTTP11_DIGIT (CHR '';'')"
    by (simp_all add: cclass range_defs)
  then show ?thesis
    using http11_header_content_length_digits [of "memory_of [''81;'']" "string_at 0 3"]
    by (simp add: cursor_def run_end_def)
qed

end
