(* ===== verification/Http_Values_Verdicts.thy ===== *)
theory Http_Values_Verdicts
  imports Http_Values_Safety
begin

text \<open>
  All parsers of header values side by side: which of them never return, which return and refuse whatever
  they get, and which can accept.  \<open>advances\<close> says that a step moves when it succeeds, which bounds the loops
  that go on for as long as a step does.
\<close>

section \<open>Steps that advance\<close>

definition advances :: "mem \<Rightarrow> (stringaa \<Rightarrow> (bool \<times> stringaa) option) \<Rightarrow> bool" where
  "advances m f \<longleftrightarrow> (\<forall>s. cursor m s \<longrightarrow> returns (f s) (\<lambda>(b, s'). moved s s' \<and> (b \<longrightarrow> read_pos s < read_pos s')))"

named_theorems advances_rules \<open>steps that advance\<close>

lemma advancesI:
  "moves m f \<Longrightarrow> (\<And>s s'. cursor m s \<Longrightarrow> f s = Some (True, s') \<Longrightarrow> read_pos s < read_pos s') \<Longrightarrow> advances m f"
  by (fastforce simp: advances_def moves_def returns_iff)

lemma advances_moves: "advances m f \<Longrightarrow> moves m f"
  by (fastforce simp: advances_def moves_def returns_iff)

lemma advancesE:
  assumes "advances m f" and "cursor m s"
  obtains b s' where "f s = Some (b, s')" and "moved s s'" and "cursor m s'" and "b \<longrightarrow> read_pos s < read_pos s'"
proof -
  from assms obtain b s' where "f s = Some (b, s')" "moved s s'" "b \<longrightarrow> read_pos s < read_pos s'"
    by (auto simp: advances_def returns_iff)
  with that moved_cursor [OF _ assms(2)] show thesis by blast
qed

lemma advances_chain [advances_rules]:
  assumes "advances m f" and "moves m (chain fs)"
  shows "advances m (chain (f # fs))"
proof (rule advancesI)
  show "moves m (chain (f # fs))" using moves_chain_cons [OF advances_moves [OF assms(1)] assms(2)] .
  fix s s'
  assume c: "cursor m s" and r: "chain (f # fs) s = Some (True, s')"
  from advancesE [OF assms(1) c] obtain b s1 where 1: "f s = Some (b, s1)" "moved s s1" "cursor m s1" "b \<longrightarrow> read_pos s < read_pos s1" .
  from movesE [OF assms(2) 1(3)] obtain b2 s2 where "chain fs s1 = Some (b2, s2)" "moved s1 s2" .
  with 1 r show "read_pos s < read_pos s'" by (fastforce dest: moved_le split: if_splits)
qed

lemma advances_or [advances_rules]:
  assumes "advances m f" and "advances m g"
  shows "advances m (\<lambda>s. do { (b, s) \<leftarrow> f s; if b then Some (True, s) else g s })"
  unfolding advances_def
proof (intro allI impI)
  fix s
  assume c: "cursor m s"
  from advancesE [OF assms(1) c] obtain b s1 where
    1: "f s = Some (b, s1)" "moved s s1" "cursor m s1" "b \<longrightarrow> read_pos s < read_pos s1" .
  from advancesE [OF assms(2) 1(3)] obtain b2 s2 where
    "g s1 = Some (b2, s2)" "moved s1 s2" "b2 \<longrightarrow> read_pos s1 < read_pos s2" .
  with 1 show "returns (do { (b, s) \<leftarrow> f s; if b then Some (True, s) else g s })
      (\<lambda>(b, s'). moved s s' \<and> (b \<longrightarrow> read_pos s < read_pos s'))"
    by (auto intro: moved_trans dest: moved_le)
qed

lemma advances_rewind [advances_rules]:
  assumes "advances m f"
  shows "advances m (rewind f)"
proof (rule advancesI)
  show "moves m (rewind f)" by (rule moves_rewind [OF advances_moves [OF assms]])
  fix s s'
  assume "cursor m s" "rewind f s = Some (True, s')"
  with assms show "read_pos s < read_pos s'"
    by (fastforce simp: rewind_def advances_def returns_iff bind_eq_Some_conv)
qed

lemma advances_digit [advances_rules]: "advances m (digit m)"
  by (rule advancesI [OF moves_digit]) (auto simp: digit_eq split: if_splits)

lemma advances_sign [advances_rules]: "d \<noteq> NUL \<Longrightarrow> advances m (sign d m)"
  by (rule advancesI [OF moves_sign]) (auto simp: sign_eq split: if_splits)

lemma advances_word [advances_rules]: "f NUL \<notin> set w \<Longrightarrow> w \<noteq> [] \<Longrightarrow> advances m (word f w m)"
  by (rule advancesI [OF moves_word]) (auto simp: word_eq [where f = f] Let_def)

lemma run_end_moves: "\<not> P NUL \<Longrightarrow> run_end P cs p \<noteq> p \<longleftrightarrow> P (peek cs p)"
  using run_end_ge [of "Suc p" P cs]
  by (cases "p < length cs") (auto simp: run_end_step run_end_out)

lemma advances_token [advances_rules]: "advances m (http11_token m)"
proof (rule advancesI [OF moves_token])
  fix s s'
  assume "cursor m s" "http11_token m s = Some (True, s')"
  then show "read_pos s < read_pos s'"
    using run_end_moves [of TOKEN_CHARS "chars m s" "read_pos s"] run_end_ge [of "read_pos s" TOKEN_CHARS "chars m s"] token_NUL
    by (auto simp: http11_token_eq split: if_splits)
qed

text \<open>A loop that goes on for as long as such a step succeeds ends, where the step has failed.\<close>

lemma loop_while_ends:
  assumes "advances m body" and "cursor m s"
  shows "returns (loop_while body s) (\<lambda>s'. moved s s' \<and> (\<exists>s0. cursor m s0 \<and> body s0 = Some (False, s')))"
  using assms(2)
proof (induction "write_pos s - read_pos s" arbitrary: s rule: less_induct)
  case less
  from advancesE [OF assms(1) less(2)] obtain b s1 where
    1: "body s = Some (b, s1)" "moved s s1" "cursor m s1" "b \<longrightarrow> read_pos s < read_pos s1" .
  show ?case
  proof (cases b)
    case False
    with 1 less(2) show ?thesis by (subst loop_while.simps) auto
  next
    case True
    have "write_pos s1 = write_pos s" using 1(2) by (auto elim: movedE)
    moreover have "read_pos s1 \<le> write_pos s1" using 1(3) by (simp add: cursor_def)
    ultimately have "write_pos s1 - read_pos s1 < write_pos s - read_pos s" using 1(4) True by linarith
    from less(1) [OF this 1(3)] True 1(1,2) show ?thesis
      by (subst loop_while.simps) (auto simp: returns_iff intro: moved_trans)
  qed
qed

section \<open>Steps that refuse\<close>

definition refuses :: "mem \<Rightarrow> (stringaa \<Rightarrow> (bool \<times> stringaa) option) \<Rightarrow> bool" where
  "refuses m f \<longleftrightarrow> (\<forall>s. cursor m s \<longrightarrow> returns (f s) (\<lambda>(b, s'). \<not> b \<and> moved s s'))"

named_theorems refuses_rules \<open>steps that return and refuse\<close>

lemma refuses_at_once: "(\<And>s. f s = Some (False, s)) \<Longrightarrow> refuses m f"
  by (simp add: refuses_def)

lemma refuses_attempt [refuses_rules]:
  assumes "moves m f"
  shows "refuses m (\<lambda>s. do { s \<leftarrow> attempt f s; Some (False, s) })"
  using attempt_moved [OF assms] by (fastforce simp: refuses_def returns_iff)

lemma refuses_then [refuses_rules]:
  assumes "moves m f" and "refuses m (chain fs)"
  shows "refuses m (chain (f # fs))"
  unfolding refuses_def
proof (intro allI impI)
  fix s
  assume c: "cursor m s"
  from movesE [OF assms(1) c] obtain b s1 where 1: "f s = Some (b, s1)" "moved s s1" "cursor m s1" .
  with assms(2) obtain s2 where "chain fs s1 = Some (False, s2)" "moved s1 s2" by (auto simp: refuses_def returns_iff)
  with 1 show "returns (chain (f # fs) s) (\<lambda>(b, s'). \<not> b \<and> moved s s')" by (auto intro: moved_trans)
qed

lemma refuses_last [refuses_rules]: "refuses m f \<Longrightarrow> refuses m (chain [f])"
  by (fastforce simp: refuses_def returns_iff)

lemma bytes_plain: "c_tolower NUL \<notin> set ''bytes''" "c_tolower NUL \<notin> set ''none''"
  by code_simp+

lemma refuses_range: "refuses m (http11_header_range m)"
proof -
  have "refuses m (http11_byte_range_set m)"
    unfolding refuses_def
  proof (intro allI impI)
    fix s
    assume c: "cursor m s"
    have "advances m (\<lambda>s. do { (b, s) \<leftarrow> http11_byte_range_spec m s;
        if b then Some (True, s) else http11_suffix_byte_range_spec m s })"
      unfolding http11_byte_range_spec_def http11_suffix_byte_range_spec_def
      by (intro advances_rules moves_rules) simp
    from loop_while_ends [OF this c] show "returns (http11_byte_range_set m s) (\<lambda>(b, s'). \<not> b \<and> moved s s')"
      by (auto simp: http11_byte_range_set_def returns_iff)
  qed
  then show ?thesis
    unfolding http11_header_range_def http11_bytes_unit_def by (intro refuses_rules moves_rules bytes_plain)
qed

text \<open>The loop of \<open>http11_header_accept_ranges\<close> takes every token, so that \<open>none\<close> is not there when it is looked
  for.\<close>

lemma tolower_n: "c_tolower c = CHR ''n'' \<Longrightarrow> TOKEN_CHARS c"
proof -
  assume c: "c_tolower c = CHR ''n''"
  then have "of_char (c_tolower c) = (of_char (CHR ''n'') :: nat)" by simp
  then have "of_char c = (of_char (CHR ''n'') :: nat) \<or> of_char c = (of_char (CHR ''N'') :: nat)"
    by (simp add: of_char_tolower split: if_splits)
  then have "c = CHR ''n'' \<or> c = CHR ''N''" by (simp only: of_char_eq_iff)
  then show "TOKEN_CHARS c" by (auto simp: TOKEN_CHARS_def cclass range_defs)
qed

lemma refuses_accept_ranges: "refuses m (http11_header_accept_ranges m)"
  unfolding refuses_def
proof (intro allI impI)
  fix s
  assume c: "cursor m s"
  have adv: "advances m (http11_range_unit m)"
    unfolding http11_range_unit_def http11_bytes_unit_def
    by (intro advances_rules bytes_plain) simp
  from loop_while_ends [OF adv c] obtain s1 s0 where 1: "loop_while (http11_range_unit m) s = Some s1" "moved s s1"
      "cursor m s0" "http11_range_unit m s0 = Some (False, s1)"
    by (auto simp: returns_iff)
  have c1: "cursor m s1" using moved_cursor [OF 1(2) c] .
  have "moves m (\<lambda>s. do { (b, s) \<leftarrow> http11_bytes_unit m s; if b then Some (True, s) else http11_token m s })"
    unfolding http11_bytes_unit_def by (intro advances_moves advances_rules bytes_plain) simp
  from rewind_cases [OF this 1(3)] 1(4) have s0: "s0 = s1" by (auto simp: http11_range_unit_def)
  let ?xs = "map c_tolower (drop (read_pos s1) (chars m s1))"
  have "common ''none'' ?xs \<noteq> 4"
  proof
    assume "common ''none'' ?xs = 4"
    then obtain c cs where xs: "drop (read_pos s1) (chars m s1) = c # cs" "c_tolower c = CHR ''n''"
      by (cases "drop (read_pos s1) (chars m s1)") (auto split: if_splits)
    then have "peek (chars m s1) (read_pos s1) = c" by (metis drop_eq_Nil2 hd_drop_conv_nth list.discI list.sel(1) not_le peek_def)
    with tolower_n [OF xs(2)] have "http11_token m s1 = Some (True, s1\<lparr>read_pos := run_end TOKEN_CHARS (chars m s1) (read_pos s1)\<rparr>)"
      using http11_token_eq [OF c1] by simp
    moreover have "common ''bytes'' ?xs = 0" using xs by simp
    then have "http11_bytes_unit m s1 = Some (False, s1)"
      using word_eq [where f = c_tolower and w = "''bytes''", OF c1 bytes_plain(1)] by (simp add: http11_bytes_unit_def)
    ultimately show False using 1(4) s0 by (simp add: http11_range_unit_def rewind_def)
  qed
  then obtain s2 where "word c_tolower ''none'' m s1 = Some (False, s2)"
    using word_eq [where f = c_tolower and w = "''none''", OF c1 bytes_plain(2)] by (simp add: Let_def)
  moreover have "moves m (word c_tolower ''none'' m)" by (intro moves_rules bytes_plain)
  then have "moved s1 s2" using movesE [OF _ c1, of "word c_tolower ''none'' m"] calculation by force
  ultimately show "returns (http11_header_accept_ranges m s) (\<lambda>(b, s'). \<not> b \<and> moved s s')"
    using 1(1,2) by (auto simp: http11_header_accept_ranges_def intro: moved_trans)
qed

lemma refuses_vary: "refuses m (http11_header_vary m)"
  unfolding refuses_def
proof (intro allI impI)
  fix s
  assume c: "cursor m s"
  from movesE [OF moves_sign c, of "CHR ''*''"] obtain b s1 where
    1: "sign (CHR ''*'') m s = Some (b, s1)" "moved s s1" "cursor m s1" .
  have "advances m (http11_field_name m)" unfolding http11_field_name_def by (intro advances_rules)
  from loop_while_ends [OF this 1(3)] obtain s2 where "loop_while (http11_field_name m) s1 = Some s2" "moved s1 s2"
    by (auto simp: returns_iff)
  with 1 show "returns (http11_header_vary m s) (\<lambda>(b, s'). \<not> b \<and> moved s s')"
    by (auto simp: http11_header_vary_def intro: moved_trans)
qed

lemma moves_digit_run [moves_rules]: "moves m (digit_run m)"
  by (rule movesI) (auto simp: digit_run_def cursor_def scan_while_eq [where P = HTTP11_DIGIT, OF _ digit_NUL refl] run_end_ge Let_def
      intro!: cursor_run [where P = HTTP11_DIGIT])

lemma refuses_delta_seconds: "refuses m (http11_delta_seconds m)"
  unfolding refuses_def
  by (auto simp: http11_delta_seconds_def cursor_def scan_while_eq [where P = HTTP11_DIGIT, OF _ digit_NUL refl] run_end_ge
      intro!: cursor_run [where P = HTTP11_DIGIT])

lemma refuses_moves: "refuses m f \<Longrightarrow> moves m f"
  by (fastforce simp: refuses_def moves_def returns_iff)

lemma moves_date [moves_rules]: "moves m (http11_date m)"
proof (rule movesI)
  fix s
  assume c: "cursor m s"
  with http11_date_run [OF c] show "returns (http11_date m s) (\<lambda>(b, s'). moved s s')"
    by (auto simp: returns_iff split: if_splits)
qed

lemma refuses_retry_after: "refuses m (http11_header_retry_after m)"
  unfolding refuses_def
proof (intro allI impI)
  fix s
  assume c: "cursor m s"
  from movesE [OF moves_date c] obtain b s1 where 1: "http11_date m s = Some (b, s1)" "moved s s1" "cursor m s1" .
  from attempt_moved [OF refuses_moves [OF refuses_delta_seconds] 1(3)] obtain s2 where
    "attempt (http11_delta_seconds m) s1 = Some s2" "moved s1 s2" by (auto simp: returns_iff)
  with 1 show "returns (http11_header_retry_after m s) (\<lambda>(b, s'). \<not> b \<and> moved s s')"
    by (auto simp: http11_header_retry_after_def intro: moved_trans)
qed

text \<open>The parsers that run the URI parser on a struct that is zero.\<close>

lemma zero_uri: "uri_ok m uriaa_zero"
  by (simp add: uri_ok_def cursor_def readable_def uriaa_zero_def stringaa_zero_def parts_def view_of_def load_n_def)

lemma zero_absolute: "absoluteURI m uriaa_zero = Some (False, uriaa_zero)"
proof -
  have "cursor m (u_uri uriaa_zero)" using zero_uri by (simp add: uri_ok_def)
  moreover have "chars m (u_uri uriaa_zero) = []" by (simp add: chars_def uriaa_zero_def stringaa_zero_def load_n_def)
  moreover have "u_pos uriaa_zero = 0" by (simp add: u_pos_def uriaa_zero_def stringaa_zero_def)
  ultimately show ?thesis
    by (simp add: absoluteURI_def scheme_def Let_def cursor_def u_pos_def set_u_pos_def)
qed

lemma zero_returns: "\<exists>b u. host m uriaa_zero = Some (b, u)" "absolute_or_relative m = Some ()"
  using host_c.no_fault [OF zero_uri] relativeURI_c.no_fault [OF zero_uri, of m]
  by (auto simp: absolute_or_relative_def zero_absolute)

lemma refuses_uris: "refuses m (http11_header_host m)" "refuses m (http11_header_referer m)"
  "refuses m (http11_header_content_location m)" "refuses m (http11_header_location m)"
  using zero_returns [of m] zero_absolute [of m]
  by (auto intro!: refuses_at_once simp: http11_header_host_def http11_host_def http11_header_referer_def
      http11_header_content_location_def http11_header_location_def)

section \<open>The verdicts\<close>

text \<open>The parsers of the values of all 47 headers: those that never return, those that return and refuse, those
  that refuse when they return, and those that can accept.\<close>

definition endless_values :: "mem \<Rightarrow> (stringaa \<Rightarrow> (bool \<times> stringaa) option) list" where
  "endless_values m = [http11_header_cache_control m, http11_header_connection m, http11_header_pragma m,
     http11_header_trailer m, http11_header_transfer_encoding m, http11_header_upgrade m, http11_header_via m,
     http11_header_warning m, http11_header_accept m, http11_header_accept_charset m,
     http11_header_accept_encoding m, http11_header_accept_language m, http11_header_expect m,
     http11_header_user_agent m, http11_header_content_encoding, http11_header_content_language m,
     http11_header_proxy_authenticate, http11_header_server m]"

definition refused_values :: "mem \<Rightarrow> (stringaa \<Rightarrow> (bool \<times> stringaa) option) list" where
  "refused_values m = [http11_header_authorization, http11_header_from, http11_header_host m,
     http11_header_if_unmodified_since m, http11_header_max_forwards m, http11_header_proxy_authorization,
     http11_header_range m, http11_header_referer m, http11_header_allow m, http11_header_content_location m,
     http11_header_content_md5, http11_header_content_range m, http11_header_accept_ranges m, http11_header_age m,
     http11_header_location m, http11_header_retry_after m, http11_header_vary m, http11_header_www_authenticate]"

definition unaccepted_values :: "mem \<Rightarrow> (stringaa \<Rightarrow> (bool \<times> stringaa) option) list" where
  "unaccepted_values m = [http11_header_if_match m, http11_header_if_none_match m, http11_header_if_range m,
     http11_header_te m, http11_header_content_type m, http11_header_etag m]"

definition accepted_values :: "mem \<Rightarrow> (stringaa \<Rightarrow> (bool \<times> stringaa) option) list" where
  "accepted_values m = [http11_header_date m, http11_header_if_modified_since m, http11_header_expires m,
     http11_header_last_modified m, http11_header_content_length m]"

lemma all_values: "length (endless_values m @ refused_values m @ unaccepted_values m @ accepted_values m) =
    length http11_general_header_array + length http11_request_header_array + length http11_entity_header_array
      + length http11_response_header_array"
  by (simp add: endless_values_def refused_values_def unaccepted_values_def accepted_values_def
      http11_general_header_array_def http11_request_header_array_def http11_entity_header_array_def
      http11_response_header_array_def)

lemmas endless_defs = http11_header_cache_control_def http11_header_connection_def http11_header_pragma_def
  http11_header_trailer_def http11_header_transfer_encoding_def http11_header_upgrade_def http11_header_via_def
  http11_header_warning_def http11_header_accept_def http11_header_accept_charset_def
  http11_header_accept_encoding_def http11_header_accept_language_def http11_header_expect_def
  http11_header_user_agent_def http11_header_content_encoding_def http11_header_content_language_def
  http11_header_proxy_authenticate_def http11_header_server_def

lemma refuses_trivially: "refuses m http11_header_authorization" "refuses m http11_header_from"
  "refuses m http11_header_proxy_authorization" "refuses m http11_header_content_md5"
  "refuses m http11_header_www_authenticate"
  by (auto intro!: refuses_at_once simp: http11_header_authorization_def http11_credentials_def http11_header_from_def
      http11_mailbox_def http11_header_proxy_authorization_def http11_header_content_md5_def
      http11_header_www_authenticate_def http11_challenge_def attempt_def)

lemma refuses_attempts: "refuses m (http11_header_if_unmodified_since m)" "refuses m (http11_header_max_forwards m)"
  "refuses m (http11_header_age m)"
  unfolding http11_header_if_unmodified_since_def [abs_def] http11_header_max_forwards_def [abs_def] http11_header_age_def
  by (rule refuses_attempt moves_date moves_digit refuses_delta_seconds)+

lemma refuses_never: "refuses m (http11_header_allow m)" "refuses m (http11_header_content_range m)"
  by (simp_all add: refuses_def http11_header_allow_never http11_header_content_range_never)

lemmas unaccepted_defs = http11_header_if_match_def http11_header_if_none_match_def http11_header_if_range_def
  http11_header_te_def http11_header_content_type_def http11_header_etag_def

text \<open>C33: of the parsers of the values of all 47 headers, 18 never return, on no data; 18 return within the data
  and refuse whatever they get; 6 refuse whenever they return; only those of Date, If-Modified-Since, Expires,
  Last-Modified and Content-Length can accept, and they return on any data.\<close>

theorem header_value_verdicts:
  assumes "cursor m s"
  shows "list_all (\<lambda>f. f s = None) (endless_values m)
    \<and> list_all (\<lambda>f. returns (f s) (\<lambda>(b, s'). \<not> b \<and> moved s s')) (refused_values m)
    \<and> list_all (\<lambda>f. case f s of None \<Rightarrow> True | Some (b, s') \<Rightarrow> \<not> b) (unaccepted_values m)
    \<and> list_all (\<lambda>f. returns (f s) (\<lambda>(b, s'). moved s s')) (accepted_values m)"
proof (intro conjI)
  show "list_all (\<lambda>f. f s = None) (endless_values m)"
    by (simp add: endless_values_def endless_defs forever_None)
  have "refuses m f" if "f \<in> set (refused_values m)" for f
    using that refuses_trivially refuses_attempts refuses_never refuses_uris refuses_range refuses_accept_ranges
      refuses_retry_after refuses_vary
    by (auto simp: refused_values_def)
  with assms show "list_all (\<lambda>f. returns (f s) (\<lambda>(b, s'). \<not> b \<and> moved s s')) (refused_values m)"
    by (simp add: list_all_iff refuses_def)
  show "list_all (\<lambda>f. case f s of None \<Rightarrow> True | Some (b, s') \<Rightarrow> \<not> b) (unaccepted_values m)"
    by (simp add: unaccepted_values_def unaccepted_defs forever_None split: bind_splits prod.split option.split)
  have "moves m f" if "f \<in> set (accepted_values m)" for f
    using that by (auto simp: accepted_values_def http11_header_date_def http11_header_if_modified_since_def
        http11_header_expires_def http11_header_last_modified_def http11_header_content_length_def intro: moves_date moves_digit_run)
  with assms show "list_all (\<lambda>f. returns (f s) (\<lambda>(b, s'). moved s s')) (accepted_values m)"
    by (simp add: list_all_iff moves_def)
qed

lemma header_value_verdicts_witness:
  "list_all (\<lambda>f. f (string_at 0 5) = None) (endless_values (memory_of [''close'']))
    \<and> list_all (\<lambda>f. returns (f (string_at 0 5)) (\<lambda>(b, s'). \<not> b \<and> moved (string_at 0 5) s')) (refused_values (memory_of [''close'']))"
  using header_value_verdicts [of "memory_of [''close'']" "string_at 0 5"] by (simp add: cursor_def)

end
