(* ===== verification/Http_Codes.thy ===== *)
theory Http_Codes
  imports Http_Tables
begin

text \<open>
  The enumerations of \<open>src/http/httpaa_arrays.h\<close> that name the positions of the headers in the array of a
  request, and the status codes with their positions in the tables.  \<open>enum\<close> constants are constructors, their
  values a function.
\<close>

section \<open>Positions of headers\<close>

datatype http11_general_header_index =
  http11_general_header_cache_control | http11_general_header_connection | http11_general_header_date
  | http11_general_header_pragma | http11_general_header_trailer
  | http11_general_header_transfer_encoding | http11_general_header_upgrade | http11_general_header_via
  | http11_general_header_warning

primrec general_header_value :: "http11_general_header_index \<Rightarrow> nat" where
  "general_header_value http11_general_header_cache_control = HTTP11_GENERAL_HEADER_ARRAY_START"
| "general_header_value http11_general_header_connection = HTTP11_GENERAL_HEADER_ARRAY_START + 1"
| "general_header_value http11_general_header_date = HTTP11_GENERAL_HEADER_ARRAY_START + 2"
| "general_header_value http11_general_header_pragma = HTTP11_GENERAL_HEADER_ARRAY_START + 3"
| "general_header_value http11_general_header_trailer = HTTP11_GENERAL_HEADER_ARRAY_START + 4"
| "general_header_value http11_general_header_transfer_encoding = HTTP11_GENERAL_HEADER_ARRAY_START + 5"
| "general_header_value http11_general_header_upgrade = HTTP11_GENERAL_HEADER_ARRAY_START + 6"
| "general_header_value http11_general_header_via = HTTP11_GENERAL_HEADER_ARRAY_START + 7"
| "general_header_value http11_general_header_warning = HTTP11_GENERAL_HEADER_ARRAY_START + 8"

datatype http11_request_header_index =
  http11_request_header_accept | http11_request_header_accept_charset
  | http11_request_header_accept_encoding | http11_request_header_accept_language
  | http11_request_header_authorization | http11_request_header_expect | http11_request_header_from
  | http11_request_header_host | http11_request_header_if_match
  | http11_request_header_if_modified_since | http11_request_header_if_none_match
  | http11_request_header_if_range | http11_request_header_if_unmodified_since
  | http11_request_header_max_forwards | http11_request_header_proxy_authorization
  | http11_request_header_range | http11_request_header_referer | http11_request_header_te
  | http11_request_header_user_agent

primrec request_header_value :: "http11_request_header_index \<Rightarrow> nat" where
  "request_header_value http11_request_header_accept = HTTP11_REQUEST_HEADER_ARRAY_START"
| "request_header_value http11_request_header_accept_charset = HTTP11_REQUEST_HEADER_ARRAY_START + 1"
| "request_header_value http11_request_header_accept_encoding = HTTP11_REQUEST_HEADER_ARRAY_START + 2"
| "request_header_value http11_request_header_accept_language = HTTP11_REQUEST_HEADER_ARRAY_START + 3"
| "request_header_value http11_request_header_authorization = HTTP11_REQUEST_HEADER_ARRAY_START + 4"
| "request_header_value http11_request_header_expect = HTTP11_REQUEST_HEADER_ARRAY_START + 5"
| "request_header_value http11_request_header_from = HTTP11_REQUEST_HEADER_ARRAY_START + 6"
| "request_header_value http11_request_header_host = HTTP11_REQUEST_HEADER_ARRAY_START + 7"
| "request_header_value http11_request_header_if_match = HTTP11_REQUEST_HEADER_ARRAY_START + 8"
| "request_header_value http11_request_header_if_modified_since = HTTP11_REQUEST_HEADER_ARRAY_START + 9"
| "request_header_value http11_request_header_if_none_match = HTTP11_REQUEST_HEADER_ARRAY_START + 10"
| "request_header_value http11_request_header_if_range = HTTP11_REQUEST_HEADER_ARRAY_START + 11"
| "request_header_value http11_request_header_if_unmodified_since = HTTP11_REQUEST_HEADER_ARRAY_START + 12"
| "request_header_value http11_request_header_max_forwards = HTTP11_REQUEST_HEADER_ARRAY_START + 13"
| "request_header_value http11_request_header_proxy_authorization = HTTP11_REQUEST_HEADER_ARRAY_START + 14"
| "request_header_value http11_request_header_range = HTTP11_REQUEST_HEADER_ARRAY_START + 15"
| "request_header_value http11_request_header_referer = HTTP11_REQUEST_HEADER_ARRAY_START + 16"
| "request_header_value http11_request_header_te = HTTP11_REQUEST_HEADER_ARRAY_START + 17"
| "request_header_value http11_request_header_user_agent = HTTP11_REQUEST_HEADER_ARRAY_START + 18"

datatype http11_entity_header_index =
  http11_entity_header_allow | http11_entity_header_content_encoding
  | http11_entity_header_content_language | http11_entity_header_content_length
  | http11_entity_header_content_location | http11_entity_header_content_md5
  | http11_entity_header_content_range | http11_entity_header_content_type
  | http11_entity_header_expires | http11_entity_header_last_modified

primrec entity_header_value :: "http11_entity_header_index \<Rightarrow> nat" where
  "entity_header_value http11_entity_header_allow = HTTP11_ENTITY_HEADER_ARRAY_START"
| "entity_header_value http11_entity_header_content_encoding = HTTP11_ENTITY_HEADER_ARRAY_START + 1"
| "entity_header_value http11_entity_header_content_language = HTTP11_ENTITY_HEADER_ARRAY_START + 2"
| "entity_header_value http11_entity_header_content_length = HTTP11_ENTITY_HEADER_ARRAY_START + 3"
| "entity_header_value http11_entity_header_content_location = HTTP11_ENTITY_HEADER_ARRAY_START + 4"
| "entity_header_value http11_entity_header_content_md5 = HTTP11_ENTITY_HEADER_ARRAY_START + 5"
| "entity_header_value http11_entity_header_content_range = HTTP11_ENTITY_HEADER_ARRAY_START + 6"
| "entity_header_value http11_entity_header_content_type = HTTP11_ENTITY_HEADER_ARRAY_START + 7"
| "entity_header_value http11_entity_header_expires = HTTP11_ENTITY_HEADER_ARRAY_START + 8"
| "entity_header_value http11_entity_header_last_modified = HTTP11_ENTITY_HEADER_ARRAY_START + 9"

datatype http11_response_header_index =
  http11_response_header_accept_ranges | http11_response_header_age | http11_response_header_etag
  | http11_response_header_location | http11_response_header_proxy_authenticate
  | http11_response_header_retry_after | http11_response_header_server | http11_response_header_vary
  | http11_response_header_www_authenticate

primrec response_header_value :: "http11_response_header_index \<Rightarrow> nat" where
  "response_header_value http11_response_header_accept_ranges = HTTP11_RESPONSE_HEADER_ARRAY_START"
| "response_header_value http11_response_header_age = HTTP11_RESPONSE_HEADER_ARRAY_START + 1"
| "response_header_value http11_response_header_etag = HTTP11_RESPONSE_HEADER_ARRAY_START + 2"
| "response_header_value http11_response_header_location = HTTP11_RESPONSE_HEADER_ARRAY_START + 3"
| "response_header_value http11_response_header_proxy_authenticate = HTTP11_RESPONSE_HEADER_ARRAY_START + 4"
| "response_header_value http11_response_header_retry_after = HTTP11_RESPONSE_HEADER_ARRAY_START + 5"
| "response_header_value http11_response_header_server = HTTP11_RESPONSE_HEADER_ARRAY_START + 6"
| "response_header_value http11_response_header_vary = HTTP11_RESPONSE_HEADER_ARRAY_START + 7"
| "response_header_value http11_response_header_www_authenticate = HTTP11_RESPONSE_HEADER_ARRAY_START + 8"

section \<open>Status codes\<close>

datatype http11_status_code_index =
  http11_status_code_100_Continue | http11_status_code_101_Switching_Protocols
  | http11_status_code_200_OK | http11_status_code_201_Created | http11_status_code_202_Accepted
  | http11_status_code_203_Non_Authoritative_Information | http11_status_code_204_No_Content
  | http11_status_code_205_Reset_Content | http11_status_code_206_Partial_Content
  | http11_status_code_300_Multiple_Choices | http11_status_code_301_Moved_Permanently
  | http11_status_code_302_Found | http11_status_code_303_See_Other
  | http11_status_code_304_Not_Modified | http11_status_code_305_Use_Proxy
  | http11_status_code_307_Temporary_Redirect | http11_status_code_400_Bad_Request
  | http11_status_code_401_Unauthorized | http11_status_code_402_Payment_Required
  | http11_status_code_403_Forbidden | http11_status_code_404_Not_Found
  | http11_status_code_405_Method_Not_Allowed | http11_status_code_406_Not_Acceptable
  | http11_status_code_407_Proxy_Authentication_Required | http11_status_code_408_Request_Time_out
  | http11_status_code_409_Conflict | http11_status_code_410_Gone
  | http11_status_code_411_Length_Required | http11_status_code_412_Precondition_Failed
  | http11_status_code_413_Request_Entity_Too_Large | http11_status_code_414_Request_URI_Too_Large
  | http11_status_code_415_Unsupported_Media_Type
  | http11_status_code_416_Requested_range_not_satisfiable | http11_status_code_417_Expectation_Failed
  | http11_status_code_500_Internal_Server_Error | http11_status_code_501_Not_Implemented
  | http11_status_code_502_Bad_Gateway | http11_status_code_503_Service_Unavailable
  | http11_status_code_504_Gateway_Time_out | http11_status_code_505_HTTP_Version_not_supported

primrec status_code_value :: "http11_status_code_index \<Rightarrow> nat" where
  "status_code_value http11_status_code_100_Continue = 100"
| "status_code_value http11_status_code_101_Switching_Protocols = 101"
| "status_code_value http11_status_code_200_OK = 200"
| "status_code_value http11_status_code_201_Created = 201"
| "status_code_value http11_status_code_202_Accepted = 202"
| "status_code_value http11_status_code_203_Non_Authoritative_Information = 203"
| "status_code_value http11_status_code_204_No_Content = 204"
| "status_code_value http11_status_code_205_Reset_Content = 205"
| "status_code_value http11_status_code_206_Partial_Content = 206"
| "status_code_value http11_status_code_300_Multiple_Choices = 300"
| "status_code_value http11_status_code_301_Moved_Permanently = 301"
| "status_code_value http11_status_code_302_Found = 302"
| "status_code_value http11_status_code_303_See_Other = 303"
| "status_code_value http11_status_code_304_Not_Modified = 304"
| "status_code_value http11_status_code_305_Use_Proxy = 305"
| "status_code_value http11_status_code_307_Temporary_Redirect = 307"
| "status_code_value http11_status_code_400_Bad_Request = 400"
| "status_code_value http11_status_code_401_Unauthorized = 401"
| "status_code_value http11_status_code_402_Payment_Required = 402"
| "status_code_value http11_status_code_403_Forbidden = 403"
| "status_code_value http11_status_code_404_Not_Found = 404"
| "status_code_value http11_status_code_405_Method_Not_Allowed = 405"
| "status_code_value http11_status_code_406_Not_Acceptable = 406"
| "status_code_value http11_status_code_407_Proxy_Authentication_Required = 407"
| "status_code_value http11_status_code_408_Request_Time_out = 408"
| "status_code_value http11_status_code_409_Conflict = 409"
| "status_code_value http11_status_code_410_Gone = 410"
| "status_code_value http11_status_code_411_Length_Required = 411"
| "status_code_value http11_status_code_412_Precondition_Failed = 412"
| "status_code_value http11_status_code_413_Request_Entity_Too_Large = 413"
| "status_code_value http11_status_code_414_Request_URI_Too_Large = 414"
| "status_code_value http11_status_code_415_Unsupported_Media_Type = 415"
| "status_code_value http11_status_code_416_Requested_range_not_satisfiable = 416"
| "status_code_value http11_status_code_417_Expectation_Failed = 417"
| "status_code_value http11_status_code_500_Internal_Server_Error = 500"
| "status_code_value http11_status_code_501_Not_Implemented = 501"
| "status_code_value http11_status_code_502_Bad_Gateway = 502"
| "status_code_value http11_status_code_503_Service_Unavailable = 503"
| "status_code_value http11_status_code_504_Gateway_Time_out = 504"
| "status_code_value http11_status_code_505_HTTP_Version_not_supported = 505"

datatype http11_status_code_key =
  http11_status_code_key_100_Continue | http11_status_code_key_101_Switching_Protocols
  | http11_status_code_key_200_OK | http11_status_code_key_201_Created
  | http11_status_code_key_202_Accepted | http11_status_code_key_203_Non_Authoritative_Information
  | http11_status_code_key_204_No_Content | http11_status_code_key_205_Reset_Content
  | http11_status_code_key_206_Partial_Content | http11_status_code_key_300_Multiple_Choices
  | http11_status_code_key_301_Moved_Permanently | http11_status_code_key_302_Found
  | http11_status_code_key_303_See_Other | http11_status_code_key_304_Not_Modified
  | http11_status_code_key_305_Use_Proxy | http11_status_code_key_307_Temporary_Redirect
  | http11_status_code_key_400_Bad_Request | http11_status_code_key_401_Unauthorized
  | http11_status_code_key_402_Payment_Required | http11_status_code_key_403_Forbidden
  | http11_status_code_key_404_Not_Found | http11_status_code_key_405_Method_Not_Allowed
  | http11_status_code_key_406_Not_Acceptable | http11_status_code_key_407_Proxy_Authentication_Required
  | http11_status_code_key_408_Request_Time_out | http11_status_code_key_409_Conflict
  | http11_status_code_key_410_Gone | http11_status_code_key_411_Length_Required
  | http11_status_code_key_412_Precondition_Failed | http11_status_code_key_413_Request_Entity_Too_Large
  | http11_status_code_key_414_Request_URI_Too_Large | http11_status_code_key_415_Unsupported_Media_Type
  | http11_status_code_key_416_Requested_range_not_satisfiable
  | http11_status_code_key_417_Expectation_Failed | http11_status_code_key_500_Internal_Server_Error
  | http11_status_code_key_501_Not_Implemented | http11_status_code_key_502_Bad_Gateway
  | http11_status_code_key_503_Service_Unavailable | http11_status_code_key_504_Gateway_Time_out
  | http11_status_code_key_505_HTTP_Version_not_supported

primrec status_code_key_value :: "http11_status_code_key \<Rightarrow> nat" where
  "status_code_key_value http11_status_code_key_100_Continue = 0"
| "status_code_key_value http11_status_code_key_101_Switching_Protocols = 1"
| "status_code_key_value http11_status_code_key_200_OK = 2"
| "status_code_key_value http11_status_code_key_201_Created = 3"
| "status_code_key_value http11_status_code_key_202_Accepted = 4"
| "status_code_key_value http11_status_code_key_203_Non_Authoritative_Information = 5"
| "status_code_key_value http11_status_code_key_204_No_Content = 6"
| "status_code_key_value http11_status_code_key_205_Reset_Content = 7"
| "status_code_key_value http11_status_code_key_206_Partial_Content = 8"
| "status_code_key_value http11_status_code_key_300_Multiple_Choices = 9"
| "status_code_key_value http11_status_code_key_301_Moved_Permanently = 10"
| "status_code_key_value http11_status_code_key_302_Found = 11"
| "status_code_key_value http11_status_code_key_303_See_Other = 12"
| "status_code_key_value http11_status_code_key_304_Not_Modified = 13"
| "status_code_key_value http11_status_code_key_305_Use_Proxy = 14"
| "status_code_key_value http11_status_code_key_307_Temporary_Redirect = 15"
| "status_code_key_value http11_status_code_key_400_Bad_Request = 16"
| "status_code_key_value http11_status_code_key_401_Unauthorized = 17"
| "status_code_key_value http11_status_code_key_402_Payment_Required = 18"
| "status_code_key_value http11_status_code_key_403_Forbidden = 19"
| "status_code_key_value http11_status_code_key_404_Not_Found = 20"
| "status_code_key_value http11_status_code_key_405_Method_Not_Allowed = 21"
| "status_code_key_value http11_status_code_key_406_Not_Acceptable = 22"
| "status_code_key_value http11_status_code_key_407_Proxy_Authentication_Required = 23"
| "status_code_key_value http11_status_code_key_408_Request_Time_out = 24"
| "status_code_key_value http11_status_code_key_409_Conflict = 25"
| "status_code_key_value http11_status_code_key_410_Gone = 26"
| "status_code_key_value http11_status_code_key_411_Length_Required = 27"
| "status_code_key_value http11_status_code_key_412_Precondition_Failed = 28"
| "status_code_key_value http11_status_code_key_413_Request_Entity_Too_Large = 29"
| "status_code_key_value http11_status_code_key_414_Request_URI_Too_Large = 30"
| "status_code_key_value http11_status_code_key_415_Unsupported_Media_Type = 31"
| "status_code_key_value http11_status_code_key_416_Requested_range_not_satisfiable = 32"
| "status_code_key_value http11_status_code_key_417_Expectation_Failed = 33"
| "status_code_key_value http11_status_code_key_500_Internal_Server_Error = 34"
| "status_code_key_value http11_status_code_key_501_Not_Implemented = 35"
| "status_code_key_value http11_status_code_key_502_Bad_Gateway = 36"
| "status_code_key_value http11_status_code_key_503_Service_Unavailable = 37"
| "status_code_key_value http11_status_code_key_504_Gateway_Time_out = 38"
| "status_code_key_value http11_status_code_key_505_HTTP_Version_not_supported = 39"

text \<open>The code that a position stands for.\<close>

definition http11_status_codes :: "http11_status_code_index list" where
  "http11_status_codes =
    [http11_status_code_100_Continue, http11_status_code_101_Switching_Protocols
    , http11_status_code_200_OK, http11_status_code_201_Created, http11_status_code_202_Accepted
    , http11_status_code_203_Non_Authoritative_Information, http11_status_code_204_No_Content
    , http11_status_code_205_Reset_Content, http11_status_code_206_Partial_Content
    , http11_status_code_300_Multiple_Choices, http11_status_code_301_Moved_Permanently
    , http11_status_code_302_Found, http11_status_code_303_See_Other
    , http11_status_code_304_Not_Modified, http11_status_code_305_Use_Proxy
    , http11_status_code_307_Temporary_Redirect, http11_status_code_400_Bad_Request
    , http11_status_code_401_Unauthorized, http11_status_code_402_Payment_Required
    , http11_status_code_403_Forbidden, http11_status_code_404_Not_Found
    , http11_status_code_405_Method_Not_Allowed, http11_status_code_406_Not_Acceptable
    , http11_status_code_407_Proxy_Authentication_Required, http11_status_code_408_Request_Time_out
    , http11_status_code_409_Conflict, http11_status_code_410_Gone
    , http11_status_code_411_Length_Required, http11_status_code_412_Precondition_Failed
    , http11_status_code_413_Request_Entity_Too_Large, http11_status_code_414_Request_URI_Too_Large
    , http11_status_code_415_Unsupported_Media_Type
    , http11_status_code_416_Requested_range_not_satisfiable, http11_status_code_417_Expectation_Failed
    , http11_status_code_500_Internal_Server_Error, http11_status_code_501_Not_Implemented
    , http11_status_code_502_Bad_Gateway, http11_status_code_503_Service_Unavailable
    , http11_status_code_504_Gateway_Time_out, http11_status_code_505_HTTP_Version_not_supported]"

end
