(* ===== verification/Worker_Http.thy ===== *)
theory Worker_Http
  imports Work_Queue Http_Request Http_Codes Uri_Resolve Stringaa_Buffer
begin

text \<open>
  The part of a worker that speaks HTTP: \<open>src/worker/workeraa_http.h\<close>, the dispatch \<open>workeraa_func\<close> of
  \<open>src/worker/workeraa_utils.h\<close> and the file names of \<open>src/http/httpaa_work.h\<close>.

  A worker is the record \<open>workeraa\<close>.  Its \<open>p_struct\<close> is the struct \<open>workeraa_http\<close> itself, \<^const>\<open>None\<close> for
  \<open>NULL\<close>; \<open>p_data\<close> only ever points to one of the two buffers of that struct and names it.  A string
  literal and the result of \<open>sprintf\<close> are blocks of their own.
\<close>

unbundle bit_operations_syntax

section \<open>File names\<close>

definition httpaa_work_get_request_file_name :: "mem \<Rightarrow> httpaa \<Rightarrow> (bool \<times> httpaa \<times> mem) option" where
  "httpaa_work_get_request_file_name m http = do {
     (b, f, m) \<leftarrow> stringaa_copy m (request_file_name http) (u_abs_path (request_uri (rline http)));
     (b, f, m) \<leftarrow> (if b then uriaa_remove_segment_point m f else Some (False, f, m));
     (b, f, m) \<leftarrow> (if b then uriaa_remove_segment_points m f else Some (False, f, m));
     Some (b, http\<lparr>request_file_name := f\<rparr>, m) }"

definition httpaa_work_set_response_file_name ::
  "mem \<Rightarrow> httpaa \<Rightarrow> stringaa \<Rightarrow> (bool \<times> httpaa \<times> mem) option" where
  "httpaa_work_set_response_file_name m http path1 = do {
     (b, f, m) \<leftarrow> stringaa_copy m (response_file_name http) path1;
     (b, f, m) \<leftarrow> (if b then stringaa_copy m f (request_file_name http) else Some (False, f, m));
     (b, f, m) \<leftarrow> (if b then uriaa_remove_segment_point m f else Some (False, f, m));
     (b, f, m) \<leftarrow> (if b then uriaa_remove_segment_points m f else Some (False, f, m));
     Some (b, http\<lparr>response_file_name := f\<rparr>, m) }"

definition http11_work_method_get :: "mem \<Rightarrow> httpaa \<Rightarrow> stringaa \<Rightarrow> (bool \<times> httpaa \<times> mem) option" where
  "http11_work_method_get m http path1 = do {
     (b, http, m) \<leftarrow> httpaa_work_get_request_file_name m http;
     if b then httpaa_work_set_response_file_name m http path1 else Some (False, http, m) }"

text \<open>What these two print is left out, but not that printing reads the string.\<close>

definition httpaa_get_filename :: "mem \<Rightarrow> uriaa \<Rightarrow> (bool \<times> uriaa \<times> mem) option" where
  "httpaa_get_filename m u = do {
     _ \<leftarrow> stringaa_fprint_line m (u_abs_path u);
     (_, s, m) \<leftarrow> uriaa_remove_segment_point m (u_abs_path u);
     _ \<leftarrow> stringaa_fprint_line m s;
     (_, s, m) \<leftarrow> uriaa_remove_segment_points m s;
     _ \<leftarrow> stringaa_fprint_line m s;
     Some (False, u\<lparr>u_abs_path := s\<rparr>, m) }"

definition httpaa_build_response :: "mem \<Rightarrow> httpaa \<Rightarrow> (bool \<times> httpaa \<times> mem) option" where
  "httpaa_build_response m http = do {
     (_, u, m) \<leftarrow> httpaa_get_filename m (request_uri (rline http));
     Some (False, set_rline ((rline http)\<lparr>request_uri := u\<rparr>) http, m) }"

section \<open>Structs\<close>

record workeraa_http =
  wh_http :: httpaa
  wh_request :: stringaa
  wh_response :: stringaa
  wh_path :: stringaa
  is_header_recv :: bool
  is_message_recv :: bool
  is_header_send :: bool
  is_message_send :: bool

definition workeraa_http_zero :: workeraa_http where
  "workeraa_http_zero = \<lparr>wh_http = httpaa_zero, wh_request = stringaa_zero, wh_response = stringaa_zero,
     wh_path = stringaa_zero, is_header_recv = False, is_message_recv = False, is_header_send = False,
     is_message_send = False\<rparr>"

datatype http_buffer = Request_Buffer | Response_Buffer

record workeraa =
  p_work :: "nat option"
  p_struct :: "workeraa_http option"
  p_data :: "http_buffer option"
  work_id :: nat

datatype workeraa_func_enum = WORKERAA_FUNC_INIT | WORKERAA_FUNC_RECV_DATA | WORKERAA_FUNC_SEND_DATA
  | WORKERAA_FUNC_GET_RECV_BUFFER | WORKERAA_FUNC_GET_SEND_BUFFER | WORKERAA_FUNC_GET_BUFFER | WORKERAA_FUNC_FREE

definition WORKERAA_WORK_RECV_BUFFER_SIZE_DEFAULT :: nat where "WORKERAA_WORK_RECV_BUFFER_SIZE_DEFAULT = 2 ^ 20"
definition WORKERAA_WORK_SEND_BUFFER_SIZE_DEFAULT :: nat where "WORKERAA_WORK_SEND_BUFFER_SIZE_DEFAULT = 2 ^ 20"

section \<open>Receiving a request\<close>

definition workeraa_http_header :: "mem \<Rightarrow> workeraa \<Rightarrow> (bool \<times> workeraa \<times> mem) option" where
  "workeraa_http_header m w = (case p_struct w of None \<Rightarrow> Some (False, w, m)
     | Some h \<Rightarrow> do {
         (h, m) \<leftarrow> (if \<not> is_header_recv h then do {
             (b, http, s, m) \<leftarrow> httpaa_parse_request_headers m (wh_http h) (wh_request h);
             let h = h\<lparr>wh_http := http, wh_request := s\<rparr>;
             Some (if b then h\<lparr>is_header_recv := True\<rparr> else h, m) }
           else Some (h, m));
         Some (is_header_recv h, w\<lparr>p_struct := Some h\<rparr>, m) })"

definition workeraa_http_message :: "workeraa \<Rightarrow> bool" where
  "workeraa_http_message w = False"

text \<open>The other methods have no code.\<close>

definition workeraa_http_method :: "mem \<Rightarrow> workeraa \<Rightarrow> http11_method_index \<Rightarrow> (bool \<times> workeraa \<times> mem) option" where
  "workeraa_http_method m w k = (case p_struct w of None \<Rightarrow> Some (False, w, m)
     | Some h \<Rightarrow> (case k of
         http11_method_get \<Rightarrow> do {
           (b, http, m) \<leftarrow> http11_work_method_get m (wh_http h) (wh_path h);
           Some (b, w\<lparr>p_struct := Some (h\<lparr>wh_http := http\<rparr>)\<rparr>, m) }
       | _ \<Rightarrow> Some (False, w, m)))"

definition workeraa_http_recv ::
  "mem \<Rightarrow> workeraa \<Rightarrow> socketaa_work list \<Rightarrow> (bool \<times> workeraa \<times> socketaa_work list \<times> mem) option" where
  "workeraa_http_recv m w ws = (case p_struct w of None \<Rightarrow> Some (False, w, ws, m)
     | Some h \<Rightarrow> do {
         (b, w, m) \<leftarrow> workeraa_http_header m w;
         if b then do {
           let k = rl_method (rline (wh_http (the (p_struct w))));
           (_, w, m) \<leftarrow> workeraa_http_method m w k;
           let k = rl_method (rline (wh_http (the (p_struct w))));
           (_, ws) \<leftarrow> (if k = http11_method_get
             then socketaa_set_work_flags (p_work w) (SOCKETAA_WORK_FLAGS_IS_SEND OR SOCKETAA_WORK_FLAGS_IS_SELECT) ws
             else Some (False, ws));
           Some (True, w, ws, m) }
         else Some (workeraa_http_message w, w, ws, m) })"

section \<open>Sending a response\<close>

text \<open>\<open>%zu\<close> and \<open>%d\<close>.\<close>

fun show_nat :: "nat \<Rightarrow> string" where
  "show_nat n = (if n < 10 then [char_of (48 + n)] else show_nat (n div 10) @ [char_of (48 + n mod 10)])"

declare show_nat.simps [simp del]

definition show_int :: "int \<Rightarrow> string" where
  "show_int i = (if i < 0 then CHR ''-'' # show_nat (nat (- i)) else show_nat (nat i))"

text \<open>\<open>stringaa_add_chars(s, "...")\<close>, for a literal or for the buffer of \<open>sprintf\<close>; the result is not tested.\<close>

definition add_literal :: "mem \<Rightarrow> stringaa \<Rightarrow> string \<Rightarrow> (stringaa \<times> mem) option" where
  "add_literal m s cs = (case literal m cs of (p, m) \<Rightarrow> do {
     (_, s, m) \<leftarrow> stringaa_add_chars m s p;
     Some (s, m) })"

definition hello_body :: string where
  "hello_body = ''<html><head><title>Hello</title></head><body><h1>Hello, World!</h1></body></html>''"

definition workeraa_http_create_response :: "mem \<Rightarrow> workeraa \<Rightarrow> (bool \<times> workeraa \<times> mem) option" where
  "workeraa_http_create_response m w = (case p_struct w of None \<Rightarrow> Some (False, w, m)
     | Some h \<Rightarrow> do {
         let resp = http_response (wh_http h);
         let v = \<lparr>major_version = 1, minor_version = 1\<rparr>;
         let r = snd (stringaa_clean (reason_phrase (status_line resp)));
         (r, m) \<leftarrow> add_literal m r (http11_status_code_array ! (status_code_key_value http11_status_code_key_200_OK * 2));
         (r, m) \<leftarrow> add_literal m r '' '';
         (r, m) \<leftarrow> add_literal m r (http11_status_code_array ! (status_code_key_value http11_status_code_key_200_OK * 2 + 1));
         let (p, m) = literal m hello_body;
         (_, b, m) \<leftarrow> stringaa_set_chars m (response_body resp) p;
         let s = snd (stringaa_clean (wh_response h));
         (s, m) \<leftarrow> add_literal m s (''HTTP/'' @ show_int (major_version v) @ ''.'' @ show_int (minor_version v) @ '' '');
         (_, s, m) \<leftarrow> stringaa_add m s r;
         (s, m) \<leftarrow> add_literal m s [CR, LF];
         (s, m) \<leftarrow> add_literal m s (http11_entity_header_original_array ! (entity_header_value http11_entity_header_content_length - HTTP11_ENTITY_HEADER_ARRAY_START));
         (s, m) \<leftarrow> add_literal m s ('': '' @ show_nat (write_pos b) @ [CR, LF]);
         (s, m) \<leftarrow> add_literal m s [CR, LF];
         (_, s, m) \<leftarrow> stringaa_add m s b;
         let resp = resp\<lparr>status_line := \<lparr>status_http_version = v, reason_phrase = r\<rparr>, response_body := b\<rparr>;
         Some (True, w\<lparr>p_struct := Some (h\<lparr>wh_http := (wh_http h)\<lparr>http_response := resp\<rparr>, wh_response := s\<rparr>)\<rparr>, m) })"

text \<open>No branch sets the result.\<close>

definition workeraa_http_send :: "mem \<Rightarrow> workeraa \<Rightarrow> (bool \<times> workeraa \<times> mem) option" where
  "workeraa_http_send m w = (case p_struct w of None \<Rightarrow> Some (False, w, m)
     | Some h \<Rightarrow> if \<not> is_header_send h
         then do {
           (b, w, m) \<leftarrow> workeraa_http_create_response m w;
           Some (False, if b then w\<lparr>p_struct := map_option (is_header_send_update (\<lambda>_. True)) (p_struct w)\<rparr> else w, m) }
         else Some (False, w, m))"

section \<open>Construction, buffers, dispatch\<close>

definition workeraa_http_free :: "workeraa \<Rightarrow> bool \<times> workeraa" where
  "workeraa_http_free w = (True, w\<lparr>p_struct := None\<rparr>)"

text \<open>A buffer is allocated once and cleaned after that.\<close>

definition init_buffer :: "mem \<Rightarrow> stringaa \<Rightarrow> nat \<Rightarrow> (stringaa \<times> mem) option" where
  "init_buffer m s n = (if \<not> is_init s
     then do {
       (b, s, m) \<leftarrow> stringaa_malloc m s n;
       Some (if b then s\<lparr>is_init := True\<rparr> else s, m) }
     else Some (snd (stringaa_clean s), m))"

text \<open>\<open>alloc\<close> says whether \<open>malloc\<close> gives the struct.  The flags of a struct that exists are kept.\<close>

definition workeraa_http_init :: "bool \<Rightarrow> mem \<Rightarrow> workeraa \<Rightarrow> (bool \<times> workeraa \<times> mem) option" where
  "workeraa_http_init alloc m w = (let p = (case p_struct w of
       None \<Rightarrow> if alloc then Some workeraa_http_zero else None | Some h \<Rightarrow> Some h)
     in case p of None \<Rightarrow> Some (True, w, m)
     | Some h \<Rightarrow> do {
         (r, m) \<leftarrow> init_buffer m (wh_request h) WORKERAA_WORK_RECV_BUFFER_SIZE_DEFAULT;
         (s, m) \<leftarrow> init_buffer m (wh_response h) WORKERAA_WORK_SEND_BUFFER_SIZE_DEFAULT;
         Some (True, w\<lparr>p_struct := Some (h\<lparr>wh_request := r, wh_response := s\<rparr>)\<rparr>, m) })"

definition workeraa_http_get_buffer :: "workeraa \<Rightarrow> workeraa_func_enum \<Rightarrow> bool \<times> workeraa" where
  "workeraa_http_get_buffer w k = (case p_struct w of None \<Rightarrow> (False, w)
     | Some h \<Rightarrow> (case k of
         WORKERAA_FUNC_GET_RECV_BUFFER \<Rightarrow> (True, w\<lparr>p_data := Some Request_Buffer\<rparr>)
       | WORKERAA_FUNC_GET_SEND_BUFFER \<Rightarrow> (True, w\<lparr>p_data := Some Response_Buffer\<rparr>)
       | _ \<Rightarrow> (False, w)))"

definition workeraa_http_func :: "bool \<Rightarrow> mem \<Rightarrow> workeraa \<Rightarrow> socketaa_work list \<Rightarrow> workeraa_func_enum \<Rightarrow>
    (bool \<times> workeraa \<times> socketaa_work list \<times> mem) option" where
  "workeraa_http_func alloc m w ws k = (case k of
       WORKERAA_FUNC_INIT \<Rightarrow> do { (b, w, m) \<leftarrow> workeraa_http_init alloc m w; Some (b, w, ws, m) }
     | WORKERAA_FUNC_RECV_DATA \<Rightarrow> workeraa_http_recv m w ws
     | WORKERAA_FUNC_SEND_DATA \<Rightarrow> do { (b, w, m) \<leftarrow> workeraa_http_send m w; Some (b, w, ws, m) }
     | WORKERAA_FUNC_FREE \<Rightarrow> (case workeraa_http_free w of (b, w) \<Rightarrow> Some (b, w, ws, m))
     | _ \<Rightarrow> (case workeraa_http_get_buffer w k of (b, w) \<Rightarrow> Some (b, w, ws, m)))"

definition WORKERAA_HTTP_PORT :: nat where "WORKERAA_HTTP_PORT = 80"
definition WORKERAA_HTTP_DEBUG_PORT :: nat where "WORKERAA_HTTP_DEBUG_PORT = 8080"
definition WORKERAA_HTTPS_PORT :: nat where "WORKERAA_HTTPS_PORT = 443"
definition WORKERAA_HTTPS_DEBUG_PORT :: nat where "WORKERAA_HTTPS_DEBUG_PORT = 8443"

definition workeraa_func :: "bool \<Rightarrow> mem \<Rightarrow> workeraa \<Rightarrow> socketaa_work list \<Rightarrow> workeraa_func_enum \<Rightarrow>
    (bool \<times> workeraa \<times> socketaa_work list \<times> mem) option" where
  "workeraa_func alloc m w ws k =
     (if work_id w \<in> {WORKERAA_HTTP_PORT, WORKERAA_HTTP_DEBUG_PORT, WORKERAA_HTTPS_PORT, WORKERAA_HTTPS_DEBUG_PORT}
      then workeraa_http_func alloc m w ws k else Some (False, w, ws, m))"

end
