(* ===== verification/Http_Print.thy ===== *)
theory Http_Print
  imports Http_Request_Proofs Worker_Http
begin

text \<open>
  Printing: \<open>httpaa_print\<close> of \<open>src/http/httpaa_utils.h\<close> and \<open>uriaa_print\<close> of \<open>src/url/uriaa_utils.h\<close>, whose
  results are the result code and the bytes put on the standard output.  The proofs compare what is printed of
  a request with the text it was parsed from, and the names of the headers with the positions that the
  enumerations give them.
\<close>

section \<open>Operations\<close>

definition header_original_name :: "nat \<Rightarrow> string" where
  "header_original_name i =
     (if i < HTTP11_ENTITY_HEADER_ARRAY_START then http11_general_header_original_array ! i
      else if i < HTTP11_REQUEST_HEADER_ARRAY_START
      then http11_entity_header_original_array ! (i - HTTP11_ENTITY_HEADER_ARRAY_START)
      else http11_request_header_original_array ! (i - HTTP11_REQUEST_HEADER_ARRAY_START))"

text \<open>The loop over the headers, up to \<open>n\<close>.\<close>

function print_headers :: "mem \<Rightarrow> httpaa \<Rightarrow> nat \<Rightarrow> nat \<Rightarrow> char list option" where
  "print_headers m http n i = (if i < n
     then do {
       cs \<leftarrow> (if is_init (headers http ! i)
         then do {
           (_, v) \<leftarrow> stringaa_print m (headers http ! i);
           Some (header_original_name i @ '' ('' @ show_int (int i) @ '')'' @ v @ [LF]) }
         else Some []);
       ds \<leftarrow> print_headers m http n (i + 1);
       Some (cs @ ds) }
     else Some [])"
  by pat_completeness auto
termination
  by (relation "measure (\<lambda>(m, http, n, i). n - i)") auto

declare print_headers.simps [simp del]

definition httpaa_print :: "mem \<Rightarrow> httpaa \<Rightarrow> (int \<times> char list) option" where
  "httpaa_print m http = do {
     let l = rline http;
     (_, url) \<leftarrow> stringaa_print m (u_uri (request_uri l));
     hs \<leftarrow> print_headers m http (9 + 19 + 10) HTTP11_GENERAL_HEADER_ARRAY_START;
     Some (0, ''Method: '' @ http11_method_array ! method_value (rl_method l) @ [LF]
       @ ''URL: '' @ url @ [LF]
       @ ''HTTP version: '' @ show_int (major_version (http_version l)) @ ''.''
         @ show_int (minor_version (http_version l)) @ [LF] @ hs) }"

definition print_part :: "mem \<Rightarrow> string \<Rightarrow> stringaa \<Rightarrow> char list option" where
  "print_part m name x = do { (_, v) \<leftarrow> stringaa_print m x; Some (name @ '' = '' @ v @ [LF]) }"

definition uriaa_print :: "mem \<Rightarrow> uriaa \<Rightarrow> (int \<times> char list) option" where
  "uriaa_print m u = do {
     scheme \<leftarrow> print_part m ''scheme'' (u_scheme u);
     authority \<leftarrow> print_part m ''authority'' (u_authority u);
     userinfo \<leftarrow> print_part m ''userinfo'' (u_userinfo u);
     host \<leftarrow> print_part m ''host'' (u_host u);
     path \<leftarrow> print_part m ''path'' (u_path u);
     net_path \<leftarrow> print_part m ''net_path'' (u_net_path u);
     abs_path \<leftarrow> print_part m ''abs_path'' (u_abs_path u);
     rel_path \<leftarrow> print_part m ''rel_path'' (u_rel_path u);
     opaque_part \<leftarrow> print_part m ''opaque_part'' (u_opaque_part u);
     query \<leftarrow> print_part m ''query'' (u_query u);
     fragment \<leftarrow> print_part m ''fragment'' (u_fragment u);
     Some (1, LF # '' uri'' @ [LF] @ ''--------'' @ [LF] @ scheme @ authority @ userinfo @ host @ path @ net_path
       @ abs_path @ rel_path @ opaque_part @ query @ fragment) }"

text \<open>The lines that \<open>http11_request\<close> itself puts on the standard output: one at its start, one when it has a request
  line.  Nothing that it calls prints.\<close>

definition http11_request_output :: "mem \<Rightarrow> httpaa \<Rightarrow> stringaa \<Rightarrow> char list option" where
  "http11_request_output m http s = do {
     (ok, _) \<leftarrow> http11_request_line m http s;
     Some (''request'' @ [LF] @ (if ok then ''request line'' @ [LF] else [])) }"

section \<open>Names and positions\<close>

lemma line_name_colon:
  assumes "CHR '':'' \<notin> set n" and "CHR '':'' \<notin> set w"
  shows "line_name (n @ CHR '':'' # v) w \<longleftrightarrow> map c_tolower n = w"
proof
  assume l: "line_name (n @ CHR '':'' # v) w"
  have "length w = length n"
  proof (rule ccontr)
    assume "length w \<noteq> length n"
    then consider "length w < length n" | "length n < length w" by linarith
    then show False
    proof cases
      case 1
      with l have "n ! length w = CHR '':''" by (simp add: line_name_def nth_append)
      with 1 assms(1) show False by (metis nth_mem)
    next
      case 2
      with l have "w ! length n = c_tolower (CHR '':'')"
        by (auto simp: line_name_def nth_append dest!: arg_cong [where f = "\<lambda>w. w ! length n"])
      with 2 assms(2) show False by (metis nth_mem tolower_colon)
    qed
  qed
  with l show "map c_tolower n = w" by (simp add: line_name_def)
qed (auto simp: line_name_def)

lemma header_names_plain: "(k, w) \<in> set header_names \<Longrightarrow> CHR '':'' \<notin> set w"
  unfolding header_names_def header_tables by auto

lemma line_header_colon:
  assumes "CHR '':'' \<notin> set n"
  shows "line_header (n @ CHR '':'' # v) = List.find (\<lambda>(k, w). w = map c_tolower n) header_names"
  unfolding line_header_def
  by (rule find_cong) (use line_name_colon [OF assms header_names_plain] in fastforce)

lemma find_entry:
  "distinct (map snd xs) \<Longrightarrow> (k, w) \<in> set xs \<Longrightarrow> List.find (\<lambda>(k, v). v = w) xs = Some (k, w)"
  by (induction xs) (auto simp: image_iff split: prod.split)

lemma header_names_distinct: "distinct (map snd header_names)"
  unfolding header_names_def header_tables by simp

lemmas original_names = header_original_name_def http11_general_header_original_array_def
  http11_entity_header_original_array_def http11_request_header_original_array_def

lemmas tolower_defs = c_tolower_def range_defs char_of_def bit_iff_odd

text \<open>A line that begins with the name printed for position \<open>i\<close>, in letters of any case, sets the header at \<open>i\<close>.\<close>

definition name_known :: "nat \<Rightarrow> bool" where
  "name_known i \<longleftrightarrow> CHR '':'' \<notin> set (header_original_name i)
     \<and> (i, map c_tolower (header_original_name i)) \<in> set header_names"

lemma line_header_known:
  assumes "name_known i" and "map c_tolower n = map c_tolower (header_original_name i)"
  shows "line_header (n @ CHR '':'' # v) = Some (i, map c_tolower n)"
proof -
  have low: "CHR '':'' \<in> set (map c_tolower w) \<longleftrightarrow> CHR '':'' \<in> set w" for w
    by (induction w) (auto simp: eq_commute [of "CHR '':''"])
  have "CHR '':'' \<notin> set n"
    using assms(1) low [of n] low [of "header_original_name i"] unfolding assms(2) by (simp add: name_known_def)
  then show ?thesis
    using assms by (simp add: name_known_def line_header_colon find_entry [OF header_names_distinct])
qed

lemma general_known: "name_known (general_header_value g)"
  by (cases g) (simp_all add: name_known_def header_names_def header_tables original_names tolower_defs)

lemma request_known: "name_known (request_header_value r)"
  by (cases r) (simp_all add: name_known_def header_names_def header_tables original_names tolower_defs)

lemma entity_known: "name_known (entity_header_value e)"
  by (cases e) (simp_all add: name_known_def header_names_def header_tables original_names tolower_defs)

text \<open>C21: names, tables and positions fit together, in the parser and in the printer.  At a header line whose name is,
  in letters of any case, the one that the printer has for the position \<open>i\<close> of a general, request or entity
  header, and whose rest holds no line end, the condition of the parser's loop, which tries the three kinds in turn,
  succeeds.  It sets the header at \<open>i\<close> to the text behind the name, and no other header; it leaves the
  position at the line end, and the memory as it was.\<close>

theorem header_positions:
  assumes "cursor m s" and "headers_ok http" and "chars m s = pre @ (n @ CHR '':'' # v) @ CR # LF # post"
    and "read_pos s = length pre" and "line_ok (n @ CHR '':'' # v)"
    and "i = general_header_value g \<or> i = request_header_value r \<or> i = entity_header_value e"
    and "map c_tolower n = map c_tolower (header_original_name i)"
  shows "returns (any_header m http s) (\<lambda>(ok, http', s', m'). ok \<and> m' = m
    \<and> drop (read_pos s') (chars m s') = CR # LF # post \<and> chars m (headers http' ! i) = CHR '':'' # v
    \<and> length (headers http') = 38 \<and> (\<forall>j. j \<noteq> i \<longrightarrow> headers http' ! j = headers http ! j))"
proof -
  let ?l = "n @ CHR '':'' # v" and ?q = "length pre + length n" and ?e = "length pre + length (n @ CHR '':'' # v)"
  have "name_known i" using assms(6) general_known request_known entity_known by blast
  from line_header_known [OF this assms(7), of v] have l: "line_header ?l = Some (i, map c_tolower n)" .
  have i: "i < 38" using line_headerD [OF l] by simp
  have find: "header_find (chars m s) (read_pos s) header_names = Some (i, map c_tolower n)"
    unfolding assms(3,4) header_find_line l ..
  have "first_crlf (chars m s) ?q = Some ?e"
    unfolding assms(3) using first_crlf_line [OF assms(5), of "length n" pre post] by simp
  with any_header_eq [OF assms(1,2)] find
  have run: "any_header m http s = Some (True, set_view s (i, ?q, ?e) http, s\<lparr>read_pos := ?e\<rparr>, m)"
    by (simp add: header_result_def Let_def line_end_def assms(4))
  have ok: "readable m s" "?e \<le> write_pos s"
    using assms(1) arg_cong [OF assms(3), of length] by (simp_all add: cursor_def)
  have "chars m (header_view s ?q ?e x) = CHR '':'' # v" for x
    using header_view_chars(2) [OF ok(1) _ ok(2), of ?q x] by (simp add: assms(3))
  then show ?thesis
    using run assms(2,3) i by (simp add: set_view_def headers_ok_def)
qed

lemma header_positions_witness:
  "returns (any_header (memory_of [''HOST: x'' @ [CR, LF]]) httpaa_zero (string_at 0 9)) (\<lambda>(ok, http', s', m').
    ok \<and> chars m' (headers http' ! 26) = '': x'')"
proof -
  have "line_ok ''HOST: x''" by (auto simp: line_ok_def crlf_at_def nth_Cons' less_Suc_eq)
  moreover have i: "request_header_value http11_request_header_host = 26"
    by (simp add: HTTP11_REQUEST_HEADER_ARRAY_START_def)
  moreover have "map c_tolower ''HOST'' = map c_tolower (header_original_name 26)"
    by (simp add: original_names header_tables tolower_defs)
  ultimately show ?thesis
    using header_positions [of "memory_of [''HOST: x'' @ [CR, LF]]" "string_at 0 9" httpaa_zero "[]" "''HOST''" "'' x''" "[]" 26
        _ http11_request_header_host] headers_ok_zero
    by (simp add: cursor_def returns_iff) blast
qed

section \<open>What is printed of a request\<close>

lemma print_view:
  assumes "views_text m s v x" and "readable m s"
  shows "is_init x" "stringaa_print m x = Some (0, v @ [CR])"
proof -
  from assms(1) obtain q y r where x: "x = header_view s q (q + length v) y" "drop q (chars m s) = v @ CR # r"
    by (auto simp: views_text_def)
  have "q + (length v + 1) \<le> write_pos s" using arg_cong [OF x(2), of length] by simp
  from load_n_readable [OF assms(2) this] x(2)
  have "load_n m (padd (buf s) q) (length v + 1) = Some (v @ [CR])" by simp
  with x(1) show "is_init x" "stringaa_print m x = Some (0, v @ [CR])"
    by (simp_all add: header_view_def stringaa_print_def stringaa_fprint_def)
qed

text \<open>The lines for headers with the given values, from position \<open>i\<close> on.\<close>

definition header_lines :: "(nat \<Rightarrow> char list option) \<Rightarrow> nat \<Rightarrow> nat \<Rightarrow> char list" where
  "header_lines f n i = concat (map (\<lambda>k. case f k of None \<Rightarrow> []
     | Some v \<Rightarrow> header_original_name k @ '' ('' @ show_nat k @ '')'' @ v @ [CR, LF]) [i..<n])"

lemma print_headers_eq:
  assumes "readable m s"
    and "\<And>k. k < n \<Longrightarrow> case f k of None \<Rightarrow> \<not> is_init (headers http ! k) | Some v \<Rightarrow> views_text m s v (headers http ! k)"
  shows "i \<le> n \<Longrightarrow> print_headers m http n i = Some (header_lines f n i)"
proof (induction "n - i" arbitrary: i)
  case 0
  then show ?case by (simp add: print_headers.simps header_lines_def)
next
  case (Suc d)
  then have i: "i < n" and rec: "print_headers m http n (i + 1) = Some (header_lines f n (i + 1))" by simp_all
  have "header_lines f n i = (case f i of None \<Rightarrow> []
      | Some v \<Rightarrow> header_original_name i @ '' ('' @ show_nat i @ '')'' @ v @ [CR, LF]) @ header_lines f n (i + 1)"
    using i by (simp add: header_lines_def upt_conv_Cons)
  moreover have "\<not> is_init (headers http ! i)" if "f i = None" using assms(2) [OF i] that by simp
  moreover have "is_init (headers http ! i)" "stringaa_print m (headers http ! i) = Some (0, v @ [CR])" if "f i = Some v" for v
    using assms(2) [OF i] print_view [OF _ assms(1)] that by simp_all
  ultimately show ?case
    using i rec by (cases "f i") (simp_all add: print_headers.simps [of m http n i] show_int_def)
qed

text \<open>The headers that a block of lines has set, in a struct where none was set before.\<close>

lemma print_headers_block:
  assumes "readable m s" and "chars m s = pre @ block ls @ body" and "length (headers h) = 38"
    and "\<And>k. k < 38 \<Longrightarrow> \<not> is_init (headers h ! k)"
  shows "print_headers m (fold (set_view s) (line_views (length pre) ls) h) 38 0 = Some (header_lines (header_value ls) 38 0)"
proof (rule print_headers_eq [OF assms(1) _ le0])
  fix k :: nat assume "k < 38"
  with fold_views_text [OF assms(2,3) this] assms(4)
  show "case header_value ls k of None \<Rightarrow> \<not> is_init (headers (fold (set_view s) (line_views (length pre) ls) h) ! k)
      | Some v \<Rightarrow> views_text m s v (headers (fold (set_view s) (line_views (length pre) ls) h) ! k)"
    by (cases "header_value ls k") simp_all
qed

lemma print_target:
  assumes "readable m s" and "chars m s = pre @ target p qs @ SP # r" and "read_pos s = length pre"
  shows "stringaa_print m (u_uri (request_target s u p qs)) = Some (0, target p qs @ [SP])"
proof -
  have "length pre + (length (target p qs) + 1) \<le> write_pos s" using arg_cong [OF assms(2), of length] by simp
  from load_n_readable [OF assms(1) this] assms(2)
  have "load_n m (padd (buf s) (length pre)) (length (target p qs) + 1) = Some (target p qs @ [SP])" by simp
  with assms(3) show ?thesis
    by (simp add: request_target_def target_result_def target_def set_u_pos_def header_view_def
        stringaa_print_def stringaa_fprint_def Let_def split: option.splits)
qed

text \<open>What \<open>uriaa_print\<close> writes for the parts of a target: the two that can be there, with the byte behind them.\<close>

definition printed_parts :: "char list \<Rightarrow> char list option \<Rightarrow> char list" where
  "printed_parts p qs = LF # '' uri'' @ [LF] @ ''--------'' @ [LF]
     @ concat (map (\<lambda>(name, v). name @ '' = '' @ v @ [LF])
        [(''scheme'', []), (''authority'', []), (''userinfo'', []), (''host'', []), (''path'', []), (''net_path'', []),
         (''abs_path'', p @ [if qs = None then SP else CHR ''?'']), (''rel_path'', []), (''opaque_part'', []),
         (''query'', case qs of None \<Rightarrow> [] | Some q \<Rightarrow> q @ [SP]), (''fragment'', [])])"

lemma print_no_part: "print_part m name stringaa_zero = Some (name @ '' = '' @ [LF])"
  by (simp add: print_part_def stringaa_print_def stringaa_fprint_def stringaa_zero_def)

lemma print_parts:
  assumes "readable m s" and "chars m s = pre @ target p qs @ SP # r" and "read_pos s = length pre"
  shows "uriaa_print m (request_target s uriaa_zero p qs) = Some (1, printed_parts p qs)"
proof -
  let ?cs = "target p qs @ SP # r"
  have part: "print_part m name (part_of (header_view s (length pre) e y) i j stringaa_zero)
      = Some (name @ '' = '' @ take (Suc (j - i)) (drop i ?cs) @ [LF])"
    if "i \<le> j" "j \<le> length (target p qs)" for name y e i j
  proof -
    have "length pre + i + Suc (j - i) \<le> write_pos s" using arg_cong [OF assms(2), of length] that by simp
    from load_n_readable [OF assms(1) this]
    have "load_n m (padd (buf s) (length pre + i)) (Suc (j - i)) = Some (take (Suc (j - i)) (drop i ?cs))"
      unfolding assms(2) drop_append by simp
    moreover have "write_pos (part_of (header_view s (length pre) e y) i j stringaa_zero) = j - i"
      by (simp add: part_of_def end_of_def stringaa_zero_def Let_def)
    ultimately show ?thesis
      by (simp add: print_part_def stringaa_print_def stringaa_fprint_def)
        (simp add: part_of_def header_view_def stringaa_zero_def Let_def)
  qed
  have path: "print_part m name (part_of (header_view s (length pre) e y) 0 (length p) stringaa_zero)
      = Some (name @ '' = '' @ p @ [if qs = None then SP else CHR ''?''] @ [LF])" for name e y
    using part [of 0 "length p"] by (simp add: target_def split: option.split)
  have query: "print_part m name (part_of (header_view s (length pre) e y) (Suc (length p)) (Suc (length p + length q)) stringaa_zero)
      = Some (name @ '' = '' @ q @ [SP] @ [LF])" if "qs = Some q" for name e y q
    using part [of "Suc (length p)" "Suc (length p + length q)"] that by (simp add: target_def)
  show ?thesis
    using path query assms(3)
    by (cases qs) (simp_all add: uriaa_print_def request_target_def target_result_def uriaa_zero_def set_u_pos_def
        print_no_part printed_parts_def Let_def)
qed

text \<open>What \<open>httpaa_print\<close> writes for a request line and a block of header lines.\<close>

definition printed_request :: "http11_method_index \<Rightarrow> char list \<Rightarrow> char list option \<Rightarrow> char list \<Rightarrow> char list \<Rightarrow>
    char list list \<Rightarrow> char list" where
  "printed_request k p qs a b ls = ''Method: '' @ method_name k @ [LF] @ ''URL: '' @ target p qs @ [SP, LF]
     @ ''HTTP version: '' @ show_nat (decimal a) @ ''.'' @ show_nat (decimal b) @ [LF]
     @ header_lines (header_value ls) 38 0"

text \<open>C11: the two printers on a request that has been parsed from a text of this form, below 2 ^ 31 bytes: any
  method but PUT, a path that begins with one slash and has no escape, perhaps a query without one, a version whose
  numbers fit, header lines that are not empty.  \<open>httpaa_print\<close> writes the name of the method, the
  target, the two numbers of the version in decimal without leading zeros, and for each header that the lines
  set, in the order of the positions, its name, its position and the text after the name in the last line that sets
  it.  \<open>uriaa_print\<close> writes of the parts of the target the path and the query.  The target, the path, the
  query and the headers are written with one byte more than they have: the space, the question mark or the
  carriage return behind them.\<close>

theorem httpaa_print_request:
  assumes "cursor m s" and "chars m s = pre @ print_line k p qs a b @ block ls @ body"
    and "read_pos s = length pre" and "write_pos s < 2 ^ 31"
    and "k \<noteq> http11_method_put" and "target_ok p qs" and "number_ok a" and "number_ok b"
    and "\<forall>l \<in> set ls. line_ok l"
  shows "returns (http11_request m httpaa_zero s) (\<lambda>(ok, http, s', m'). ok
    \<and> httpaa_print m' http = Some (0, printed_request k p qs a b ls)
    \<and> uriaa_print m' (request_uri (rline http)) = Some (1, printed_parts p qs))"
proof -
  let ?h = "line_result s httpaa_zero k p qs a b"
  let ?n = "length (pre @ print_line k p qs a b)"
  let ?h' = "fold (set_view s) (line_views ?n ls) ?h"
  have run: "http11_request m httpaa_zero s = Some (True, ?h', s\<lparr>read_pos := ?n + length (block ls)\<rparr>, m)"
    using http11_request_run [OF assms(1-4) fresh_http_zero assms(5-9)] by simp
  have ok: "readable m s" using assms(1) by (simp add: cursor_def)
  have zero: "length (headers ?h) = 38" "k < 38 \<Longrightarrow> \<not> is_init (headers ?h ! k)" for k
    by (simp_all add: line_result_def headers_ok_zero [unfolded headers_ok_def])
      (simp add: httpaa_zero_def headers_def Let_def)
  have cs: "chars m s = (pre @ print_line k p qs a b) @ block ls @ body" using assms(2) by simp
  have hs: "print_headers m ?h' 38 0 = Some (header_lines (header_value ls) 38 0)"
    using print_headers_block [OF ok cs zero] .
  let ?s1 = "s\<lparr>read_pos := read_pos s + length (method_name k) + 1\<rparr>"
  have s1: "readable m ?s1" "chars m ?s1 = (pre @ method_name k @ [SP]) @ target p qs @ SP
      # ''HTTP/'' @ a @ CHR ''.'' # b @ [CR, LF] @ block ls @ body"
      "read_pos ?s1 = length (pre @ method_name k @ [SP])"
    using assms(2,3) ok by (simp_all add: print_line_def)
  note url = print_target [OF s1]
  have "request_uri (rline httpaa_zero) = uriaa_zero" by (simp add: rline_def httpaa_zero_def Let_def)
  with print_parts [OF s1] have parts: "uriaa_print m (request_uri (rline ?h')) = Some (1, printed_parts p qs)"
    by (simp add: line_result_def)
  show ?thesis
    unfolding run using hs url parts
    by (simp add: httpaa_print_def printed_request_def HTTP11_GENERAL_HEADER_ARRAY_START_def line_result_def
        version_of_def show_int_def method_name_def)
qed

lemma httpaa_print_request_witness:
  "returns (http11_request
      (memory_of [''GET /a?b HTTP/1.1'' @ [CR, LF] @ ''Host: x'' @ [CR, LF, CR, LF] @ ''body''])
      httpaa_zero (string_at 0 34))
    (\<lambda>(ok, http, s', m'). uriaa_print m' (request_uri (rline http)) = Some (1, LF # '' uri'' @ [LF] @ ''--------'' @ [LF]
      @ ''scheme = '' @ [LF] @ ''authority = '' @ [LF] @ ''userinfo = '' @ [LF] @ ''host = '' @ [LF] @ ''path = '' @ [LF]
      @ ''net_path = '' @ [LF] @ ''abs_path = /a?'' @ [LF] @ ''rel_path = '' @ [LF] @ ''opaque_part = '' @ [LF]
      @ ''query = b '' @ [LF] @ ''fragment = '' @ [LF]))"
proof -
  let ?r = "''GET /a?b HTTP/1.1'' @ [CR, LF] @ ''Host: x'' @ [CR, LF, CR, LF] @ ''body''"
  have "target_ok ''/a'' (Some ''b'')" by (simp add: target_ok_def cclass range_defs)
  moreover have "number_ok ''1''" by (simp add: number_ok_def cclass range_defs BUF_INT_SIZE_def decimal_def)
  moreover have "line_ok ''Host: x''" by (auto simp: line_ok_def crlf_at_def nth_Cons' less_Suc_eq)
  moreover have "?r = [] @ print_line http11_method_get ''/a'' (Some ''b'') ''1'' ''1'' @ block [''Host: x''] @ ''body''"
    by (simp add: print_line_def method_name_def http11_method_array_def target_def)
  ultimately show ?thesis
    using httpaa_print_request [of "memory_of [?r]" "string_at 0 34" "[]" http11_method_get "''/a''"
        "Some ''b''" "''1''" "''1''" "[''Host: x'']" "''body''"]
    by (simp add: cursor_def printed_parts_def returns_iff) blast
qed

section \<open>Status codes\<close>

lemma status_code_keys: "status_code_key_value k < 40"
  by (cases k) simp_all

lemma status_code_tables:
  "list_all (\<lambda>i. http11_status_code_value ! i = int (status_code_value (http11_status_codes ! i))
      \<and> http11_status_code_array ! (i * 2) = show_nat (status_code_value (http11_status_codes ! i))) [0..<40]"
  by code_simp

text \<open>The four tables of status codes agree: at the position that the enumeration gives a code stand its value
  and its decimal text, and the values increase with the positions.\<close>

theorem status_codes_agree:
  "http11_status_code_value ! status_code_key_value k =
      int (status_code_value (http11_status_codes ! status_code_key_value k))
    \<and> http11_status_code_array ! (status_code_key_value k * 2) =
      show_nat (status_code_value (http11_status_codes ! status_code_key_value k))
    \<and> (status_code_key_value k < status_code_key_value k') =
      (status_code_value (http11_status_codes ! status_code_key_value k)
        < status_code_value (http11_status_codes ! status_code_key_value k'))"
proof -
  have "sorted_wrt (<) (map status_code_value http11_status_codes)" "length http11_status_codes = 40"
    by (simp_all add: http11_status_codes_def)
  then have mono: "i < j \<Longrightarrow> j < 40 \<Longrightarrow> status_code_value (http11_status_codes ! i) < status_code_value (http11_status_codes ! j)" for i j
    by (simp add: sorted_wrt_iff_nth_less)
  have "(status_code_value (http11_status_codes ! i) < status_code_value (http11_status_codes ! j)) = (i < j)"
    if "i < 40" "j < 40" for i j
    using mono [of i j] mono [of j i] that by (cases i j rule: linorder_cases) simp_all
  with status_code_tables status_code_keys show ?thesis by (simp add: list_all_iff)
qed

end
