(* ===== verification/Http_Example.thy ===== *)
theory Http_Example
  imports Http_Print
begin

text \<open>
  The example program of the HTTP library, \<open>src/http/testaa.c\<close>: it parses a request that it holds as a literal,
  with an absolute URL as its target, and prints what it has found.  The whole run is proved: the bytes on the
  standard output.
\<close>

section \<open>The program\<close>

definition testaa_request :: string where
  "testaa_request = ''GET http://localhost:8080/ HTTP/1.1'' @ [CR, LF] @ ''Host: localhost:8080'' @ [CR, LF]
     @ ''User-Agent: Mozilla/5.0 (compatible;)'' @ [CR, LF]
     @ ''Accept: text/html,application/xhtml+xml,application/xml;q=0.9,*/*;q=0.8'' @ [CR, LF]
     @ ''Accept-Language: en-US,en;q=0.5'' @ [CR, LF] @ ''Accept-Encoding: gzip, deflate'' @ [CR, LF]
     @ ''Connection: keep-alive'' @ [CR, LF] @ ''Cache-Control: max-age=0'' @ [CR, LF, CR, LF] @ ''Message''"

text \<open>One of the eleven parts that \<open>print_url\<close> prints, and all of them.\<close>

definition print_url_part :: "mem \<Rightarrow> string \<times> stringaa \<Rightarrow> char list \<Rightarrow> char list option" where
  "print_url_part m p out = do { (_, v) \<leftarrow> stringaa_print m (snd p); Some (out @ fst p @ '' = '' @ v @ [LF]) }"

fun print_url_parts :: "mem \<Rightarrow> (string \<times> stringaa) list \<Rightarrow> char list \<Rightarrow> char list option" where
  "print_url_parts m [] out = Some out"
| "print_url_parts m (p # ps) out = do { out \<leftarrow> print_url_part m p out; print_url_parts m ps out }"

definition print_url :: "mem \<Rightarrow> uriaa \<Rightarrow> (int \<times> char list) option" where
  "print_url m u = do {
     out \<leftarrow> print_url_parts m
       [(''scheme'', u_scheme u), (''authority'', u_authority u), (''userinfo'', u_userinfo u), (''host'', u_host u),
        (''path'', u_path u), (''net_path'', u_net_path u), (''abs_path'', u_abs_path u), (''rel_path'', u_rel_path u),
        (''opaque_part'', u_opaque_part u), (''query'', u_query u), (''fragment'', u_fragment u)]
       (LF # '' uri'' @ [LF] @ ''--------'' @ [LF]);
     Some (1, out) }"

text \<open>The loop of \<open>main\<close> over the headers is, word for word, that of \<open>httpaa_print\<close>.\<close>

definition testaa_main :: "mem \<Rightarrow> (int \<times> char list) option" where
  "testaa_main m = do {
     let (b, m) = literal m testaa_request;
     (_, request, m) \<leftarrow> stringaa_set_chars m stringaa_zero b;
     lines \<leftarrow> http11_request_output m httpaa_zero request;
     (_, http, request, m) \<leftarrow> http11_request m httpaa_zero request;
     let l = rline http;
     (_, url) \<leftarrow> stringaa_print_line m (u_uri (request_uri l));
     hs \<leftarrow> print_headers m http (9 + 19 + 10) HTTP11_GENERAL_HEADER_ARRAY_START;
     (_, parts) \<leftarrow> print_url m (request_uri l);
     Some (0, lines @ ''Method: '' @ http11_method_array ! method_value (rl_method l) @ [LF] @ ''URL: '' @ url
       @ ''HTTP version: '' @ show_int (major_version (http_version l)) @ ''.''
       @ show_int (minor_version (http_version l)) @ [LF] @ hs @ parts) }"

text \<open>The two printers of a URL, here and in \<open>src/url/uriaa_utils.h\<close>, are the same.\<close>

lemma print_url_parts_append: "print_url_parts m ps out =
    do { vs \<leftarrow> print_url_parts m ps []; Some (out @ vs) }"
proof (induction ps arbitrary: out)
  case (Cons p ps)
  obtain v where "stringaa_print m (snd p) = None \<or> stringaa_print m (snd p) = Some v"
    by (cases "stringaa_print m (snd p)") auto
  then show ?case
    using Cons [of "out @ fst p @ '' = '' @ snd v @ [LF]"] Cons [of "fst p @ '' = '' @ snd v @ [LF]"]
    by (cases v; cases "print_url_parts m ps []") (auto simp: print_url_part_def)
qed simp

section \<open>The run\<close>

definition request_lines :: "char list list" where
  "request_lines = [''Host: localhost:8080'', ''User-Agent: Mozilla/5.0 (compatible;)'',
     ''Accept: text/html,application/xhtml+xml,application/xml;q=0.9,*/*;q=0.8'', ''Accept-Language: en-US,en;q=0.5'',
     ''Accept-Encoding: gzip, deflate'', ''Connection: keep-alive'', ''Cache-Control: max-age=0'']"

definition request_mem :: mem where
  "request_mem = snd (literal empty_mem testaa_request)"

definition request_string :: stringaa where
  "request_string = (string_at 0 295)\<lparr>buf_size := 296, is_null_terminated := True\<rparr>"

text \<open>What the parser finds of the target.\<close>

definition request_url :: uriaa where
  "request_url = (let s = header_view request_string 4 295 stringaa_zero in
     uriaa_zero\<lparr>u_uri := s\<lparr>read_pos := 22\<rparr>, u_scheme := part_of s 0 4 stringaa_zero,
       u_host := part_of s 7 16 stringaa_zero, u_port := part_of s 17 21 stringaa_zero,
       u_authority := part_of s 7 21 stringaa_zero, u_net_path := part_of s 5 22 stringaa_zero,
       u_abs_path := part_of s 21 22 stringaa_zero\<rparr>)"

lemma request_length: "length testaa_request = 295"
  by (simp add: testaa_request_def)

lemma request_url_found:
  "uriaa_check_url request_mem (uriaa_zero\<lparr>u_uri := header_view request_string 4 295 stringaa_zero\<rparr>) =
    Some (True, request_url)"
  by code_simp

lemma request_chars:
  "chars request_mem request_string = testaa_request" "readable request_mem request_string"
  "cursor request_mem request_string"
proof -
  show 1: "chars request_mem request_string = testaa_request" "readable request_mem request_string"
    using request_length
    by (simp_all add: request_mem_def request_string_def literal_def empty_mem_def chars_def readable_def load_n_in)
  show "cursor request_mem request_string"
    using 1(2) by (simp add: cursor_def request_string_def)
qed

lemma request_lines_ok: "list_all line_ok request_lines"
  by code_simp

text \<open>The call of \<open>http11_request\<close>: the line with the URL, then the block of headers.\<close>

definition request_read :: httpaa where
  "request_read = set_rline ((rline httpaa_zero)\<lparr>rl_method := http11_method_get,
     request_uri := request_url\<lparr>u_uri := (u_uri request_url)\<lparr>write_pos := 22\<rparr>\<rparr>, http_version := version_of ''1'' ''1''\<rparr>) httpaa_zero"

lemma request_uri_zero: "request_uri (rline httpaa_zero) = uriaa_zero"
  by (simp add: rline_def httpaa_zero_def Let_def)

lemma request_line_run:
  "http11_request_line request_mem httpaa_zero request_string =
    Some (True, request_read, request_string\<lparr>read_pos := 37\<rparr>, request_mem)"
proof -
  let ?m = request_mem and ?s = request_string and ?url = "''http://localhost:8080/''"
  let ?h = "set_rline ((rline httpaa_zero)\<lparr>rl_method := http11_method_get\<rparr>) httpaa_zero"
  have name: "method_name http11_method_get = ''GET''" by (simp add: method_name_def http11_method_array_def)
  have uri: "http11_request_uri ?m ?h (?s\<lparr>read_pos := 4\<rparr>) = Some (True,
      set_rline ((rline httpaa_zero)\<lparr>rl_method := http11_method_get,
        request_uri := request_url\<lparr>u_uri := (u_uri request_url)\<lparr>write_pos := 22\<rparr>\<rparr>\<rparr>) httpaa_zero,
      ?s\<lparr>read_pos := 4 + length ?url\<rparr>, ?m)"
  proof -
    have "stringaa_set_substring ?m (u_uri uriaa_zero) (?s\<lparr>read_pos := 4\<rparr>) STRINGAA_READ_POS STRINGAA_WRITE_POS =
        Some (True, header_view ?s 4 295 stringaa_zero, ?m)"
      using set_substring_rest [of stringaa_zero "?s\<lparr>read_pos := 4\<rparr>" ?m]
      by (simp add: request_string_def uriaa_zero_def header_view_def)
    moreover have "read_pos (u_uri request_url) = 22" by (simp add: request_url_def Let_def)
    ultimately show ?thesis
      by (simp add: http11_request_uri_def request_uri_zero request_url_found)
  qed
  have cs: "chars ?m ?s = [] @ method_name http11_method_get @ SP # ?url @ SP # ''HTTP/'' @ ''1'' @ CHR ''.'' # ''1''
      @ CR # LF # block request_lines @ ''Message''"
    unfolding request_chars name by (simp add: testaa_request_def request_lines_def block_def)
  have one: "number_ok ''1''" by (simp add: number_ok_def cclass range_defs BUF_INT_SIZE_def decimal_def)
  have n1: "4 = length ([] :: char list) + length (method_name http11_method_get) + 1" by (simp add: name)
  have "read_pos ?s = length ([] :: char list)" by (simp add: request_string_def)
  from http11_request_line_with [OF request_chars(3) cs this _ one one n1 uri] show ?thesis
    by (simp add: request_read_def)
qed

lemma request_run:
  "http11_request request_mem httpaa_zero request_string = Some (True,
    fold (set_view request_string) (line_views 37 request_lines) request_read,
    request_string\<lparr>read_pos := 288\<rparr>, request_mem)"
proof -
  have ok: "\<forall>l \<in> set request_lines. line_ok l"
    using request_lines_ok by (simp add: list_all_iff)
  have "headers_ok request_read" using headers_ok_zero by (simp add: request_read_def headers_ok_def)
  moreover have "chars request_mem request_string = take 37 testaa_request @ block request_lines @ ''Message''"
    unfolding request_chars(1) by (simp add: testaa_request_def request_lines_def block_def)
  moreover have "length (take 37 testaa_request) = 37" "length (block request_lines) = 251"
    by (simp_all add: request_length) (simp add: request_lines_def block_def)
  ultimately show ?thesis
    using http11_request_block [OF request_chars(3) _ ok, of "take 37 testaa_request" "''Message''" httpaa_zero request_read]
      request_line_run by simp
qed

section \<open>The output\<close>

definition testaa_report :: string where
  "testaa_report = ''Method: GET'' @ [LF] @ ''URL: http://localhost:8080/ '' @ [LF] @ ''HTTP version: 1.1'' @ [LF]
     @ ''Cache-Control (0): max-age=0'' @ [CR, LF] @ ''Connection (1): keep-alive'' @ [CR, LF]
     @ ''Accept (19): text/html,application/xhtml+xml,application/xml;q=0.9,*/*;q=0.8'' @ [CR, LF]
     @ ''Accept-Encoding (21): gzip, deflate'' @ [CR, LF] @ ''Accept-Language (22): en-US,en;q=0.5'' @ [CR, LF]
     @ ''Host (26): localhost:8080'' @ [CR, LF] @ ''User-Agent (37): Mozilla/5.0 (compatible;)'' @ [CR, LF]
     @ [LF] @ '' uri'' @ [LF] @ ''--------'' @ [LF] @ ''scheme = http:'' @ [LF] @ ''authority = localhost:8080/'' @ [LF]
     @ ''userinfo = '' @ [LF] @ ''host = localhost:'' @ [LF] @ ''path = '' @ [LF] @ ''net_path = //localhost:8080/ '' @ [LF]
     @ ''abs_path = / '' @ [LF] @ ''rel_path = '' @ [LF] @ ''opaque_part = '' @ [LF] @ ''query = '' @ [LF]
     @ ''fragment = '' @ [LF]"

definition testaa_output :: string where
  "testaa_output = ''request'' @ [LF] @ ''request line'' @ [LF] @ testaa_report"

lemma request_set: "stringaa_set_chars request_mem stringaa_zero (Ptr 0 0) = Some (True, request_string, request_mem)"
proof -
  have "nul_index (testaa_request @ [NUL]) = Some 295" by code_simp
  then show ?thesis
    by (simp add: stringaa_set_chars_def stringaa_set_chars_size_def c_strlen_def request_mem_def literal_def
        empty_mem_def request_string_def set_flags_def end_of_def string_at_def stringaa_zero_def)
qed

lemma request_url_printed:
  "stringaa_print_line request_mem ((u_uri request_url)\<lparr>write_pos := 22\<rparr>) = Some (0, ''http://localhost:8080/ '' @ [LF])"
  by code_simp

lemma request_parts_printed:
  "map_option (\<lambda>r. r = (1, drop 341 testaa_report)) (print_url request_mem
    (request_url\<lparr>u_uri := (u_uri request_url)\<lparr>write_pos := 22\<rparr>\<rparr>)) = Some True"
  by code_simp

text \<open>The headers that the lines set, by their positions, and the text after the names.\<close>

definition request_values :: "nat \<Rightarrow> char list option" where
  "request_values = map_of [(0, '': max-age=0''), (1, '': keep-alive''),
     (19, '': text/html,application/xhtml+xml,application/xml;q=0.9,*/*;q=0.8''), (21, '': gzip, deflate''),
     (22, '': en-US,en;q=0.5''), (26, '': localhost:8080''), (37, '': Mozilla/5.0 (compatible;)'')]"

lemma request_names: "map line_header request_lines = [Some (26, ''host''), Some (37, ''user-agent''), Some (19, ''accept''),
    Some (22, ''accept-language''), Some (21, ''accept-encoding''), Some (1, ''connection''), Some (0, ''cache-control'')]"
  by code_simp

lemma request_values: "header_value request_lines = request_values"
proof
  fix k
  note names = request_names [unfolded request_lines_def list.map list.inject]
  show "header_value request_lines k = request_values k"
    unfolding request_lines_def header_value.simps by (simp add: names request_values_def)
qed

lemma request_headers_printed: "header_lines request_values 38 0 = take 282 (drop 59 testaa_report)"
  by code_simp

text \<open>C12: the example program, which parses one request that it holds as a literal, prints exactly
  \<open>testaa_output\<close>: the two lines of \<open>http11_request\<close>, the method, the URL and the version, the seven headers with
  their positions, in the order of the positions, and of the URL the scheme, the authority, the host, the
  network path and the absolute path, each with the byte behind it.\<close>

theorem testaa_main_prints: "testaa_main empty_mem = Some (0, testaa_output)"
proof -
  let ?h = "fold (set_view request_string) (line_views 37 request_lines) request_read"
  have lit: "literal empty_mem testaa_request = (Ptr 0 0, request_mem)"
    by (simp add: request_mem_def literal_def empty_mem_def)
  have cs: "chars request_mem request_string = take 37 testaa_request @ block request_lines @ ''Message''"
    unfolding request_chars(1) by (simp add: testaa_request_def request_lines_def block_def)
  have "length (headers request_read) = 38" "k < 38 \<Longrightarrow> \<not> is_init (headers request_read ! k)" for k
    by (simp_all add: request_read_def headers_ok_zero [unfolded headers_ok_def])
      (simp add: httpaa_zero_def headers_def Let_def)
  from print_headers_block [OF request_chars(2) cs this]
  have hs: "print_headers request_mem ?h 38 0 = Some (take 282 (drop 59 testaa_report))"
    by (simp add: request_length request_values request_headers_printed)
  have line: "rline ?h = rline request_read" by simp
  have l: "rl_method (rline request_read) = http11_method_get" "http_version (rline request_read) = version_of ''1'' ''1''"
      "request_uri (rline request_read) = request_url\<lparr>u_uri := (u_uri request_url)\<lparr>write_pos := 22\<rparr>\<rparr>"
    by (simp_all add: request_read_def)
  have head: "take 59 testaa_report = ''Method: GET'' @ [LF] @ ''URL: http://localhost:8080/ '' @ [LF]
      @ ''HTTP version: 1.1'' @ [LF]" by (simp add: testaa_report_def)
  have u: "print_url request_mem (request_url\<lparr>u_uri := (u_uri request_url)\<lparr>write_pos := 22\<rparr>\<rparr>)
      = Some (1, drop 341 testaa_report)"
    using request_parts_printed by auto
  have v: "show_int (major_version (version_of ''1'' ''1'')) = ''1''" "show_int (minor_version (version_of ''1'' ''1'')) = ''1''"
    by code_simp+
  have m: "http11_method_array ! Suc 0 = ''GET''" by code_simp
  have "testaa_main empty_mem = Some (0, ''request'' @ [LF] @ ''request line'' @ [LF] @ take 59 testaa_report
      @ take 282 (drop 59 testaa_report) @ drop 341 testaa_report)"
    unfolding testaa_main_def head
    by (simp add: lit request_set request_run request_line_run http11_request_output_def hs line l request_url_printed
        u v m HTTP11_GENERAL_HEADER_ARRAY_START_def del: take_append drop_append)
  moreover have "testaa_report = take 59 testaa_report @ take 282 (drop 59 testaa_report) @ drop 341 testaa_report"
    using append_take_drop_id [of 59 testaa_report] append_take_drop_id [of 282 "drop 59 testaa_report"]
    by (simp add: add.commute)
  ultimately show ?thesis unfolding testaa_output_def by simp
qed

end
