(* ===== verification/Socket_Worker.thy ===== *)
theory Socket_Worker
  imports Worker_Http
begin

unbundle bit_operations_syntax

text \<open>
  The loop in which a worker serves one connection, \<open>src/socket/socketaa_worker.h\<close>.

  What the operating system answers to one round of the loop is the record \<open>answers\<close>: the result of
  \<open>select\<close>, the bytes that \<open>recv\<close> delivers (\<^const>\<open>None\<close> for an error, no bytes for the end of the stream)
  and the result of \<open>send\<close>.  The socket is in at most one of the two sets that \<open>select\<close> gets, so that a
  positive result says that it is ready in the one it is in.  The calls on the socket are collected in a
  trace.  The state has the memory, the work structs of the queue and the worker.
\<close>

section \<open>Calls and flags\<close>

datatype sys_call = Sent "char list" | Send_Failed int | Received "char list" | Receive_Failed | Shutdown | Close

record answers =
  ans_select :: int
  ans_recv :: "char list option"
  ans_send :: int

record worker_state =
  ws_mem :: mem
  ws_works :: "socketaa_work list"
  ws_worker :: workeraa
  ws_trace :: "sys_call list"

definition SOCKETAA_ERROR :: int where "SOCKETAA_ERROR = - 1"
definition SOCKETAA_SOCKET_ERROR :: int where "SOCKETAA_SOCKET_ERROR = - 1"
definition SOCKETAA_ERROR_RECV_SHUTDOWN :: int where "SOCKETAA_ERROR_RECV_SHUTDOWN = SOCKETAA_ERROR - 1"
definition SOCKETAA_ERROR_SEND_SHUTDOWN :: int where "SOCKETAA_ERROR_SEND_SHUTDOWN = SOCKETAA_ERROR - 2"

text \<open>The bit fields of a work struct, from the lowest bit.\<close>

definition is_select :: "socketaa_work \<Rightarrow> bool" where "is_select x = bit (w_flags x) 0"
definition is_recv :: "socketaa_work \<Rightarrow> bool" where "is_recv x = bit (w_flags x) 1"
definition is_send :: "socketaa_work \<Rightarrow> bool" where "is_send x = bit (w_flags x) 2"

definition set_bit_field :: "nat \<Rightarrow> bool \<Rightarrow> socketaa_work \<Rightarrow> socketaa_work" where
  "set_bit_field i b x = x\<lparr>w_flags := (if b then Bit_Operations.set_bit i (w_flags x) else unset_bit i (w_flags x))\<rparr>"

definition set_is_select :: "bool \<Rightarrow> socketaa_work \<Rightarrow> socketaa_work" where "set_is_select = set_bit_field 0"
definition set_is_recv :: "bool \<Rightarrow> socketaa_work \<Rightarrow> socketaa_work" where "set_is_recv = set_bit_field 1"
definition set_is_send :: "bool \<Rightarrow> socketaa_work \<Rightarrow> socketaa_work" where "set_is_send = set_bit_field 2"
definition set_is_recv_shutdown :: "bool \<Rightarrow> socketaa_work \<Rightarrow> socketaa_work" where "set_is_recv_shutdown = set_bit_field 3"
definition set_is_send_shutdown :: "bool \<Rightarrow> socketaa_work \<Rightarrow> socketaa_work" where "set_is_send_shutdown = set_bit_field 4"

text \<open>\<open>work->f = b\<close> for the work struct \<open>a\<close>, and a call on the socket.\<close>

definition upd_work :: "nat \<Rightarrow> (socketaa_work \<Rightarrow> socketaa_work) \<Rightarrow> worker_state \<Rightarrow> worker_state" where
  "upd_work a f z = z\<lparr>ws_works := (ws_works z)[a := f (ws_works z ! a)]\<rparr>"

definition call :: "sys_call \<Rightarrow> worker_state \<Rightarrow> worker_state" where
  "call c z = z\<lparr>ws_trace := ws_trace z @ [c]\<rparr>"

text \<open>\<open>shutdown(s_conn, SOCKETAA_SHUTDOWN_WRITE); closesocket(s_conn); work->is_select = 0;\<close>\<close>

definition hang_up :: "nat \<Rightarrow> worker_state \<Rightarrow> worker_state" where
  "hang_up a z = upd_work a (set_is_select False) (call Close (call Shutdown z))"

section \<open>Buffers\<close>

text \<open>The buffer that \<open>p_recv\<close> or \<open>p_send\<close> points to, a field of the worker's HTTP struct.\<close>

fun get_buffer :: "http_buffer \<Rightarrow> workeraa_http \<Rightarrow> stringaa" where
  "get_buffer Request_Buffer h = wh_request h"
| "get_buffer Response_Buffer h = wh_response h"

fun put_buffer :: "http_buffer \<Rightarrow> stringaa \<Rightarrow> workeraa_http \<Rightarrow> workeraa_http" where
  "put_buffer Request_Buffer s h = h\<lparr>wh_request := s\<rparr>"
| "put_buffer Response_Buffer s h = h\<lparr>wh_response := s\<rparr>"

definition buffer :: "http_buffer \<Rightarrow> worker_state \<Rightarrow> stringaa option" where
  "buffer p z = map_option (get_buffer p) (p_struct (ws_worker z))"

definition set_buffer :: "http_buffer \<Rightarrow> stringaa \<Rightarrow> worker_state \<Rightarrow> worker_state" where
  "set_buffer p s z = z\<lparr>ws_worker := (ws_worker z)\<lparr>p_struct := map_option (put_buffer p s) (p_struct (ws_worker z))\<rparr>\<rparr>"

text \<open>\<open>recv\<close> delivers at most the bytes that there is room for.\<close>

definition socketaa_worker_recv :: "answers \<Rightarrow> http_buffer \<Rightarrow> worker_state \<Rightarrow> (int \<times> worker_state) option" where
  "socketaa_worker_recv a p z = do {
     s \<leftarrow> buffer p z;
     if write_pos s < buf_size s
     then (case ans_recv a of
         None \<Rightarrow> Some (- 1, call Receive_Failed z)
       | Some cs \<Rightarrow> (let cs = take (buf_size s - write_pos s) cs in do {
           m \<leftarrow> store_n (ws_mem z) (padd (buf s) (write_pos s)) cs;
           let z = call (Received cs) (z\<lparr>ws_mem := m\<rparr>);
           Some (if cs = [] then (SOCKETAA_ERROR_RECV_SHUTDOWN, z)
             else (int (length cs), set_buffer p (s\<lparr>write_pos := write_pos s + length cs\<rparr>) z)) }))
     else Some (0, z) }"

text \<open>\<open>send\<close> takes at most the bytes that it is given.\<close>

definition socketaa_worker_send :: "answers \<Rightarrow> http_buffer \<Rightarrow> worker_state \<Rightarrow> (int \<times> worker_state) option" where
  "socketaa_worker_send a p z = do {
     s \<leftarrow> buffer p z;
     if write_pos s < buf_size s \<and> read_pos s < write_pos s
     then do {
       cs \<leftarrow> load_n (ws_mem z) (padd (buf s) (read_pos s)) (write_pos s - read_pos s);
       let n = min (ans_send a) (int (length cs));
       Some (if n = 0 then (SOCKETAA_ERROR_SEND_SHUTDOWN, call (Send_Failed n) z)
         else if n > 0 then (n, set_buffer p (s\<lparr>read_pos := read_pos s + nat n\<rparr>) (call (Sent (take (nat n) cs)) z))
         else (- 1, call (Send_Failed (- 1)) z)) }
     else Some (0, z) }"

section \<open>What the results mean for the connection\<close>

definition run_func :: "workeraa_func_enum \<Rightarrow> worker_state \<Rightarrow> (bool \<times> worker_state) option" where
  "run_func k z = do {
     (b, w, ws, m) \<leftarrow> workeraa_func False (ws_mem z) (ws_worker z) (ws_works z) k;
     Some (b, z\<lparr>ws_mem := m, ws_worker := w, ws_works := ws\<rparr>) }"

definition socketaa_worker_check_recv :: "nat \<Rightarrow> int \<Rightarrow> worker_state \<Rightarrow> worker_state option" where
  "socketaa_worker_check_recv a n z = (if n > 0
     then do {
       (b, z) \<leftarrow> run_func WORKERAA_FUNC_RECV_DATA (upd_work a (set_is_recv True) z);
       Some (if of_bool b = SOCKETAA_ERROR then hang_up a z else z) }
     else if n = 0 then Some (hang_up a z)
     else if n = SOCKETAA_SOCKET_ERROR then Some (upd_work a (set_is_select False) (call Close z))
     else if n = SOCKETAA_ERROR_RECV_SHUTDOWN then Some (upd_work a (set_is_recv_shutdown True) z)
     else Some z)"

text \<open>The end of the stream is compared with the code of the other direction.\<close>

definition socketaa_worker_check_send :: "nat \<Rightarrow> int \<Rightarrow> worker_state \<Rightarrow> worker_state" where
  "socketaa_worker_check_send a n z = (
     let z = (if n > 0 then upd_work a (set_is_send True) z
       else if n = 0 then hang_up a z
       else if n = SOCKETAA_SOCKET_ERROR then upd_work a (set_is_select False) (call Close z)
       else if n = SOCKETAA_ERROR_RECV_SHUTDOWN then upd_work a (set_is_send_shutdown True) z
       else z)
     in if n \<noteq> SOCKETAA_SOCKET_ERROR then upd_work a (set_is_send True) z
        else upd_work a (set_is_recv True) (call Shutdown z))"

section \<open>The loop\<close>

text \<open>After \<open>select\<close>, with the set that the socket is in.\<close>

definition after_select :: "answers \<Rightarrow> nat \<Rightarrow> bool \<Rightarrow> bool \<Rightarrow> worker_state \<Rightarrow> worker_state option" where
  "after_select an a recv_set send_set z = (if ans_select an > 0
     then do {
       z \<leftarrow> (if recv_set then do {
           (n, z) \<leftarrow> socketaa_worker_recv an Request_Buffer z;
           socketaa_worker_check_recv a n z }
         else Some z);
       if send_set then do {
           (b, z) \<leftarrow> run_func WORKERAA_FUNC_SEND_DATA z;
           let z = (if of_bool b = SOCKETAA_ERROR then hang_up a z else z);
           (n, z) \<leftarrow> socketaa_worker_send an Response_Buffer z;
           Some (socketaa_worker_check_send a n z) }
         else Some z }
     else if ans_select an = 0 then Some (upd_work a (set_is_select False) (call Close z))
     else if ans_select an = SOCKETAA_SOCKET_ERROR then Some (upd_work a (set_is_select False) z)
     else Some z)"

text \<open>One round: the flags are taken over into the sets, and cleared.\<close>

definition worker_round :: "answers \<Rightarrow> nat \<Rightarrow> worker_state \<Rightarrow> worker_state option" where
  "worker_round an a z = (let x = ws_works z ! a in
     if is_send x then after_select an a False True (upd_work a (set_is_send False) z)
     else if is_recv x then after_select an a True False (upd_work a (set_is_recv False) z)
     else after_select an a False False z)"

text \<open>The loop on a list of answers, one for each round; the result says whether the loop has ended.\<close>

fun worker_loop :: "answers list \<Rightarrow> nat \<Rightarrow> worker_state \<Rightarrow> (bool \<times> worker_state) option" where
  "worker_loop [] a z = Some (\<not> is_select (ws_works z ! a), z)"
| "worker_loop (an # ans) a z = (if is_select (ws_works z ! a)
     then do { z \<leftarrow> worker_round an a z; worker_loop ans a z }
     else Some (True, z))"

definition socketaa_worker :: "answers list \<Rightarrow> worker_state \<Rightarrow> (bool \<times> worker_state) option" where
  "socketaa_worker ans z = (case p_work (ws_worker z) of
     None \<Rightarrow> Some (True, z)
   | Some a \<Rightarrow> do {
       (b, z) \<leftarrow> run_func WORKERAA_FUNC_GET_RECV_BUFFER z;
       (b, z) \<leftarrow> (if b \<and> p_data (ws_worker z) \<noteq> None then run_func WORKERAA_FUNC_GET_SEND_BUFFER z
         else Some (False, z));
       if b then (if a < length (ws_works z)
         then worker_loop ans a (z\<lparr>ws_worker := (ws_worker z)\<lparr>work_id := unat (w_port (ws_works z ! a))\<rparr>\<rparr>)
         else None)
       else Some (True, z) })"

section \<open>One work of a worker\<close>

text \<open>The body of the loop of \<open>workeraa_main\<close>, after \<open>workeraa_get_work\<close> has taken a work.\<close>

definition workeraa_serve :: "bool \<Rightarrow> answers list \<Rightarrow> worker_state \<Rightarrow> (bool \<times> worker_state) option" where
  "workeraa_serve alloc ans z = do {
     port \<leftarrow> socketaa_get_port (p_work (ws_worker z)) (ws_works z);
     let z = z\<lparr>ws_worker := (ws_worker z)\<lparr>work_id := unat port\<rparr>\<rparr>;
     if port \<noteq> 0 then do {
       (b, w, ws, m) \<leftarrow> workeraa_func alloc (ws_mem z) (ws_worker z) (ws_works z) WORKERAA_FUNC_INIT;
       let z = z\<lparr>ws_mem := m, ws_worker := w, ws_works := ws\<rparr>;
       if b then socketaa_worker ans z else Some (True, z) }
     else Some (True, z) }"

text \<open>The whole body: the call that takes a work may wait.  The result has the shared state, whether the
  connection has been served to its end, and the worker.\<close>

definition workeraa_main_round :: "bool \<Rightarrow> workeraa_sync option list \<Rightarrow> bool \<Rightarrow> answers list \<Rightarrow> workeraa_sync \<Rightarrow> worker_state \<Rightarrow>
    (workeraa_sync \<times> bool \<times> worker_state) outcome option" where
  "workeraa_main_round lock wakes alloc ans y z = do {
     r \<leftarrow> workeraa_get_work lock wakes y (p_work (ws_worker z));
     case r of Blocked \<Rightarrow> Some Blocked
     | Done (b, p, y) \<Rightarrow>
         (let z = z\<lparr>ws_worker := (ws_worker z)\<lparr>p_work := p\<rparr>\<rparr> in
          if b then do { (ended, z) \<leftarrow> workeraa_serve alloc ans z; Some (Done (y, ended, z)) }
          else Some (Done (y, True, z))) }"

end
