(* ===== verification/Socket_Worker_Proofs.thy ===== *)
theory Socket_Worker_Proofs
  imports Socket_Worker
begin

text \<open>
  The loop of a worker on its connection: the bytes of the response go out in order and the connection
  is closed behind them, it is closed at most once, and the second connection of a worker gets no
  answer.
\<close>

unbundle bit_operations_syntax

section \<open>Flags and states\<close>

lemmas flag_defs = is_select_def is_recv_def is_send_def set_is_select_def set_is_recv_def set_is_send_def
  set_is_recv_shutdown_def set_is_send_shutdown_def set_bit_field_def

lemma flags [simp]:
  "is_select (set_is_select b x) = b" "is_select (set_is_recv b x) = is_select x" "is_select (set_is_send b x) = is_select x"
  "is_recv (set_is_recv b x) = b" "is_recv (set_is_select b x) = is_recv x" "is_recv (set_is_send b x) = is_recv x"
  "is_send (set_is_send b x) = b" "is_send (set_is_select b x) = is_send x" "is_send (set_is_recv b x) = is_send x"
  "is_select (set_is_recv_shutdown b x) = is_select x" "is_select (set_is_send_shutdown b x) = is_select x"
  "is_send (set_is_recv_shutdown b x) = is_send x" "is_send (set_is_send_shutdown b x) = is_send x"
  by (auto simp: flag_defs bit_simps)

lemma upd_work_sel [simp]:
  "ws_mem (upd_work a f z) = ws_mem z" "ws_worker (upd_work a f z) = ws_worker z" "ws_trace (upd_work a f z) = ws_trace z"
  "length (ws_works (upd_work a f z)) = length (ws_works z)"
  "a < length (ws_works z) \<Longrightarrow> ws_works (upd_work a f z) ! a = f (ws_works z ! a)"
  by (simp_all add: upd_work_def)

lemma call_sel [simp]:
  "ws_mem (call c z) = ws_mem z" "ws_worker (call c z) = ws_worker z" "ws_trace (call c z) = ws_trace z @ [c]"
  "ws_works (call c z) = ws_works z"
  by (simp_all add: call_def)

lemma set_buffer_sel [simp]:
  "ws_mem (set_buffer p s z) = ws_mem z" "ws_trace (set_buffer p s z) = ws_trace z" "ws_works (set_buffer p s z) = ws_works z"
  "p_work (ws_worker (set_buffer p s z)) = p_work (ws_worker z)" "work_id (ws_worker (set_buffer p s z)) = work_id (ws_worker z)"
  "p_struct (ws_worker (set_buffer p s z)) = map_option (put_buffer p s) (p_struct (ws_worker z))"
  by (simp_all add: set_buffer_def)

lemma buffer_sel [simp]: "buffer p (upd_work a f z) = buffer p z" "buffer p (call c z) = buffer p z"
  by (simp_all add: buffer_def)

lemma hang_up_sel [simp]:
  "ws_mem (hang_up a z) = ws_mem z" "ws_worker (hang_up a z) = ws_worker z" "ws_trace (hang_up a z) = ws_trace z @ [Shutdown, Close]"
  "length (ws_works (hang_up a z)) = length (ws_works z)"
  "a < length (ws_works z) \<Longrightarrow> ws_works (hang_up a z) ! a = set_is_select False (ws_works z ! a)"
  by (simp_all add: hang_up_def)

lemma not_error [simp]: "of_bool b \<noteq> SOCKETAA_ERROR"
  by (simp add: SOCKETAA_ERROR_def)

lemma error_codes [simp]:
  "SOCKETAA_ERROR_SEND_SHUTDOWN = - 3" "SOCKETAA_ERROR_RECV_SHUTDOWN = - 2" "SOCKETAA_SOCKET_ERROR = - 1"
  by (simp_all add: SOCKETAA_ERROR_SEND_SHUTDOWN_def SOCKETAA_ERROR_RECV_SHUTDOWN_def SOCKETAA_SOCKET_ERROR_def SOCKETAA_ERROR_def)

section \<open>Sending the response\<close>

text \<open>The worker is about to send: its response is made, and the flags ask for \<open>select\<close> and send.\<close>

definition sending :: "nat \<Rightarrow> worker_state \<Rightarrow> stringaa \<Rightarrow> bool" where
  "sending a z s \<longleftrightarrow> a < length (ws_works z) \<and> is_select (ws_works z ! a) \<and> is_send (ws_works z ! a)
     \<and> (\<exists>h. p_struct (ws_worker z) = Some h \<and> is_header_send h \<and> wh_response h = s)
     \<and> cursor (ws_mem z) s \<and> write_pos s < buf_size s"

definition sent_bytes :: "sys_call list \<Rightarrow> char list" where
  "sent_bytes tr = concat (map (\<lambda>c. case c of Sent cs \<Rightarrow> cs | _ \<Rightarrow> []) tr)"

lemma sent_bytes_simps [simp]: "sent_bytes [] = []" "sent_bytes (Sent cs # tr) = cs @ sent_bytes tr"
  "sent_bytes (Shutdown # tr) = sent_bytes tr" "sent_bytes (Close # tr) = sent_bytes tr"
  "sent_bytes (Send_Failed n # tr) = sent_bytes tr" "sent_bytes (Received cs # tr) = sent_bytes tr"
  "sent_bytes (tr @ tr') = sent_bytes tr @ sent_bytes tr'"
  by (simp_all add: sent_bytes_def)

lemma send_func:
  assumes "p_struct (ws_worker z) = Some h" and "is_header_send h"
  shows "run_func WORKERAA_FUNC_SEND_DATA z = Some (False, z)"
  using assms by (auto simp: run_func_def workeraa_func_def workeraa_http_func_def workeraa_http_send_def)

definition rest_of :: "worker_state \<Rightarrow> stringaa \<Rightarrow> char list" where
  "rest_of z s = drop (read_pos s) (chars (ws_mem z) s)"

lemma rest_load:
  assumes "cursor m s"
  shows "load_n m (padd (buf s) (read_pos s)) (write_pos s - read_pos s) = Some (drop (read_pos s) (chars m s))"
  using load_n_readable [of m s "read_pos s" "write_pos s - read_pos s"] assms by (simp add: cursor_def)

lemma worker_send_eq:
  assumes "buffer Response_Buffer z = Some s" and "cursor (ws_mem z) s" and "write_pos s < buf_size s"
  shows "socketaa_worker_send an Response_Buffer z = Some (if read_pos s < write_pos s
    then (let n = min (ans_send an) (int (length (rest_of z s))) in
      if n = 0 then (- 3, call (Send_Failed 0) z)
      else if n > 0 then (n, set_buffer Response_Buffer (s\<lparr>read_pos := read_pos s + nat n\<rparr>)
        (call (Sent (take (nat n) (rest_of z s))) z))
      else (- 1, call (Send_Failed (- 1)) z))
    else (0, z))"
  using assms rest_load [OF assms(2)] by (simp add: socketaa_worker_send_def rest_of_def Let_def)

lemma sending_buffer: "sending a z s \<Longrightarrow> buffer Response_Buffer z = Some s"
  by (auto simp: sending_def buffer_def)

text \<open>A round that is ready to send: it sends, or finds that all is sent and hangs up.\<close>

lemma send_round_more:
  assumes "sending a z s" and "ans_select an > 0" and "ans_send an > 0" and "read_pos s < write_pos s"
  defines "k \<equiv> nat (min (ans_send an) (int (length (rest_of z s))))"
  shows "\<exists>z'. worker_round an a z = Some z' \<and> sending a z' (s\<lparr>read_pos := read_pos s + k\<rparr>)
    \<and> ws_trace z' = ws_trace z @ [Sent (take k (rest_of z s))] \<and> ws_mem z' = ws_mem z \<and> 0 < k \<and> k \<le> length (rest_of z s)"
proof -
  from assms(1) obtain h where h: "p_struct (ws_worker z) = Some h" "is_header_send h" "wh_response h = s"
      "a < length (ws_works z)" "is_send (ws_works z ! a)" "is_select (ws_works z ! a)"
      "cursor (ws_mem z) s" "write_pos s < buf_size s"
    by (auto simp: sending_def)
  let ?z = "upd_work a (set_is_send False) z" and ?D = "rest_of z s"
  let ?y = "set_buffer Response_Buffer (s\<lparr>read_pos := read_pos s + k\<rparr>) (call (Sent (take k ?D)) ?z)"
  have D: "length ?D = write_pos s - read_pos s" using h(7) by (simp add: rest_of_def cursor_def)
  then have k: "0 < k" "k \<le> length ?D" using assms(3,4) by (simp_all add: k_def)
  have n: "min (ans_send an) (int (length ?D)) = int k" using assms(3) k by (simp add: k_def)
  have f: "run_func WORKERAA_FUNC_SEND_DATA ?z = Some (False, ?z)" using send_func [of ?z h] h by simp
  have "rest_of ?z s = ?D" by (simp add: rest_of_def)
  then have s: "socketaa_worker_send an Response_Buffer ?z = Some (int k, ?y)"
    using worker_send_eq [of ?z s an] h(1,3,7,8) assms(4) n k(1) by (simp add: buffer_def)
  have c: "socketaa_worker_check_send a (int k) ?y = upd_work a (set_is_send True) (upd_work a (set_is_send True) ?y)"
    using k(1) by (simp add: socketaa_worker_check_send_def)
  have "worker_round an a z = Some (upd_work a (set_is_send True) (upd_work a (set_is_send True) ?y))"
    using h(5) f s c assms(2) by (simp add: worker_round_def after_select_def Let_def)
  moreover have "sending a (upd_work a (set_is_send True) (upd_work a (set_is_send True) ?y)) (s\<lparr>read_pos := read_pos s + k\<rparr>)"
    using h k D by (auto simp: sending_def cursor_def)
  ultimately show ?thesis using k by auto
qed

lemma send_round_empty:
  assumes "a < length (ws_works z)" and "is_send (ws_works z ! a)" and "p_struct (ws_worker z) = Some h"
    and "is_header_send h" and "\<not> read_pos (wh_response h) < write_pos (wh_response h)" and "ans_select an > 0"
  shows "\<exists>z'. worker_round an a z = Some z' \<and> \<not> is_select (ws_works z' ! a)
    \<and> ws_trace z' = ws_trace z @ [Shutdown, Close]"
proof -
  let ?z = "upd_work a (set_is_send False) z"
  have f: "run_func WORKERAA_FUNC_SEND_DATA ?z = Some (False, ?z)" using send_func [of ?z h] assms(3,4) by simp
  have s: "socketaa_worker_send an Response_Buffer ?z = Some (0, ?z)"
    using assms(3,5) by (simp add: socketaa_worker_send_def buffer_def)
  show ?thesis
    using assms(1,2,6) f s by (simp add: worker_round_def after_select_def Let_def socketaa_worker_check_send_def)
qed

lemma send_round_done:
  assumes "sending a z s" and "ans_select an > 0" and "read_pos s = write_pos s"
  shows "\<exists>z'. worker_round an a z = Some z' \<and> \<not> is_select (ws_works z' ! a)
    \<and> ws_trace z' = ws_trace z @ [Shutdown, Close]"
  using assms by (auto simp: sending_def intro!: send_round_empty)

lemma sends_response:
  assumes "sending a z s" and "length (rest_of z s) < length ans"
    and "\<forall>an \<in> set ans. ans_select an > 0 \<and> ans_send an > 0"
  shows "returns (worker_loop ans a z) (\<lambda>(ended, z'). ended \<and> (\<exists>css. concat css = rest_of z s
    \<and> ws_trace z' = ws_trace z @ map Sent css @ [Shutdown, Close]))"
  using assms
proof (induction ans arbitrary: z s)
  case (Cons an ans)
  have sel: "is_select (ws_works z ! a)" and c: "cursor (ws_mem z) s" using Cons.prems(1) by (auto simp: sending_def)
  show ?case
  proof (cases "read_pos s < write_pos s")
    case True
    obtain z1 k where 1: "worker_round an a z = Some z1" "sending a z1 (s\<lparr>read_pos := read_pos s + k\<rparr>)"
        "ws_trace z1 = ws_trace z @ [Sent (take k (rest_of z s))]" "ws_mem z1 = ws_mem z" "0 < k" "k \<le> length (rest_of z s)"
      using send_round_more [OF Cons.prems(1) _ _ True, of an] Cons.prems(3) by auto
    have r: "rest_of z1 (s\<lparr>read_pos := read_pos s + k\<rparr>) = drop k (rest_of z s)"
      by (simp add: rest_of_def 1(4) add.commute)
    have "length (rest_of z s) - k < length ans" using Cons.prems(2) 1(5,6) by simp
    with r Cons.IH [OF 1(2)] Cons.prems(3) obtain z2 css where 2: "worker_loop ans a z1 = Some (True, z2)"
        "concat css = drop k (rest_of z s)" "ws_trace z2 = ws_trace z1 @ map Sent css @ [Shutdown, Close]"
      by (auto simp: returns_iff)
    show ?thesis
      using sel 1(1) 2 1(3) by (auto intro!: exI [of _ "take k (rest_of z s) # css"])
  next
    case False
    with c have e: "read_pos s = write_pos s" by (simp add: cursor_def)
    with send_round_done [OF Cons.prems(1) _ e, of an] Cons.prems(3) obtain z1 where 1: "worker_round an a z = Some z1"
        "\<not> is_select (ws_works z1 ! a)" "ws_trace z1 = ws_trace z @ [Shutdown, Close]" by auto
    have "rest_of z s = []" using e by (simp add: rest_of_def)
    moreover have "worker_loop ans a z1 = Some (True, z1)" using 1(2) by (cases ans) simp_all
    ultimately show ?thesis using sel 1 by (auto intro!: exI [of _ "[]"])
  qed
qed simp

text \<open>When a worker has its response ready, and the peer keeps taking at least one byte at a time, the
  loop ends: it has sent the whole response, in order and with no byte twice, and then has shut the
  connection down and closed it.\<close>

theorem worker_sends_response:
  assumes "sending a z s" and "length (rest_of z s) < length ans"
    and "\<forall>an \<in> set ans. ans_select an > 0 \<and> ans_send an > 0"
  shows "returns (worker_loop ans a z) (\<lambda>(ended, z'). ended \<and> (\<exists>css. concat css = rest_of z s
    \<and> ws_trace z' = ws_trace z @ map Sent css @ [Shutdown, Close]))"
  by (rule sends_response [OF assms])

text \<open>A worker that has its response ready in block 0, with the two buffers in blocks 0 and 1.\<close>

definition test_http :: workeraa_http where
  "test_http = workeraa_http_zero\<lparr>wh_response := (string_at 0 3)\<lparr>write_pos := 2\<rparr>, wh_request := (string_at 1 4)\<lparr>write_pos := 0\<rparr>,
     is_header_recv := True, is_header_send := True\<rparr>"

definition test_state :: "16 word \<Rightarrow> workeraa_http \<Rightarrow> worker_state" where
  "test_state fl h = \<lparr>ws_mem = memory_of [''ok.'', ''....''], ws_works = [\<lparr>w_conn = 7, w_port = 8080, w_flags = fl\<rparr>],
     ws_worker = \<lparr>p_work = Some 0, p_struct = Some h, p_data = None, work_id = 8080\<rparr>, ws_trace = []\<rparr>"

lemma test_sending: "sending 0 (test_state 5 test_http) ((string_at 0 3)\<lparr>write_pos := 2\<rparr>)"
  by (simp add: sending_def test_state_def test_http_def flag_defs cursor_def readable_def load_n_in string_at_def bit_numeral_rec)

lemma worker_sends_response_witness:
  "returns (worker_loop (replicate 3 \<lparr>ans_select = 1, ans_recv = None, ans_send = 1\<rparr>) 0 (test_state 5 test_http))
    (\<lambda>(ended, z'). ended \<and> (\<exists>css. concat css = ''ok'' \<and> ws_trace z' = map Sent css @ [Shutdown, Close]))"
proof -
  have "rest_of (test_state 5 test_http) ((string_at 0 3)\<lparr>write_pos := 2\<rparr>) = ''ok''"
    by (simp add: rest_of_def test_state_def chars_def load_n_in string_at_def)
  then show ?thesis
    using test_sending worker_sends_response [of 0 "test_state 5 test_http" "(string_at 0 3)\<lparr>write_pos := 2\<rparr>"
        "replicate 3 \<lparr>ans_select = 1, ans_recv = None, ans_send = 1\<rparr>"]
    by (simp add: test_state_def)
qed

section \<open>Closing\<close>

lemma set_work_flags_length:
  "socketaa_set_work_flags p fl ws = Some (b, ws') \<Longrightarrow> length ws' = length ws"
  by (auto simp: socketaa_set_work_flags_def split: option.splits if_splits)

lemma http_recv_length:
  "workeraa_http_recv m w ws = Some (b, w', ws', m') \<Longrightarrow> length ws' = length ws"
  by (auto simp: workeraa_http_recv_def Let_def bind_eq_Some_conv dest: set_work_flags_length
      split: option.splits if_splits)

lemma func_length:
  "workeraa_func alloc m w ws k = Some (b, w', ws', m') \<Longrightarrow> length ws' = length ws"
  by (cases k) (auto simp: workeraa_func_def workeraa_http_func_def workeraa_http_free_def bind_eq_Some_conv dest: http_recv_length
      split: if_splits prod.splits)

lemma run_func_frame:
  "run_func k z = Some (b, z') \<Longrightarrow> ws_trace z' = ws_trace z \<and> length (ws_works z') = length (ws_works z)"
  by (auto simp: run_func_def bind_eq_Some_conv dest: func_length)

lemma recv_frame:
  "socketaa_worker_recv an p z = Some (n, z') \<Longrightarrow> Close \<notin> set (ws_trace z) \<Longrightarrow>
   Close \<notin> set (ws_trace z') \<and> length (ws_works z') = length (ws_works z)"
  by (auto simp: socketaa_worker_recv_def bind_eq_Some_conv Let_def split: if_splits option.splits)

lemma send_frame:
  "socketaa_worker_send an p z = Some (n, z') \<Longrightarrow> Close \<notin> set (ws_trace z) \<Longrightarrow>
   Close \<notin> set (ws_trace z') \<and> length (ws_works z') = length (ws_works z)"
  by (auto simp: socketaa_worker_send_def bind_eq_Some_conv Let_def split: if_splits)

text \<open>The calls so far leave the connection open, or end with its close and perhaps a shutdown after it.\<close>

definition closed_once :: "sys_call list \<Rightarrow> bool" where
  "closed_once tr \<longleftrightarrow> (\<exists>t. Close \<notin> set t \<and> (tr = t @ [Close] \<or> tr = t @ [Close, Shutdown]))"

definition open_or_done :: "nat \<Rightarrow> worker_state \<Rightarrow> bool" where
  "open_or_done a z \<longleftrightarrow> a < length (ws_works z)
     \<and> (Close \<notin> set (ws_trace z) \<or> \<not> is_select (ws_works z ! a) \<and> closed_once (ws_trace z))"

lemma closed_onceI: "Close \<notin> set t \<Longrightarrow> closed_once (t @ [Close])" "Close \<notin> set t \<Longrightarrow> closed_once (t @ [Shutdown, Close])"
  "Close \<notin> set t \<Longrightarrow> closed_once (t @ [Close, Shutdown])"
proof -
  show "Close \<notin> set t \<Longrightarrow> closed_once (t @ [Close])" "Close \<notin> set t \<Longrightarrow> closed_once (t @ [Close, Shutdown])"
    unfolding closed_once_def by blast+
  show "Close \<notin> set t \<Longrightarrow> closed_once (t @ [Shutdown, Close])"
    unfolding closed_once_def by (intro exI [of _ "t @ [Shutdown]"]) simp
qed

lemma check_recv_open:
  assumes "socketaa_worker_check_recv a n z = Some z'" and "a < length (ws_works z)" and "Close \<notin> set (ws_trace z)"
  shows "open_or_done a z'"
  using assms
  by (auto simp: socketaa_worker_check_recv_def open_or_done_def bind_eq_Some_conv closed_onceI dest!: run_func_frame
      split: if_splits)

lemma check_send_open:
  assumes "a < length (ws_works z)" and "Close \<notin> set (ws_trace z)"
  shows "open_or_done a (socketaa_worker_check_send a n z)"
  using assms by (auto simp: socketaa_worker_check_send_def open_or_done_def Let_def closed_onceI)

lemma after_select_open:
  assumes "after_select an a rs ss z = Some z'" and "\<not> (rs \<and> ss)"
    and z: "a < length (ws_works z)" "Close \<notin> set (ws_trace z)"
  shows "open_or_done a z'"
proof (cases "ans_select an > 0")
  case sel: True
  show ?thesis
  proof (cases rs)
    case True
    with sel assms(1,2) obtain n z2 where
      "socketaa_worker_recv an Request_Buffer z = Some (n, z2)" "socketaa_worker_check_recv a n z2 = Some z'"
      by (auto simp: after_select_def bind_eq_Some_conv)
    with recv_frame [OF this(1) z(2)] z(1) check_recv_open show ?thesis by metis
  next
    case rs: False
    show ?thesis
    proof (cases ss)
      case True
      with sel rs assms(1) obtain b z2 n z3 where
        1: "run_func WORKERAA_FUNC_SEND_DATA z = Some (b, z2)" "socketaa_worker_send an Response_Buffer z2 = Some (n, z3)"
        and z': "z' = socketaa_worker_check_send a n z3"
        by (auto simp: after_select_def bind_eq_Some_conv)
      have "Close \<notin> set (ws_trace z2)" "a < length (ws_works z2)" using run_func_frame [OF 1(1)] z by simp_all
      with send_frame [OF 1(2)] z' check_send_open show ?thesis by simp
    next
      case False
      with sel rs assms(1) z show ?thesis by (simp add: after_select_def open_or_done_def)
    qed
  qed
next
  case False
  with assms(1) z show ?thesis
    by (auto simp: after_select_def open_or_done_def closed_onceI split: if_splits)
qed

lemma round_open:
  assumes "worker_round an a z = Some z'" and "a < length (ws_works z)" and "Close \<notin> set (ws_trace z)"
  shows "open_or_done a z'"
  using assms by (auto simp: worker_round_def Let_def intro: after_select_open split: if_splits)

text \<open>C13: whatever the peer and the system do, the worker closes the connection at most once, and after that
  it ends; the only call that can follow is the shutdown that is made after a failed send has closed
  the connection already.\<close>

theorem worker_closes_once:
  assumes "worker_loop ans a z = Some (ended, z')" and "a < length (ws_works z)" and "Close \<notin> set (ws_trace z)"
  shows "Close \<notin> set (ws_trace z') \<or> ended \<and> closed_once (ws_trace z')"
proof -
  have "(\<not> ended \<longrightarrow> is_select (ws_works z' ! a)) \<and> open_or_done a z'" if "open_or_done a z"
    using assms(1) that
  proof (induction ans arbitrary: z)
    case (Cons an ans)
    show ?case
    proof (cases "is_select (ws_works z ! a)")
      case True
      with Cons.prems obtain z1 where 1: "worker_round an a z = Some z1" "worker_loop ans a z1 = Some (ended, z')"
        by (auto simp: bind_eq_Some_conv)
      have "open_or_done a z1"
        using round_open [OF 1(1)] Cons.prems(2) True by (auto simp: open_or_done_def)
      from Cons.IH [OF 1(2) this] show ?thesis .
    next
      case False
      with Cons.prems show ?thesis by simp
    qed
  qed auto
  with assms(2,3) show ?thesis by (auto simp: open_or_done_def)
qed

lemma worker_closes_once_witness:
  "\<exists>z'. worker_loop [\<lparr>ans_select = 1, ans_recv = None, ans_send = - 1\<rparr>] 0 (test_state 5 test_http) = Some (True, z')
    \<and> (Close \<notin> set (ws_trace z') \<or> True \<and> closed_once (ws_trace z'))"
proof -
  let ?an = "\<lparr>ans_select = 1, ans_recv = None, ans_send = - 1\<rparr>"
  have s: "sending 0 (test_state 5 test_http) ((string_at 0 3)\<lparr>write_pos := 2\<rparr>)" by (rule test_sending)
  let ?z = "upd_work 0 (set_is_send False) (test_state 5 test_http)"
  obtain z' where z': "worker_loop [?an] 0 (test_state 5 test_http) = Some (True, z')" "ws_trace z' = [Send_Failed (- 1), Close, Shutdown]"
  proof -
    have p: "p_struct (ws_worker ?z) = Some test_http" "is_header_send test_http"
        "buffer Response_Buffer ?z = Some ((string_at 0 3)\<lparr>write_pos := 2\<rparr>)"
      by (simp_all add: test_state_def test_http_def buffer_def)
    from s have "cursor (ws_mem ?z) ((string_at 0 3)\<lparr>write_pos := 2\<rparr>)" "0 < length (ws_works (test_state 5 test_http))"
        "is_select (ws_works (test_state 5 test_http) ! 0)" "is_send (ws_works (test_state 5 test_http) ! 0)"
      by (auto simp: sending_def)
    moreover have "rest_of ?z ((string_at 0 3)\<lparr>write_pos := 2\<rparr>) = ''ok''"
      by (simp add: rest_of_def test_state_def chars_def load_n_in string_at_def)
    moreover have "ws_trace ?z = []" by (simp add: test_state_def)
    ultimately show thesis
      using that send_func [OF p(1,2)] worker_send_eq [of ?z "(string_at 0 3)\<lparr>write_pos := 2\<rparr>" ?an] p(3)
      by (simp add: worker_round_def after_select_def Let_def socketaa_worker_check_send_def)
  qed
  have "Close \<notin> set (ws_trace z') \<or> True \<and> closed_once (ws_trace z')"
    using worker_closes_once [OF z'(1)] s by (simp add: sending_def test_state_def)
  with z'(1) show ?thesis by blast
qed

section \<open>The second connection of a worker\<close>

lemma set_response_file_name_request:
  "httpaa_work_set_response_file_name m http p = Some (b, http', m') \<Longrightarrow> http_request http' = http_request http"
  by (auto simp: httpaa_work_set_response_file_name_def bind_eq_Some_conv split: if_splits)

lemma get_request_file_name_request:
  "httpaa_work_get_request_file_name m http = Some (b, http', m') \<Longrightarrow> http_request http' = http_request http"
  by (auto simp: httpaa_work_get_request_file_name_def bind_eq_Some_conv split: if_splits)

lemma method_get_request:
  "http11_work_method_get m http p = Some (b, http', m') \<Longrightarrow> http_request http' = http_request http"
  by (auto simp: http11_work_method_get_def bind_eq_Some_conv split: if_splits
      dest!: set_response_file_name_request get_request_file_name_request)

lemma serve_port: "work_id w = 8080 \<Longrightarrow> workeraa_func alloc m w ws k = workeraa_http_func alloc m w ws k"
  by (simp add: workeraa_func_def WORKERAA_HTTP_DEBUG_PORT_def)

text \<open>The round in which a worker receives data with which it finds its request, a GET, parsed.\<close>

lemma recv_round:
  assumes a: "a < length (ws_works z)" "is_recv (ws_works z ! a)" "\<not> is_send (ws_works z ! a)"
    and w: "p_struct (ws_worker z) = Some h" "p_work (ws_worker z) = Some a" "work_id (ws_worker z) = 8080"
    and r: "write_pos (wh_request h) = 0" "0 < buf_size (wh_request h)"
    and cs: "store_n (ws_mem z) (buf (wh_request h)) (take (buf_size (wh_request h)) cs) = Some m1" "cs \<noteq> []"
    and hd: "workeraa_http_header m1 ((ws_worker z)\<lparr>p_struct := Some
          (h\<lparr>wh_request := (wh_request h)\<lparr>write_pos := length (take (buf_size (wh_request h)) cs)\<rparr>\<rparr>)\<rparr>)
        = Some (True, (ws_worker z)\<lparr>p_struct := Some h1\<rparr>, m2)"
    and k: "rl_method (rline (wh_http h1)) = http11_method_get"
    and g: "http11_work_method_get m2 (wh_http h1) (wh_path h1) = Some (b, http', m3)"
    and an: "ans_select an > 0" "ans_recv an = Some cs"
  shows "returns (worker_round an a z) (\<lambda>z'. a < length (ws_works z')
    \<and> w_flags (ws_works z' ! a) = SOCKETAA_WORK_FLAGS_IS_SEND OR SOCKETAA_WORK_FLAGS_IS_SELECT
    \<and> ws_trace z' = ws_trace z @ [Received (take (buf_size (wh_request h)) cs)]
    \<and> p_struct (ws_worker z') = Some (h1\<lparr>wh_http := http'\<rparr>) \<and> work_id (ws_worker z') = 8080 \<and> ws_mem z' = m3)"
proof -
  let ?cs = "take (buf_size (wh_request h)) cs" and ?z = "upd_work a (set_is_recv False) z"
  let ?r = "(wh_request h)\<lparr>write_pos := length ?cs\<rparr>"
  let ?y = "set_buffer Request_Buffer ?r (call (Received ?cs) (?z\<lparr>ws_mem := m1\<rparr>))"
  have ne: "?cs \<noteq> []" using r(2) cs(2) by simp
  have 1: "socketaa_worker_recv an Request_Buffer ?z = Some (int (length ?cs), ?y)"
    using w(1) r cs(1) an(2) ne by (simp add: socketaa_worker_recv_def buffer_def Let_def)
  let ?h = "h\<lparr>wh_request := ?r\<rparr>" and ?y1 = "upd_work a (set_is_recv True) ?y"
  have y1: "ws_worker ?y1 = (ws_worker z)\<lparr>p_struct := Some ?h\<rparr>" using w(1) by (simp add: set_buffer_def)
  have "http_request http' = http_request (wh_http h1)" using method_get_request [OF g] .
  then have k': "rl_method (rline http') = http11_method_get" using k by (simp add: rline_def)
  have md: "workeraa_http_method m2 ((ws_worker z)\<lparr>p_struct := Some h1\<rparr>) http11_method_get =
      Some (b, (ws_worker z)\<lparr>p_struct := Some (h1\<lparr>wh_http := http'\<rparr>)\<rparr>, m3)"
    using g by (simp add: workeraa_http_method_def)
  let ?fl = "SOCKETAA_WORK_FLAGS_IS_SEND OR SOCKETAA_WORK_FLAGS_IS_SELECT"
  let ?ws = "(ws_works ?y1)[a := (ws_works ?y1 ! a)\<lparr>w_flags := ?fl\<rparr>]"
  let ?w = "(ws_worker z)\<lparr>p_struct := Some (h1\<lparr>wh_http := http'\<rparr>)\<rparr>"
  have fl: "socketaa_set_work_flags (Some a) ?fl (ws_works ?y1) = Some (True, ?ws)"
    using a(1) by (simp add: socketaa_set_work_flags_def)
  have rv: "workeraa_http_recv m1 (ws_worker ?y1) (ws_works ?y1) = Some (True, ?w, ?ws, m3)"
    unfolding workeraa_http_recv_def y1
    using hd md fl k k' w(2) by (simp add: Let_def)
  let ?y2 = "?y1\<lparr>ws_mem := m3, ws_worker := ?w, ws_works := ?ws\<rparr>"
  have pw: "work_id (ws_worker ?y1) = 8080" "ws_mem ?y1 = m1" using w(3) by (simp_all add: y1)
  have 2: "run_func WORKERAA_FUNC_RECV_DATA ?y1 = Some (True, ?y2)"
    unfolding run_func_def pw(2) serve_port [OF pw(1)] workeraa_http_func_def workeraa_func_enum.case rv
    by (simp only: bind.bind_lunit prod.case)
  have "int (length ?cs) > 0" using ne by simp
  then have 3: "socketaa_worker_check_recv a (int (length ?cs)) ?y = Some ?y2"
    using 2 by (simp add: socketaa_worker_check_recv_def)
  have "worker_round an a z = Some ?y2"
    using a(2,3) an(1) 1 3 by (simp add: worker_round_def after_select_def Let_def)
  then show ?thesis using a(1) w(3) by simp
qed

text \<open>A worker that has its struct and its buffers cleans the buffers and goes into the loop.\<close>

lemma serve_reused:
  assumes "p_struct (ws_worker z) = Some h" and "p_work (ws_worker z) = Some a" and "a < length (ws_works z)"
    and "w_port (ws_works z ! a) = 8080" and "is_init (wh_request h)" and "is_init (wh_response h)"
  defines "h1 \<equiv> h\<lparr>wh_request := (wh_request h)\<lparr>read_pos := 0, write_pos := 0\<rparr>,
    wh_response := (wh_response h)\<lparr>read_pos := 0, write_pos := 0\<rparr>\<rparr>"
  shows "workeraa_serve alloc ans z = worker_loop ans a
    (z\<lparr>ws_worker := (ws_worker z)\<lparr>p_struct := Some h1, p_data := Some Response_Buffer, work_id := 8080\<rparr>\<rparr>)"
proof -
  define w1 where "w1 = (ws_worker z)\<lparr>work_id := 8080, p_struct := Some h1\<rparr>"
  have "workeraa_func alloc (ws_mem z) ((ws_worker z)\<lparr>work_id := 8080\<rparr>) (ws_works z) WORKERAA_FUNC_INIT =
      Some (True, w1, ws_works z, ws_mem z)"
    using assms(1,5,6)
    by (simp add: serve_port workeraa_http_func_def workeraa_http_init_def init_buffer_def w1_def h1_def
        stringaa_clean_def stringaa_begin_read_pos_def stringaa_begin_write_pos_def Let_def)
  then have "workeraa_serve alloc ans z = socketaa_worker ans (z\<lparr>ws_worker := w1\<rparr>)"
    using assms(2-4) by (simp add: workeraa_serve_def socketaa_get_port_def Let_def)
  then show ?thesis
    using assms(2-4) by (simp add: socketaa_worker_def run_func_def serve_port workeraa_http_func_def
        workeraa_http_get_buffer_def w1_def)
qed

text \<open>C37: a worker that has answered a request keeps the flags that say so: when it takes its next
  connection, the request is received but not parsed, no response is made, nothing is sent, and the
  connection is shut down and closed.\<close>

theorem worker_second_connection_unanswered:
  assumes "p_struct (ws_worker z) = Some h" and "is_header_recv h" and "is_header_send h"
    and "rl_method (rline (wh_http h)) = http11_method_get"
    and "p_work (ws_worker z) = Some a" and "a < length (ws_works z)" and "w_port (ws_works z ! a) = 8080"
    and "w_flags (ws_works z ! a) = SOCKETAA_WORK_FLAGS_IS_SELECT OR SOCKETAA_WORK_FLAGS_IS_RECV"
    and "is_init (wh_request h)" and "is_init (wh_response h)" and "0 < buf_size (wh_request h)"
    and "store_n (ws_mem z) (buf (wh_request h)) (take (buf_size (wh_request h)) cs) = Some m1" and "cs \<noteq> []"
    and "http11_work_method_get m1 (wh_http h) (wh_path h) = Some (b, http', m2)"
    and "ans_select an1 > 0" and "ans_recv an1 = Some cs" and "ans_select an2 > 0"
  shows "returns (workeraa_serve alloc [an1, an2] z) (\<lambda>(ended, z'). ended
    \<and> ws_trace z' = ws_trace z @ [Received (take (buf_size (wh_request h)) cs), Shutdown, Close])"
proof -
  let ?clean = "\<lambda>s. s\<lparr>read_pos := 0, write_pos := 0\<rparr>"
  define h1 where "h1 = h\<lparr>wh_request := ?clean (wh_request h), wh_response := ?clean (wh_response h)\<rparr>"
  define z2 where "z2 = z\<lparr>ws_worker := (ws_worker z)\<lparr>p_struct := Some h1, p_data := Some Response_Buffer, work_id := 8080\<rparr>\<rparr>"
  have e: "workeraa_serve alloc [an1, an2] z = worker_loop [an1, an2] a z2"
    unfolding z2_def h1_def by (rule serve_reused [OF assms(1,5,6,7,9,10)])
  have f: "is_select (ws_works z ! a)" "is_recv (ws_works z ! a)" "\<not> is_send (ws_works z ! a)"
    using assms(8) by (auto simp: flag_defs SOCKETAA_WORK_FLAGS_IS_SELECT_def SOCKETAA_WORK_FLAGS_IS_RECV_def bit_simps bit_numeral_rec)
  let ?h1 = "h1\<lparr>wh_request := (wh_request h1)\<lparr>write_pos := length (take (buf_size (wh_request h1)) cs)\<rparr>\<rparr>"
  have hd: "workeraa_http_header m1 ((ws_worker z2)\<lparr>p_struct := Some ?h1\<rparr>)
      = Some (True, (ws_worker z2)\<lparr>p_struct := Some ?h1\<rparr>, m1)"
    using assms(2) by (simp add: workeraa_http_header_def h1_def)
  obtain z3 where 3: "worker_round an1 a z2 = Some z3" "a < length (ws_works z3)"
      "w_flags (ws_works z3 ! a) = SOCKETAA_WORK_FLAGS_IS_SEND OR SOCKETAA_WORK_FLAGS_IS_SELECT"
      "ws_trace z3 = ws_trace z @ [Received (take (buf_size (wh_request h)) cs)]"
      "p_struct (ws_worker z3) = Some (?h1\<lparr>wh_http := http'\<rparr>)"
    using recv_round [of a z2 h1 cs m1 ?h1 m1 b http' m2 an1] hd f assms
    by (auto simp: z2_def h1_def elim!: returnsE)
  have f3: "is_select (ws_works z3 ! a)" "is_send (ws_works z3 ! a)"
    using 3(3) by (auto simp: flag_defs SOCKETAA_WORK_FLAGS_IS_SELECT_def SOCKETAA_WORK_FLAGS_IS_SEND_def bit_simps bit_numeral_rec)
  have "\<not> read_pos (wh_response h1) < write_pos (wh_response h1)" by (simp add: h1_def)
  then obtain z4 where 4: "worker_round an2 a z3 = Some z4" "\<not> is_select (ws_works z4 ! a)"
      "ws_trace z4 = ws_trace z3 @ [Shutdown, Close]"
    using send_round_empty [OF 3(2) f3(2) _ _ _ assms(17)] 3(5) assms(3) h1_def by auto
  have "is_select (ws_works z2 ! a)" using f by (simp add: z2_def)
  then show ?thesis using e 3(1,4) f3 4 by simp
qed

lemma worker_second_connection_unanswered_witness:
  "returns (workeraa_serve True [\<lparr>ans_select = 1, ans_recv = Some ''GET'', ans_send = 0\<rparr>, \<lparr>ans_select = 1, ans_recv = None, ans_send = 1\<rparr>]
      (test_state 3 (test_http\<lparr>wh_http := set_rline ((rline httpaa_zero)\<lparr>rl_method := http11_method_get\<rparr>) httpaa_zero\<rparr>)))
    (\<lambda>(ended, z'). ended \<and> ws_trace z' = [Received ''GET'', Shutdown, Close])"
proof -
  let ?http = "set_rline ((rline httpaa_zero)\<lparr>rl_method := http11_method_get\<rparr>) httpaa_zero"
  let ?h = "test_http\<lparr>wh_http := ?http\<rparr>" and ?m = "memory_of [''ok.'', ''....'']"
  let ?m1 = "?m\<lparr>blocks := (blocks ?m)(1 \<mapsto> ''GET.'')\<rparr>"
  have st: "store_n ?m (Ptr 1 0) ''GET'' = Some ?m1" by (simp add: store_n_in)
  have k: "rl_method (rline ?http) = http11_method_get" by (simp add: rline_def set_rline_def)
  have ab: "u_abs_path (request_uri (rline ?http)) = stringaa_zero"
    by (simp add: rline_def set_rline_def httpaa_zero_def uriaa_zero_def Let_def)
  have g: "http11_work_method_get ?m1 ?http stringaa_zero = Some (False, ?http, ?m1)"
    by (simp add: http11_work_method_get_def httpaa_work_get_request_file_name_def ab stringaa_copy_def)
  have p: "wh_request ?h = (string_at 1 4)\<lparr>write_pos := 0\<rparr>" "wh_response ?h = (string_at 0 3)\<lparr>write_pos := 2\<rparr>"
      "wh_http ?h = ?http" "wh_path ?h = stringaa_zero" "is_header_recv ?h" "is_header_send ?h"
    by (simp_all add: test_http_def workeraa_http_zero_def)
  have f: "(3 :: 16 word) = SOCKETAA_WORK_FLAGS_IS_SELECT OR SOCKETAA_WORK_FLAGS_IS_RECV"
    by (simp add: SOCKETAA_WORK_FLAGS_IS_SELECT_def SOCKETAA_WORK_FLAGS_IS_RECV_def)
  show ?thesis
    using worker_second_connection_unanswered [of "test_state 3 ?h" ?h 0 "''GET''" ?m1 False ?http ?m1
        "\<lparr>ans_select = 1, ans_recv = Some ''GET'', ans_send = 0\<rparr>" "\<lparr>ans_select = 1, ans_recv = None, ans_send = 1\<rparr>" True]
      k g p st f
    by (simp add: test_state_def)
qed

end
