(* ===== verification/Worker_Answer.thy ===== *)
theory Worker_Answer
  imports Socket_Worker_Proofs
begin

text \<open>
  The answer of a worker to the first request it gets: what \<open>workeraa_http_create_response\<close> writes into
  the response buffer, and what goes over the connection.  \<open>appends\<close> is the contract of the calls that
  build a message, which composes along the sequence of calls.
\<close>

section \<open>Building a message\<close>

definition no_failure :: "mem \<Rightarrow> bool" where
  "no_failure m \<longleftrightarrow> mem_ok m \<and> (\<forall>i. \<not> oom m i)"

text \<open>A string that the library has allocated, or a zeroed struct.\<close>

definition ready :: "mem \<Rightarrow> stringaa \<Rightarrow> bool" where
  "ready m s \<longleftrightarrow> owned m s \<or> blank s \<and> buf s = Null"

lemma ready_growable: "ready m s \<Longrightarrow> growable m s"
  by (auto simp: ready_def growable_def)

definition appends :: "mem \<Rightarrow> stringaa \<Rightarrow> char list \<Rightarrow> mem \<Rightarrow> stringaa \<Rightarrow> bool" where
  "appends m s cs m' s' \<longleftrightarrow> no_failure m' \<and> ready m' s' \<and> chars m' s' = chars m s @ cs
     \<and> other_blocks m m' (block_of (buf s))
     \<and> (buf s' = buf s \<or> (\<exists>a. block_of (buf s') = Some a \<and> nalloc m \<le> a))
     \<and> (cs \<noteq> [] \<longrightarrow> owned m' s' \<and> is_init s' \<and> read_pos s' = 0)"

lemma appends_trans:
  assumes "appends m s cs m' s'" and "appends m' s' ds m'' s''" and "ds \<noteq> []"
  shows "appends m s (cs @ ds) m'' s''"
proof -
  have "other_blocks m m'' (block_of (buf s))"
    using assms(1,2) unfolding appends_def other_blocks_def by fastforce
  moreover have "buf s'' = buf s \<or> (\<exists>a. block_of (buf s'') = Some a \<and> nalloc m \<le> a)"
    using assms(1,2) unfolding appends_def other_blocks_def by (metis order_trans)
  ultimately show ?thesis using assms by (simp add: appends_def)
qed

lemma appends_size:
  assumes "no_failure m" and "ready m s" and "load_n m p n = Some cs" and "p \<noteq> Null" and "block_of p \<noteq> block_of (buf s)"
    and "n > 0"
  shows "returns (stringaa_add_chars_size m s p n) (\<lambda>(ok, s', m'). appends m s cs m' s')"
proof -
  from assms(1) have "mem_ok m" "\<not> oom m (nalloc m)" by (simp_all add: no_failure_def)
  from add_chars_size_ok [OF this ready_growable [OF assms(2)] assms(3-5)] obtain ok s' m' where
    1: "stringaa_add_chars_size m s p n = Some (ok, s', m')" "growable m' s'" "chars m' s' = chars m s @ cs"
      "owned m' s'" "is_init s'" "read_pos s' = 0" "other_blocks m m' (block_of (buf s))"
      "buf s' = buf s \<or> block_of (buf s') = Some (nalloc m) \<and> nalloc m < nalloc m'"
    using assms(6) by (auto simp: returns_iff)
  then show ?thesis using assms(1) by (auto simp: appends_def no_failure_def other_blocks_def ready_def)
qed

text \<open>A new block changes nothing for a string that exists.\<close>

lemma ready_other:
  assumes "no_failure m" and "ready m s" and "other_blocks m m' x" and "block_of (buf s) \<noteq> x"
  shows "ready m' s" and "chars m' s = chars m s"
proof -
  have *: "ready m' s \<and> chars m' s = chars m s"
  proof (cases "owned m s")
    case True
    then obtain a bs where s: "buf s = Ptr a 0" "blocks m a = Some bs" "length bs = buf_size s" "write_pos s < buf_size s"
      by (auto simp: owned_def)
    then have "a < nalloc m" using assms(1) mem_ok_lt by (auto simp: no_failure_def)
    then have "blocks m' a = Some bs" using assms(3,4) s by (auto simp: other_blocks_def)
    with True s chars_at [of s a m bs] chars_at [of s a m' bs] show ?thesis by (simp add: ready_def owned_def)
  next
    case False
    with assms(2) have "blank s" "buf s = Null" by (simp_all add: ready_def)
    with blank_chars [of s m] blank_chars [of s m'] show ?thesis by (simp add: ready_def)
  qed
  then show "ready m' s" "chars m' s = chars m s" by simp_all
qed

lemma ready_block: "no_failure m \<Longrightarrow> ready m s \<Longrightarrow> block_of (buf s) = Some a \<Longrightarrow> a < nalloc m"
  using mem_ok_lt by (auto simp: ready_def owned_def no_failure_def)

lemma appends_literal:
  assumes "no_failure m" and "ready m s" and "NUL \<notin> set cs" and "cs \<noteq> []"
  shows "returns (add_literal m s cs) (\<lambda>(s', m'). appends m s cs m' s')"
proof -
  let ?m = "m\<lparr>blocks := (blocks m)(nalloc m \<mapsto> cs @ [NUL]), nalloc := Suc (nalloc m)\<rparr>" and ?p = "Ptr (nalloc m) 0"
  have ob: "other_blocks m ?m (Some (nalloc m))" using assms(1) by (simp add: no_failure_def other_blocks_new)
  have nf: "no_failure ?m" using assms(1) by (auto simp: no_failure_def mem_ok_def)
  have ne: "block_of (buf s) \<noteq> Some (nalloc m)" using ready_block [OF assms(1,2)] by blast
  note r = ready_other [OF assms(1,2) ob ne]
  have ld: "load_n ?m ?p (length cs) = Some cs" by (simp add: load_n_in)
  have "c_strlen ?m ?p = Some (length cs)" using nul_index_nul [OF assms(3), of "[]"] by (simp add: c_strlen_def)
  then have e: "add_literal m s cs = do {
      (_, s, m) \<leftarrow> stringaa_add_chars_size ?m s ?p (length cs); Some (s, m) }"
    by (simp add: add_literal_def literal_def stringaa_add_chars_def)
  from appends_size [OF nf r(1) ld] ne assms(4) obtain ok s' m' where
    1: "stringaa_add_chars_size ?m s ?p (length cs) = Some (ok, s', m')" "appends ?m s cs m' s'"
    by (auto simp: returns_iff)
  have "appends m s cs m' s'"
    using 1(2) r(2) by (auto simp: appends_def other_blocks_def)
  with e 1(1) show ?thesis by simp
qed

lemma appends_view:
  assumes "no_failure m" and "ready m s" and "load_n m (buf v) (write_pos v) = Some cs" and "buf v \<noteq> Null"
    and "block_of (buf v) \<noteq> block_of (buf s)" and "is_init v" and "read_pos v = 0" and "0 < write_pos v"
    and "write_pos v + of_bool (is_null_terminated v) \<le> buf_size v"
  shows "returns (stringaa_add m s v) (\<lambda>(ok, s', m'). appends m s cs m' s')"
  using appends_size [OF assms(1-5,8)] assms(4,6-9) by (simp add: stringaa_add_def)

lemma appends_source:
  assumes "appends m s cs m' s'" and "no_failure m" and "load_n m p n = Some ds" and "n \<noteq> 0" and "block_of p \<noteq> block_of (buf s)"
  shows "load_n m' p n = Some ds" and "block_of p \<noteq> block_of (buf s')"
proof -
  from assms(1,2) have ob: "other_blocks m m' (block_of (buf s))" "mem_ok m"
      "buf s' = buf s \<or> (\<exists>a. block_of (buf s') = Some a \<and> nalloc m \<le> a)"
    by (simp_all add: appends_def no_failure_def)
  show "load_n m' p n = Some ds" using other_blocks_load_n [OF ob(1,2) assms(3)] assms(5) by blast
  obtain a off bs where "p = Ptr a off" "blocks m a = Some bs" using load_n_block [OF assms(3)] assms(4) by auto
  then show "block_of p \<noteq> block_of (buf s')" using mem_ok_lt [OF ob(2)] ob(3) assms(5) by fastforce
qed

lemma appends_ready: "appends m s cs m' s' \<Longrightarrow> no_failure m' \<and> ready m' s'"
  by (simp add: appends_def)

text \<open>A string that is the source of an append.\<close>

definition source :: "mem \<Rightarrow> stringaa \<Rightarrow> stringaa \<Rightarrow> char list \<Rightarrow> bool" where
  "source m s v cs \<longleftrightarrow> load_n m (buf v) (write_pos v) = Some cs \<and> buf v \<noteq> Null \<and> block_of (buf v) \<noteq> block_of (buf s)
     \<and> is_init v \<and> read_pos v = 0 \<and> 0 < write_pos v \<and> write_pos v + of_bool (is_null_terminated v) \<le> buf_size v"

lemma source_appends: "source m s v cs \<Longrightarrow> appends m s ds m' s' \<Longrightarrow> no_failure m \<Longrightarrow> source m' s' v cs"
  using appends_source [of m s ds m' s' "buf v" "write_pos v" cs] by (simp add: source_def)

text \<open>One call after another.\<close>

lemma then_literal:
  assumes "appends m0 s0 cs m s" and "NUL \<notin> set ds" and "ds \<noteq> []"
    and "\<And>m' s'. appends m0 s0 (cs @ ds) m' s' \<Longrightarrow> returns (f s' m') Q"
  shows "returns (do { (s, m) \<leftarrow> add_literal m s ds; f s m }) Q"
proof -
  have "returns (add_literal m s ds) (\<lambda>(s', m'). appends m s ds m' s')"
    using appends_ready [OF assms(1)] assms(2,3) by (intro appends_literal) simp_all
  then obtain s' m' where "add_literal m s ds = Some (s', m')" "appends m s ds m' s'" by (auto elim: returnsE)
  with assms(4) [OF appends_trans [OF assms(1) this(2) assms(3)]] show ?thesis by simp
qed

lemma then_view:
  assumes "appends m0 s0 cs m s" and "source m0 s0 v ds" and "no_failure m0" and "ds \<noteq> []"
    and "\<And>ok m' s'. appends m0 s0 (cs @ ds) m' s' \<Longrightarrow> returns (f s' m') Q"
  shows "returns (do { (_, s, m) \<leftarrow> stringaa_add m s v; f s m }) Q"
proof -
  have "source m s v ds" using source_appends [OF assms(2,1,3)] .
  with appends_ready [OF assms(1)] appends_view [of m s v ds] obtain ok s' m' where
    "stringaa_add m s v = Some (ok, s', m')" "appends m s ds m' s'" by (auto simp: returns_iff source_def)
  with assms(5) [OF appends_trans [OF assms(1) this(2) assms(4)]] show ?thesis by simp
qed

lemma appends_nil: "no_failure m \<Longrightarrow> ready m s \<Longrightarrow> appends m s [] m s"
  by (simp add: appends_def other_blocks_def no_failure_def)

section \<open>The response\<close>

definition hello_response :: "char list" where
  "hello_response = ''HTTP/1.1 200 OK'' @ [CR, LF] @ ''Content-Length: '' @ show_nat (length hello_body)
     @ [CR, LF] @ [CR, LF] @ hello_body"

lemma show_nat_nul: "NUL \<notin> set (show_nat n) \<and> show_nat n \<noteq> []"
proof (induction n rule: show_nat.induct)
  case (1 n)
  have "NUL \<noteq> char_of (48 + k)" if "k < 10" for k :: nat
  proof
    assume "NUL = char_of (48 + k)"
    then have "(of_char NUL :: nat) = of_char (char_of (48 + k) :: char)" by (rule arg_cong)
    with that show False unfolding of_char_of by simp
  qed
  with 1 show ?case by (subst (1 2) show_nat.simps) (auto simp: )
qed

lemma message_ok:
  assumes "no_failure m" and "ready m s" and "chars m s = []"
    and "source m s r ''200 OK''" and "source m s b hello_body" and "write_pos b = length hello_body"
    and "\<And>m' s'. no_failure m' \<Longrightarrow> owned m' s' \<Longrightarrow> read_pos s' = 0 \<Longrightarrow> chars m' s' = hello_response \<Longrightarrow> returns (f s' m') Q"
  shows "returns (do {
         (s, m) \<leftarrow> add_literal m s (''HTTP/'' @ show_int 1 @ ''.'' @ show_int 1 @ '' '');
         (_, s, m) \<leftarrow> stringaa_add m s r;
         (s, m) \<leftarrow> add_literal m s [CR, LF];
         (s, m) \<leftarrow> add_literal m s (http11_entity_header_original_array ! (entity_header_value http11_entity_header_content_length - HTTP11_ENTITY_HEADER_ARRAY_START));
         (s, m) \<leftarrow> add_literal m s ('': '' @ show_nat (write_pos b) @ [CR, LF]);
         (s, m) \<leftarrow> add_literal m s [CR, LF];
         (_, s, m) \<leftarrow> stringaa_add m s b;
         f s m }) Q"
proof -
  have e: "http11_entity_header_original_array ! (entity_header_value http11_entity_header_content_length - HTTP11_ENTITY_HEADER_ARRAY_START) = ''Content-Length''"
    by (simp add: http11_entity_header_original_array_def)
  have v: "show_int 1 = ''1''" by code_simp
  have h: "hello_body \<noteq> []" by (simp add: hello_body_def)
  have x: "hello_response = [] @ (''HTTP/'' @ ''1'' @ ''.'' @ ''1'' @ '' '') @ ''200 OK'' @ [CR, LF] @ ''Content-Length''
      @ ('': '' @ show_nat (write_pos b) @ [CR, LF]) @ [CR, LF] @ hello_body"
    by (simp add: hello_response_def assms(6))
  show ?thesis
    unfolding e v
    by (rule then_literal [OF appends_nil [OF assms(1,2)]], simp, simp,
        rule then_view [OF _ assms(4,1)], assumption, simp,
        rule then_literal, assumption, simp, simp,
        rule then_literal, assumption, simp, simp,
        rule then_literal, assumption, simp add: show_nat_nul, simp,
        rule then_literal, assumption, simp, simp,
        rule then_view [OF _ assms(5,1)], assumption, rule h)
      (rule assms(7), simp_all add: appends_def x assms(3))
qed

lemma reason_ok:
  assumes "no_failure m" and "ready m r" and "chars m r = []"
    and "\<And>m' r'. appends m r ''200 OK'' m' r' \<Longrightarrow> returns (f r' m') Q"
  shows "returns (do {
         (r, m) \<leftarrow> add_literal m r (http11_status_code_array ! (status_code_key_value http11_status_code_key_200_OK * 2));
         (r, m) \<leftarrow> add_literal m r '' '';
         (r, m) \<leftarrow> add_literal m r (http11_status_code_array ! (status_code_key_value http11_status_code_key_200_OK * 2 + 1));
         f r m }) Q"
proof -
  have e: "http11_status_code_array ! (status_code_key_value http11_status_code_key_200_OK * 2) = ''200''"
      "http11_status_code_array ! (status_code_key_value http11_status_code_key_200_OK * 2 + 1) = ''OK''"
    by (simp_all add: http11_status_code_array_def)
  show ?thesis
    unfolding e
    by (rule then_literal [OF appends_nil [OF assms(1,2)]], simp, simp,
        rule then_literal, assumption, simp, simp,
        rule then_literal, assumption, simp, simp) (simp add: assms(4))
qed

text \<open>The struct of a worker that can make a response: its buffer and the reason phrase are strings of the
  library in blocks of their own, and the body is not.\<close>

definition can_answer :: "mem \<Rightarrow> workeraa_http \<Rightarrow> bool" where
  "can_answer m h \<longleftrightarrow> no_failure m \<and> owned m (wh_response h)
     \<and> ready m (reason_phrase (status_line (http_response (wh_http h))))
     \<and> block_of (buf (wh_response h)) \<noteq> block_of (buf (reason_phrase (status_line (http_response (wh_http h)))))
     \<and> \<not> is_alloc (response_body (http_response (wh_http h)))"

abbreviation clean :: "stringaa \<Rightarrow> stringaa" where
  "clean s \<equiv> snd (stringaa_clean s)"

lemma clean_sel [simp]: "buf (clean s) = buf s" "read_pos (clean s) = 0" "write_pos (clean s) = 0"
  "is_init (clean s) = is_init s" "buf_size (clean s) = buf_size s"
  by (simp_all add: stringaa_clean_def stringaa_begin_read_pos_def stringaa_begin_write_pos_def)

lemma clean_ready: "ready m s \<Longrightarrow> ready m (clean s)" "chars m (clean s) = []"
  by (auto simp: ready_def owned_def blank_def stringaa_clean_def stringaa_begin_read_pos_def
      stringaa_begin_write_pos_def chars_def load_n_def)

lemma set_chars_literal:
  assumes "\<not> is_alloc b" and "NUL \<notin> set cs" and "cs \<noteq> []" and "literal m cs = (p, m')"
  shows "\<exists>ok b'. stringaa_set_chars m' b p = Some (ok, b', m') \<and> buf b' = p \<and> is_init b' \<and> read_pos b' = 0
    \<and> write_pos b' = length cs \<and> buf_size b' = length cs + 1"
proof -
  have "c_strlen m' p = Some (length cs)" "p \<noteq> Null"
    using assms(4) nul_index_nul [OF assms(2), of "[]"] by (auto simp: literal_def c_strlen_def)
  then show ?thesis
    using assms(1,3)
    by (auto simp: stringaa_set_chars_def stringaa_set_chars_size_def set_flags_def end_of_def Let_def)
qed

lemma owned_load: "owned m s \<Longrightarrow> load_n m (buf s) (write_pos s) = Some (chars m s)"
  using load_n_readable [of m s 0 "write_pos s"] growable_readable [of m s] by (simp add: growable_def)

lemma sources_ok:
  assumes "no_failure m" and "ready m s" and "appends m r ''200 OK'' m3 r3" and "chars m r = []" and "block_of (buf s) \<noteq> block_of (buf r)"
    and "buf s \<noteq> Null" and "literal m3 hello_body = (p, m4)" and "buf b = p" and "is_init b" and "read_pos b = 0"
    and "write_pos b = length hello_body" and "buf_size b = length hello_body + 1"
  shows "no_failure m4" and "ready m4 s" and "source m4 s r3 ''200 OK''" and "source m4 s b hello_body"
proof -
  have r3: "no_failure m3" "owned m3 r3" "chars m3 r3 = ''200 OK''" "is_init r3" "read_pos r3 = 0"
      "other_blocks m m3 (block_of (buf r))" "buf r3 = buf r \<or> (\<exists>a. block_of (buf r3) = Some a \<and> nalloc m \<le> a)"
    using assms(3,4) by (auto simp: appends_def)
  have m4: "p = Ptr (nalloc m3) 0" "m4 = m3\<lparr>blocks := (blocks m3)(nalloc m3 \<mapsto> hello_body @ [NUL]), nalloc := Suc (nalloc m3)\<rparr>"
    using assms(7) by (auto simp: literal_def)
  show nf: "no_failure m4" using r3(1) by (auto simp: m4 no_failure_def mem_ok_def)
  have o4: "other_blocks m3 m4 x" for x using r3(1) by (simp add: m4 no_failure_def other_blocks_new)
  obtain a where a: "block_of (buf s) = Some a" "a < nalloc m"
    using ready_block [OF assms(1,2)] assms(6) by (cases "buf s") auto
  have le: "nalloc m \<le> nalloc m3" using r3(6) by (simp add: other_blocks_def)
  have s3: "ready m3 s" using ready_other(1) [OF assms(1,2) r3(6) assms(5)] .
  show "ready m4 s" using ready_other(1) [OF r3(1) s3 o4 [of None]] a by simp
  have w: "write_pos r3 = 6" using arg_cong [OF r3(3), of length] by simp
  have nr: "buf r3 \<noteq> Null" using r3(2) by (auto simp: owned_def)
  have "load_n m4 (buf r3) (write_pos r3) = Some ''200 OK''"
    using other_blocks_load_n [OF o4 [of None] _ owned_load [OF r3(2)]] r3(1,3) nr
    by (cases "buf r3") (auto simp: no_failure_def)
  then show "source m4 s r3 ''200 OK''"
    using nr w r3(2,4,5,7) a assms(5) by (auto simp: source_def owned_def of_bool_def)
  have "load_n m4 p (length hello_body) = Some hello_body" by (simp add: m4 load_n_in)
  then show "source m4 s b hello_body"
    using assms(8-12) a le by (auto simp: source_def m4(1) of_bool_def hello_body_def)
qed

lemma create_response_ok:
  assumes "p_struct w = Some h" and "can_answer m h"
  shows "returns (workeraa_http_create_response m w) (\<lambda>(ok, w', m'). ok \<and> (\<exists>http' s'. w' = w\<lparr>p_struct := Some (h\<lparr>wh_http := http', wh_response := s'\<rparr>)\<rparr> \<and> owned m' s' \<and> read_pos s' = 0 \<and> chars m' s' = hello_response))"
proof -
  let ?resp = "http_response (wh_http h)" and ?s = "clean (wh_response h)"
  let ?r = "clean (reason_phrase (status_line ?resp))"
  from assms(2) have c: "no_failure m" "ready m ?s" "ready m ?r" "block_of (buf ?s) \<noteq> block_of (buf ?r)" "buf ?s \<noteq> Null"
      "\<not> is_alloc (response_body ?resp)"
    using clean_ready(1) by (auto simp: can_answer_def ready_def owned_def)
  have nn: "NUL \<notin> set hello_body" "hello_body \<noteq> []" by (simp_all add: hello_body_def)
  show ?thesis
    unfolding workeraa_http_create_response_def assms(1) option.case Let_def http11_http_version_struct.select_convs
  proof (rule reason_ok [OF c(1,3) clean_ready(2)], goal_cases)
    case (1 m3 r3)
    note r3 = this
    obtain p m4 where l: "literal m3 hello_body = (p, m4)" by fastforce
    obtain ok b where b: "stringaa_set_chars m4 (response_body ?resp) p = Some (ok, b, m4)" "buf b = p" "is_init b"
        "read_pos b = 0" "write_pos b = length hello_body" "buf_size b = length hello_body + 1"
      using set_chars_literal [OF c(6) nn l] by auto
    note src = sources_ok [OF c(1,2) r3 clean_ready(2) c(4,5) l b(2-6)]
    show ?case
      unfolding l prod.case b(1) bind.bind_lunit
    proof (rule message_ok [OF src(1,2) clean_ready(2) src(3,4) b(5)], goal_cases)
      case (1 m' s')
      then show ?case by (auto intro!: exI [of _ s'])
    qed
  qed
qed

text \<open>\<open>workeraa_http_create_response\<close> writes a complete response into the buffer of the worker: the status
  line, a Content-Length with the length of the body, an empty line, and the body.\<close>

theorem workeraa_http_create_response_text:
  assumes "p_struct w = Some h" and "can_answer m h"
  shows "returns (workeraa_http_create_response m w) (\<lambda>(ok, w', m'). ok
    \<and> (\<exists>h'. p_struct w' = Some h' \<and> chars m' (wh_response h') = hello_response))"
  using create_response_ok [OF assms] by (auto simp: returns_iff)

text \<open>A worker whose buffer is the first block of the memory of \<open>test_state\<close>.\<close>

definition fresh_worker :: workeraa_http where
  "fresh_worker = workeraa_http_zero\<lparr>wh_response := stringaa_zero\<lparr>buf := Ptr 0 0, buf_size := 3, is_alloc := True\<rparr>\<rparr>"

lemma fresh_worker_can: "can_answer (memory_of [''ok.'', ''....'']) fresh_worker" "\<not> is_header_send fresh_worker"
  by (simp_all add: can_answer_def no_failure_def ready_def owned_def blank_def fresh_worker_def workeraa_http_zero_def
      httpaa_zero_def Let_def)

lemma workeraa_http_create_response_text_witness:
  "returns (workeraa_http_create_response (memory_of [''ok.'', ''....'']) (ws_worker (test_state 5 fresh_worker)))
    (\<lambda>(ok, w', m'). ok \<and> (\<exists>h'. p_struct w' = Some h' \<and> chars m' (wh_response h') = hello_response))"
  using workeraa_http_create_response_text [of "ws_worker (test_state 5 fresh_worker)" fresh_worker] fresh_worker_can
  by (simp add: test_state_def)

section \<open>The first connection\<close>

lemma worker_round_send_func:
  assumes "is_send (ws_works z ! a)" and "ans_select an > 0" and "a < length (ws_works z)"
    and "run_func WORKERAA_FUNC_SEND_DATA (upd_work a (set_is_send False) z) = Some (False, upd_work a (set_is_send False) z')"
    and "p_struct (ws_worker z') = Some h" and "is_header_send h" and "ws_works z' = ws_works z"
  shows "worker_round an a z = worker_round an a z'"
  using assms send_func [of "upd_work a (set_is_send False) z'" h]
  by (simp add: worker_round_def after_select_def Let_def)

lemma answers_request:
  assumes "p_struct (ws_worker z) = Some h" and "can_answer (ws_mem z) h" and "\<not> is_header_send h"
    and "work_id (ws_worker z) = 8080" and "a < length (ws_works z)" and "is_select (ws_works z ! a)" and "is_send (ws_works z ! a)"
    and "length hello_response < length ans" and "\<forall>an \<in> set ans. ans_select an > 0 \<and> ans_send an > 0"
  shows "returns (worker_loop ans a z) (\<lambda>(ended, z'). ended \<and> (\<exists>css. concat css = hello_response
    \<and> ws_trace z' = ws_trace z @ map Sent css @ [Shutdown, Close]))"
proof -
  obtain http' s' m' where 1: "workeraa_http_create_response (ws_mem z) (ws_worker z) =
      Some (True, (ws_worker z)\<lparr>p_struct := Some (h\<lparr>wh_http := http', wh_response := s'\<rparr>)\<rparr>, m')"
      "owned m' s'" "read_pos s' = 0" "chars m' s' = hello_response"
    using create_response_ok [OF assms(1,2)] by (auto simp: returns_iff)
  let ?h = "h\<lparr>wh_http := http', wh_response := s', is_header_send := True\<rparr>"
  define z1 where "z1 = z\<lparr>ws_mem := m', ws_worker := (ws_worker z)\<lparr>p_struct := Some ?h\<rparr>\<rparr>"
  have f: "run_func WORKERAA_FUNC_SEND_DATA (upd_work a (set_is_send False) z) = Some (False, upd_work a (set_is_send False) z1)"
    using assms(1,3,4) 1(1)
    by (simp add: run_func_def serve_port workeraa_http_func_def workeraa_http_send_def z1_def upd_work_def)
  have s: "sending a z1 s'"
    using assms(5-7) 1(2,3) growable_readable [of m' s'] by (auto simp: sending_def z1_def cursor_def owned_def growable_def)
  have r: "rest_of z1 s' = hello_response" using 1(3,4) by (simp add: rest_of_def z1_def)
  obtain an ans' where ans: "ans = an # ans'" using assms(8) by (cases ans) auto
  have "worker_round an a z = worker_round an a z1"
    using worker_round_send_func [OF assms(7) _ assms(5) f, of an ?h] assms(9) ans by (simp add: z1_def)
  then have "worker_loop ans a z = worker_loop ans a z1" using ans assms(6) by (simp add: z1_def)
  then show ?thesis using sends_response [OF s, of ans] r assms(8,9) by (simp add: z1_def)
qed

end
