(* ===== verification/Worker_Request.thy ===== *)
theory Worker_Request
  imports Worker_Answer Http_Request_Proofs Uri_Resolve_Proofs
begin

text \<open>
  A connection from its first byte to its last: a fresh worker allocates its buffers, receives a request,
  parses it, makes the name of the file, sends the response and closes.  The theorem puts together the
  contracts of the strings, of the request parser and of the loop of the worker.
\<close>

unbundle bit_operations_syntax

section \<open>New strings\<close>

definition with_block :: "mem \<Rightarrow> char list \<Rightarrow> mem" where
  "with_block m bs = m\<lparr>blocks := (blocks m)(nalloc m \<mapsto> bs), nalloc := Suc (nalloc m)\<rparr>"

definition new_string :: "nat \<Rightarrow> nat \<Rightarrow> stringaa" where
  "new_string a n = set_flags [STRINGAA_IS_ALLOC, STRINGAA_IS_NULL_TERMINATED]
     (stringaa_zero\<lparr>buf := Ptr a 0, buf_size := n\<rparr>)"

lemma with_block_simps [simp]:
  "blocks (with_block m bs) a = (if a = nalloc m then Some bs else blocks m a)"
  "nalloc (with_block m bs) = Suc (nalloc m)" "oom (with_block m bs) = oom m"
  by (simp_all add: with_block_def)

lemma new_string_simps [simp]:
  "buf (new_string a n) = Ptr a 0" "buf_size (new_string a n) = n" "write_pos (new_string a n) = 0"
  "read_pos (new_string a n) = 0" "is_alloc (new_string a n)" "is_null_terminated (new_string a n)"
  by (simp_all add: new_string_def set_flags_def stringaa_zero_def)

lemma with_block_ok: "no_failure m \<Longrightarrow> no_failure (with_block m bs)"
  by (auto simp: no_failure_def mem_ok_def)

lemma with_block_other: "no_failure m \<Longrightarrow> other_blocks m (with_block m bs) x"
  by (simp add: no_failure_def with_block_def other_blocks_new)

lemma malloc_zero:
  assumes "no_failure m" and "0 < n"
  shows "stringaa_malloc m stringaa_zero n = Some (True, new_string (nalloc m) n, with_block m (replicate n NUL))"
proof -
  have "c_malloc m n = (Ptr (nalloc m) 0, with_block m (map (junk m (nalloc m)) [0..<n]))"
    using assms(1) by (simp add: c_malloc_def no_failure_def with_block_def Let_def)
  moreover have "store_n (with_block m (map (junk m (nalloc m)) [0..<n])) (Ptr (nalloc m) 0) (replicate n NUL) =
      Some (with_block m (replicate n NUL))"
    by (simp add: store_n_in) (simp add: with_block_def)
  ultimately show ?thesis
    using assms(2) by (simp add: stringaa_malloc_def new_string_def stringaa_zero_def)
qed

section \<open>The file name\<close>

text \<open>Without a dot, the loops over the segments change nothing.\<close>

definition plain_block :: "mem \<Rightarrow> nat \<Rightarrow> nat \<Rightarrow> bool" where
  "plain_block m a n \<longleftrightarrow> (\<exists>bs. blocks m a = Some bs \<and> n \<le> length bs \<and> CHR ''.'' \<notin> set bs)"

lemma plain_load:
  assumes "plain_block m a n" and "i < n"
  obtains c where "load m (Ptr a 0) i = Some c" and "c \<noteq> CHR ''.''"
proof -
  from assms obtain bs where bs: "blocks m a = Some bs" "i < length bs" "CHR ''.'' \<notin> set bs"
    by (auto simp: plain_block_def)
  then have "bs ! i \<noteq> CHR ''.''" using nth_mem [of i bs] by metis
  with bs show thesis by (intro that [of "bs ! i"]) (simp_all add: load_in)
qed

lemma point_loop_plain:
  assumes "plain_block m a n"
  shows "\<exists>s. point_loop m (Ptr a 0) n i seg = Some (n, s, m)"
proof (induction "n - i" arbitrary: i seg)
  case 0
  then show ?case by (simp add: point_loop.simps)
next
  case (Suc k)
  then have i: "i < n" by simp
  obtain c where c: "load m (Ptr a 0) i = Some c" using plain_load [OF assms i] by blast
  have dot: "(if i = seg + 1 then do { d \<leftarrow> load m (Ptr a 0) (i - 1); Some (d = CHR ''.'') } else Some False) = Some False"
    using plain_load [OF assms, of "i - 1"] i by fastforce
  have "\<exists>s. point_loop m (Ptr a 0) n (i + 1) sg = Some (n, s, m)" for sg
    using Suc by simp
  with i c dot show ?case by (subst point_loop.simps) (simp del: Suc_eq_plus1)
qed

lemma points_loop_plain:
  assumes "plain_block m a n"
  shows "points_loop m (Ptr a 0) n i seg = Some (n, m)"
proof (induction "n - i" arbitrary: i seg)
  case 0
  then show ?case by (simp add: points_loop.simps)
next
  case (Suc k)
  then have i: "i < n" by simp
  obtain c where c: "load m (Ptr a 0) i = Some c" using plain_load [OF assms i] by blast
  have before: "(if i = seg + 2 then dots_before m (Ptr a 0) i else Some False) = Some False"
    using plain_load [OF assms, of "i - 1"] i by (fastforce simp: dots_before_def)
  have after: "dots_after m (Ptr a 0) n i = Some False"
    using plain_load [OF assms, of "i + 1"] by (fastforce simp: dots_after_def)
  have "points_loop m (Ptr a 0) n (i + 1) sg = Some (n, m)" for sg
    using Suc by simp
  with i c before after show ?case by (subst points_loop.simps) (simp del: Suc_eq_plus1)
qed

lemma lead_end_plain:
  assumes "plain_block m a n"
  shows "lead_end m (Ptr a 0) n seg = Some False"
  using plain_load [OF assms, of seg] by (fastforce simp: lead_end_def)

lemma lead_loop_plain:
  assumes "plain_block m a n"
  shows "lead_loop m (Ptr a 0) n i seg = Some False"
proof (induction "n - i" arbitrary: i seg)
  case 0
  then show ?case by (simp add: lead_loop.simps lead_end_plain [OF assms])
next
  case (Suc k)
  then have i: "i < n" by simp
  obtain c where c: "load m (Ptr a 0) i = Some c" using plain_load [OF assms i] by blast
  have before: "(if i = seg + 2 then dots_before m (Ptr a 0) i else Some False) = Some False"
    using plain_load [OF assms, of "i - 1"] i by (fastforce simp: dots_before_def)
  have "lead_loop m (Ptr a 0) n (i + 1) sg = Some False" for sg
    using Suc by simp
  with i c before show ?case
    by (subst lead_loop.simps) (simp add: lead_end_plain [OF assms] del: Suc_eq_plus1)
qed

lemma point_pass_plain:
  assumes "plain_block m a n"
  shows "point_pass m (Ptr a 0) n = Some (n, m)"
proof -
  obtain s where s: "point_loop m (Ptr a 0) n 0 0 = Some (n, s, m)" using point_loop_plain [OF assms] by blast
  have "(if s + 1 = n then do { d \<leftarrow> load m (Ptr a 0) s; Some (d = CHR ''.'') } else Some False) = Some False"
    using plain_load [OF assms, of s] by fastforce
  with s show ?thesis by (simp add: point_pass_def)
qed

text \<open>A copy of the view \<open>x\<close> into a zeroed struct.\<close>

lemma copy_to_zero:
  assumes "no_failure m" and "load_n m (buf x) n = Some p" and "0 < n"
    and "is_init x" and "buf_size x = n" and "write_pos x = n" and "\<not> is_null_terminated x"
  shows "stringaa_copy m stringaa_zero x = Some (True,
    (new_string (nalloc m) (n + 1))\<lparr>write_pos := n, is_init := True\<rparr>, with_block m (p @ [NUL]))"
proof -
  let ?a = "nalloc m" and ?s = "new_string (nalloc m) (n + 1)"
  let ?m = "with_block m (replicate (n + 1) NUL)"
  obtain b off bs where x: "buf x = Ptr b off" "blocks m b = Some bs" using load_n_block [OF assms(2,3)] by auto
  have b: "b \<noteq> ?a" using assms(1) x(2) mem_ok_lt by (fastforce simp: no_failure_def)
  have p: "length p = n" using assms(2) by (rule load_n_length)
  have "load_n ?m (buf x) n = Some p" using assms(2) x b load_n_same [of ?m b m off n] by simp
  moreover have "drop n (NUL # replicate n NUL) = [NUL]"
    using drop_replicate [of n "Suc n" NUL] by simp
  ultimately have "c_memcpy ?m (Ptr ?a 0) (buf x) n = Some (with_block m (p @ [NUL]))"
    using x b p by (simp add: c_memcpy_def c_memmove_def store_n_in) (simp add: with_block_def)
  moreover have "store (with_block m (p @ [NUL])) (Ptr ?a 0) n NUL = Some (with_block m (p @ [NUL]))"
    using p list_update_length [of p NUL "[]" NUL] by (simp add: store_in) (simp add: with_block_def)
  ultimately have "stringaa_fill ?m ?s 0 (buf x) n = Some (True, ?s\<lparr>write_pos := n, read_pos := 0, is_init := True\<rparr>, with_block m (p @ [NUL]))"
    by (simp add: stringaa_fill_def Let_def)
  moreover have "?s\<lparr>write_pos := n, read_pos := 0, is_init := True\<rparr> = ?s\<lparr>write_pos := n, is_init := True\<rparr>"
    by (simp add: new_string_def stringaa_zero_def set_flags_def)
  moreover have "\<not> is_alloc stringaa_zero" by (simp add: stringaa_zero_def)
  ultimately show ?thesis
    using assms x(1) malloc_zero [OF assms(1), of "n + 1"]
    by (simp add: stringaa_copy_def stringaa_copy_chars_size_def)
qed

lemma method_get_plain:
  fixes http :: httpaa
  defines "x \<equiv> u_abs_path (request_uri (rline http))"
  assumes "no_failure m" and "load_n m (buf x) n = Some p" and "0 < n"
    and "is_init x" and "buf_size x = n" and "write_pos x = n" and "\<not> is_null_terminated x"
    and "CHR ''.'' \<notin> set p" and "request_file_name http = stringaa_zero" and "buf path1 = Null"
  shows "\<exists>http'. http11_work_method_get m http path1 = Some (False, http', with_block m (p @ [NUL]))
    \<and> http_response http' = http_response http"
proof -
  let ?m = "with_block m (p @ [NUL])"
  have p: "length p = n" using assms(3) by (rule load_n_length)
  have pl: "plain_block ?m (nalloc m) (n + 1)"
    using assms(9) p by (auto simp: plain_block_def)
  show ?thesis
    using copy_to_zero [OF assms(2-8)] pl assms(10,11)
    by (simp add: http11_work_method_get_def httpaa_work_get_request_file_name_def
        httpaa_work_set_response_file_name_def uriaa_remove_segment_point_def uriaa_remove_segment_points_def
        point_pass_plain points_loop_plain lead_loop_plain stringaa_copy_def x_def)
qed

section \<open>The request\<close>

lemma first_crlf_before: "crlf_at cs i \<Longrightarrow> q \<le> i \<Longrightarrow> \<exists>e. first_crlf cs q = Some e \<and> e \<le> i"
proof (induction "i - q" arbitrary: q)
  case 0
  then show ?case by (subst first_crlf_step) (auto simp: crlf_at_def)
next
  case (Suc k)
  then have "\<exists>e. first_crlf cs (Suc q) = Some e \<and> e \<le> i" by simp
  with Suc.prems show ?case by (subst first_crlf_step) (auto simp: crlf_at_def)
qed

lemma crlf_at_end: "cs = xs @ [CR, LF] @ ys \<Longrightarrow> crlf_at cs (length xs)"
  by (simp add: crlf_at_def nth_append)

lemma set_view_frame [simp]:
  "http_response (fold (set_view s) vs http) = http_response http"
  "request_file_name (fold (set_view s) vs http) = request_file_name http"
  by (induction vs arbitrary: http) (simp_all add: set_view_def set_header_def case_prod_unfold)

lemma parse_request_run:
  assumes "cursor m s" and "chars m s = print_line k p qs a b @ block ls @ body"
    and "read_pos s = 0" and "write_pos s < 2 ^ 31" and "fresh_http http"
    and "k \<noteq> http11_method_put" and "target_ok p qs" and "number_ok a" and "number_ok b"
    and "\<forall>l \<in> set ls. line_ok l"
  shows "\<exists>vs q. httpaa_parse_request_headers m http s =
    Some (True, fold (set_view s) vs (line_result s http k p qs a b), s\<lparr>read_pos := q\<rparr>, m)"
proof -
  let ?cs = "chars m s"
  obtain l1 where l1: "print_line k p qs a b = l1 @ [CR, LF]" by (simp add: print_line_def)
  obtain l2 where l2: "block ls = l2 @ [CR, LF]" by (simp add: block_def)
  have c1: "crlf_at ?cs (length l1)" using assms(2) l1 by (intro crlf_at_end [of _ l1 "block ls @ body"]) simp
  have c2: "crlf_at ?cs (length (l1 @ [CR, LF] @ l2))"
    using assms(2) l1 l2 by (intro crlf_at_end [of _ _ body]) simp
  obtain e where e: "first_crlf ?cs 0 = Some e" "e \<le> length l1" using first_crlf_before [OF c1, of 0] by auto
  obtain e2 where e2: "first_crlf ?cs (e + 2) = Some e2"
    using first_crlf_before [OF c2, of "e + 2"] e(2) by auto
  note at = crlf_at_first [OF e(1)]
  have c: "cursor m (s\<lparr>read_pos := e\<rparr>)" "cursor m (s\<lparr>read_pos := e + 2\<rparr>)"
    using assms(1) at by (simp_all add: cursor_def)
  have "httpaa_parse_request_headers m http s = do {
      (b, http, s, m) \<leftarrow> http11_request m http (s\<lparr>read_pos := 0\<rparr>);
      Some (b, http, if b then s else s\<lparr>read_pos := 0\<rparr>, m) }"
    using http11_find_crlf_eq [OF assms(1)] e(1) assms(3) http11_crlf_eq [OF c(1)] at http11_find_crlf_eq [OF c(2)] e2
    by (simp add: httpaa_parse_request_headers_def stringaa_begin_read_pos_def)
  moreover have "s\<lparr>read_pos := 0\<rparr> = s" using assms(3) by (metis read_pos_same)
  ultimately show ?thesis
    using http11_request_run [of m s "[]" k p qs a b ls body http] assms by auto
qed

section \<open>One connection\<close>

definition new_worker_http :: "nat \<Rightarrow> workeraa_http" where
  "new_worker_http a = workeraa_http_zero\<lparr>
     wh_request := (new_string a WORKERAA_WORK_RECV_BUFFER_SIZE_DEFAULT)\<lparr>is_init := True\<rparr>,
     wh_response := (new_string (Suc a) WORKERAA_WORK_SEND_BUFFER_SIZE_DEFAULT)\<lparr>is_init := True\<rparr>\<rparr>"

definition new_worker_mem :: "mem \<Rightarrow> mem" where
  "new_worker_mem m = with_block (with_block m (replicate WORKERAA_WORK_RECV_BUFFER_SIZE_DEFAULT NUL))
     (replicate WORKERAA_WORK_SEND_BUFFER_SIZE_DEFAULT NUL)"

lemma new_worker_http_simps [simp]:
  "wh_http (new_worker_http a) = httpaa_zero" "wh_path (new_worker_http a) = stringaa_zero"
  "\<not> is_header_recv (new_worker_http a)" "\<not> is_header_send (new_worker_http a)"
  "wh_request (new_worker_http a) = (new_string a WORKERAA_WORK_RECV_BUFFER_SIZE_DEFAULT)\<lparr>is_init := True\<rparr>"
  "wh_response (new_worker_http a) = (new_string (Suc a) WORKERAA_WORK_SEND_BUFFER_SIZE_DEFAULT)\<lparr>is_init := True\<rparr>"
  by (simp_all add: new_worker_http_def workeraa_http_zero_def)

lemma buffer_sizes [simp]: "0 < WORKERAA_WORK_RECV_BUFFER_SIZE_DEFAULT" "0 < WORKERAA_WORK_SEND_BUFFER_SIZE_DEFAULT"
  by (simp_all add: WORKERAA_WORK_RECV_BUFFER_SIZE_DEFAULT_def WORKERAA_WORK_SEND_BUFFER_SIZE_DEFAULT_def)

lemma init_new:
  assumes "p_struct w = None" and "no_failure m"
  shows "workeraa_http_init True m w = Some (True, w\<lparr>p_struct := Some (new_worker_http (nalloc m))\<rparr>, new_worker_mem m)"
proof -
  have z: "wh_request workeraa_http_zero = stringaa_zero" "wh_response workeraa_http_zero = stringaa_zero"
      "\<not> is_init stringaa_zero"
    by (simp_all add: workeraa_http_zero_def stringaa_zero_def)
  show ?thesis
    using assms(1) malloc_zero [OF assms(2), of WORKERAA_WORK_RECV_BUFFER_SIZE_DEFAULT]
      malloc_zero [OF with_block_ok [OF assms(2)], of WORKERAA_WORK_SEND_BUFFER_SIZE_DEFAULT]
    by (simp add: workeraa_http_init_def init_buffer_def z new_worker_http_def new_worker_mem_def)
qed

text \<open>The state in which the loop of a fresh worker begins.\<close>

definition begun :: "worker_state \<Rightarrow> worker_state" where
  "begun z = z\<lparr>ws_mem := new_worker_mem (ws_mem z), ws_worker := (ws_worker z)\<lparr>p_struct := Some (new_worker_http (nalloc (ws_mem z))),
     p_data := Some Response_Buffer, work_id := 8080\<rparr>\<rparr>"

lemma serve_begun:
  assumes "p_struct (ws_worker z) = None" and "no_failure (ws_mem z)"
    and "p_work (ws_worker z) = Some a" and "a < length (ws_works z)" and "w_port (ws_works z ! a) = 8080"
  shows "workeraa_serve True ans z = worker_loop ans a (begun z)"
proof -
  let ?w = "(ws_worker z)\<lparr>work_id := 8080\<rparr>"
  let ?z = "z\<lparr>ws_mem := new_worker_mem (ws_mem z), ws_worker := ?w\<lparr>p_struct := Some (new_worker_http (nalloc (ws_mem z)))\<rparr>\<rparr>"
  have "workeraa_func True (ws_mem z) ?w (ws_works z) WORKERAA_FUNC_INIT =
      Some (True, ?w\<lparr>p_struct := Some (new_worker_http (nalloc (ws_mem z)))\<rparr>, ws_works z, new_worker_mem (ws_mem z))"
    using init_new [of ?w "ws_mem z"] assms(1,2) by (simp add: serve_port workeraa_http_func_def)
  then have "workeraa_serve True ans z = socketaa_worker ans ?z"
    using assms(3-5) by (simp add: workeraa_serve_def socketaa_get_port_def Let_def)
  also have "\<dots> = worker_loop ans a (begun z)"
    using assms(3-5) by (simp add: socketaa_worker_def run_func_def serve_port workeraa_http_func_def
        workeraa_http_get_buffer_def begun_def)
  finally show ?thesis .
qed

lemma request_target_path:
  fixes s :: stringaa and p :: "char list" and qs :: "char list option"
  assumes "\<not> is_null_terminated (u_abs_path u)"
  defines "x \<equiv> u_abs_path (request_target s u p qs)"
  shows "buf x = padd (buf s) (read_pos s)" "buf_size x = length p" "write_pos x = length p" "is_init x"
    "\<not> is_null_terminated x"
  using assms by (simp_all add: request_target_def target_result_def part_of_def end_of_def header_view_def
      set_u_pos_def Let_def split: option.split)

text \<open>The buffers of a new worker once the request is received.\<close>

lemma request_received:
  assumes "no_failure m" and "length req \<le> WORKERAA_WORK_RECV_BUFFER_SIZE_DEFAULT"
  obtains m1 bs where "store_n (new_worker_mem m) (Ptr (nalloc m) 0) req = Some m1" "no_failure m1"
    "blocks m1 (nalloc m) = Some bs" "length req \<le> length bs" "take (length req) bs = req"
    "blocks m1 (Suc (nalloc m)) = Some (replicate WORKERAA_WORK_SEND_BUFFER_SIZE_DEFAULT NUL)"
    "nalloc m1 = Suc (Suc (nalloc m))"
proof -
  let ?A = "nalloc m" and ?m = "new_worker_mem m" and ?N = WORKERAA_WORK_RECV_BUFFER_SIZE_DEFAULT
  let ?bs = "req @ drop (length req) (replicate ?N NUL)"
  define m1 where "m1 = ?m\<lparr>blocks := (blocks ?m)(?A \<mapsto> ?bs)\<rparr>"
  have blk: "blocks ?m ?A = Some (replicate ?N NUL)" "nalloc ?m = Suc (Suc ?A)"
      "blocks ?m (Suc ?A) = Some (replicate WORKERAA_WORK_SEND_BUFFER_SIZE_DEFAULT NUL)"
    by (simp_all add: new_worker_mem_def)
  have "no_failure ?m" using assms(1) by (simp add: new_worker_mem_def with_block_ok)
  then have "no_failure m1" by (auto simp: no_failure_def m1_def mem_ok_def blk(2))
  then show ?thesis
    using that [of m1 ?bs] blk assms(2) by (simp add: store_n_in [OF blk(1)] m1_def)
qed

text \<open>The request in the buffer, and what parsing it and making the file name leave.\<close>

definition got_request :: "nat \<Rightarrow> nat \<Rightarrow> stringaa" where
  "got_request a n = (new_string a WORKERAA_WORK_RECV_BUFFER_SIZE_DEFAULT)\<lparr>is_init := True, write_pos := n\<rparr>"

lemma got_request_simps [simp]:
  "buf (got_request a n) = Ptr a 0" "write_pos (got_request a n) = n" "read_pos (got_request a n) = 0"
  by (simp_all add: got_request_def)

lemma handle_request:
  assumes m: "no_failure m" "blocks m x = Some bs" "take (length req) bs = req" "length req \<le> length bs"
    and req: "req = print_line http11_method_get p qs a b @ block ls @ body" "length req < 2 ^ 31"
    and ok: "target_ok p qs" "number_ok a" "number_ok b" "\<forall>l \<in> set ls. line_ok l" "CHR ''.'' \<notin> set p"
  shows "\<exists>http1 s1 http2. httpaa_parse_request_headers m httpaa_zero (got_request x (length req)) = Some (True, http1, s1, m)
    \<and> rl_method (rline http1) = http11_method_get
    \<and> http11_work_method_get m http1 stringaa_zero = Some (False, http2, with_block m (p @ [NUL]))
    \<and> http_response http2 = http_response httpaa_zero"
proof -
  let ?s = "got_request x (length req)" and ?u = "request_uri (rline httpaa_zero)"
  let ?s1 = "?s\<lparr>read_pos := length (method_name http11_method_get) + 1\<rparr>"
  have ld: "load_n m (Ptr x 0) (length req) = Some req" using m(2-4) by (simp add: load_n_in)
  then have cs: "readable m ?s" "chars m ?s = req" by (simp_all add: readable_def chars_def)
  obtain vs q where run: "httpaa_parse_request_headers m httpaa_zero ?s = Some (True,
      fold (set_view ?s) vs (line_result ?s httpaa_zero http11_method_get p qs a b), ?s\<lparr>read_pos := q\<rparr>, m)"
    using parse_request_run [of m ?s http11_method_get p qs a b ls body httpaa_zero] cs req ok fresh_http_zero
    by (auto simp: cursor_def)
  let ?http1 = "fold (set_view ?s) vs (line_result ?s httpaa_zero http11_method_get p qs a b)"
  have rl: "rl_method (rline ?http1) = http11_method_get" "request_uri (rline ?http1) = request_target ?s1 ?u p qs"
    by (simp_all add: line_result_def)
  have "\<not> is_null_terminated (u_abs_path ?u)"
    by (simp add: rline_def httpaa_zero_def Let_def uriaa_zero_def stringaa_zero_def)
  note path = request_target_path [OF this, of ?s1 p qs]
  have dr: "drop (length (method_name http11_method_get) + 1) req =
      p @ (case qs of None \<Rightarrow> [] | Some q \<Rightarrow> CHR ''?'' # q) @ SP # ''HTTP/'' @ a @ CHR ''.'' # b @ [CR, LF] @ block ls @ body"
    unfolding req(1) by (simp add: print_line_def target_def)
  have le: "length (method_name http11_method_get) + 1 + length p \<le> length req"
    unfolding req(1) by (simp add: print_line_def target_def)
  have "load_n m (buf (u_abs_path (request_target ?s1 ?u p qs))) (length p) = Some p"
    using load_n_readable [OF cs(1), of "length (method_name http11_method_get) + 1" "length p"] le dr cs(2)
    unfolding path(1) by simp
  moreover have "0 < length p" using ok(1) by (auto simp: target_ok_def)
  moreover have "request_file_name ?http1 = stringaa_zero" "http_response ?http1 = http_response httpaa_zero"
    by (simp_all add: line_result_def set_rline_def httpaa_zero_def Let_def)
  moreover have "buf stringaa_zero = Null" by (simp add: stringaa_zero_def)
  ultimately obtain http2 where "http11_work_method_get m ?http1 stringaa_zero = Some (False, http2, with_block m (p @ [NUL]))"
      "http_response http2 = http_response httpaa_zero"
    using method_get_plain [OF m(1), of ?http1 "length p" p stringaa_zero] path(2-5) ok(5) rl(2) by metis
  with run rl(1) show ?thesis by blast
qed

lemma serves_get:
  assumes "p_struct (ws_worker z) = None" and "no_failure (ws_mem z)"
    and "p_work (ws_worker z) = Some x" and "x < length (ws_works z)" and "w_port (ws_works z ! x) = 8080"
    and "w_flags (ws_works z ! x) = SOCKETAA_WORK_FLAGS_IS_SELECT OR SOCKETAA_WORK_FLAGS_IS_RECV"
    and "req = print_line http11_method_get p qs a b @ block ls @ body"
    and "length req \<le> WORKERAA_WORK_RECV_BUFFER_SIZE_DEFAULT"
    and "target_ok p qs" and "number_ok a" and "number_ok b" and "\<forall>l \<in> set ls. line_ok l" and "CHR ''.'' \<notin> set p"
    and "ans_select an > 0" and "ans_recv an = Some req"
    and "length hello_response < length ans" and "\<forall>an \<in> set ans. ans_select an > 0 \<and> ans_send an > 0"
  shows "returns (workeraa_serve True (an # ans) z) (\<lambda>(ended, z'). ended \<and> (\<exists>css. concat css = hello_response
    \<and> ws_trace z' = ws_trace z @ Received req # map Sent css @ [Shutdown, Close]))"
proof -
  let ?A = "nalloc (ws_mem z)" and ?m = "new_worker_mem (ws_mem z)"
  let ?h = "new_worker_http ?A"
  obtain m1 bs where st: "store_n ?m (Ptr ?A 0) req = Some m1" and nf1: "no_failure m1"
    and b1: "blocks m1 ?A = Some bs" "length req \<le> length bs" "take (length req) bs = req"
      "blocks m1 (Suc ?A) = Some (replicate WORKERAA_WORK_SEND_BUFFER_SIZE_DEFAULT NUL)"
      "nalloc m1 = Suc (Suc ?A)"
    using request_received [OF assms(2,8)] by blast
  have f: "is_select (ws_works z ! x)" "is_recv (ws_works z ! x)" "\<not> is_send (ws_works z ! x)"
    using assms(6) by (auto simp: flag_defs SOCKETAA_WORK_FLAGS_IS_SELECT_def SOCKETAA_WORK_FLAGS_IS_RECV_def bit_simps bit_numeral_rec)
  have ne: "req \<noteq> []" using assms(7) by (simp add: print_line_def)
  have "length req < 2 ^ 31" using assms(8) by (simp add: WORKERAA_WORK_RECV_BUFFER_SIZE_DEFAULT_def)
  then obtain http1 s1 http2 where p: "httpaa_parse_request_headers m1 httpaa_zero (got_request ?A (length req)) = Some (True, http1, s1, m1)"
      "rl_method (rline http1) = http11_method_get"
      "http11_work_method_get m1 http1 stringaa_zero = Some (False, http2, with_block m1 (p @ [NUL]))"
      "http_response http2 = http_response httpaa_zero"
    using handle_request [OF nf1 b1(1,3,2) assms(7) _ assms(9-13)] by blast
  let ?h1 = "?h\<lparr>wh_http := http1, wh_request := s1, is_header_recv := True\<rparr>"
  let ?w = "ws_worker (begun z)" and ?m2 = "with_block m1 (p @ [NUL])"
  have bz: "ws_mem (begun z) = ?m" "p_struct ?w = Some ?h" "p_work ?w = Some x" "work_id ?w = 8080"
      "ws_works (begun z) = ws_works z" "ws_trace (begun z) = ws_trace z"
    using assms(3) by (simp_all add: begun_def)
  have tk: "take (buf_size (wh_request ?h)) req = req" using assms(8) by simp
  have gr: "(wh_request ?h)\<lparr>write_pos := length req\<rparr> = got_request ?A (length req)" by (simp add: got_request_def)
  have "workeraa_http_header m1 (?w\<lparr>p_struct := Some (?h\<lparr>wh_request := got_request ?A (length req)\<rparr>)\<rparr>) =
      Some (True, ?w\<lparr>p_struct := Some ?h1\<rparr>, m1)"
    using p(1) by (simp add: workeraa_http_header_def Let_def)
  then obtain z3 where 3: "worker_round an x (begun z) = Some z3" "x < length (ws_works z3)"
      "w_flags (ws_works z3 ! x) = SOCKETAA_WORK_FLAGS_IS_SEND OR SOCKETAA_WORK_FLAGS_IS_SELECT"
      "ws_trace z3 = ws_trace z @ [Received req]"
      "p_struct (ws_worker z3) = Some (?h1\<lparr>wh_http := http2\<rparr>)" "work_id (ws_worker z3) = 8080" "ws_mem z3 = ?m2"
    using recv_round [of x "begun z" ?h req m1 ?h1 m1 False http2 ?m2 an] f assms(4,14,15) bz st p(2,3) ne
    unfolding gr tk by (auto elim!: returnsE)
  have f3: "is_select (ws_works z3 ! x)" "is_send (ws_works z3 ! x)"
    using 3(3) by (auto simp: flag_defs SOCKETAA_WORK_FLAGS_IS_SELECT_def SOCKETAA_WORK_FLAGS_IS_SEND_def bit_simps bit_numeral_rec)
  have "can_answer ?m2 (?h1\<lparr>wh_http := http2\<rparr>)"
    using with_block_ok [OF nf1] b1(4,5) p(4)
    by (simp add: can_answer_def owned_def ready_def blank_def httpaa_zero_def stringaa_zero_def Let_def)
  then obtain z4 css where 4: "worker_loop ans x z3 = Some (True, z4)" "concat css = hello_response"
      "ws_trace z4 = ws_trace z3 @ map Sent css @ [Shutdown, Close]"
    using answers_request [OF 3(5) _ _ 3(6,2) f3 assms(16,17)] 3(7) by (auto simp: returns_iff)
  have "workeraa_serve True (an # ans) z = worker_loop (an # ans) x (begun z)"
    by (rule serve_begun [OF assms(1-5)])
  also have "\<dots> = Some (True, z4)" using f(1) bz(5) 3(1) 4(1) by simp
  finally show ?thesis using 4(2,3) 3(4) by auto
qed

text \<open>C4: a worker serves its first connection from end to end.  When \<open>malloc\<close> works it allocates its buffers, receives
  a GET request that fits them, parses it, makes the file name, and, when the peer keeps taking at least one byte
  at a time, sends the whole response in order, then shuts the connection down and closes it.  No memory access
  of the run is out of bounds.  The request is one that the parser takes: its target is a path that begins with
  one slash, not two, and has no dot and no escape, with or without a query that has no escape; its
  version is two numbers that fit; its header lines, known or not, are not empty and hold no line end.\<close>

theorem worker_serves_get:
  assumes "p_struct (ws_worker z) = None" and "no_failure (ws_mem z)"
    and "p_work (ws_worker z) = Some x" and "x < length (ws_works z)" and "w_port (ws_works z ! x) = 8080"
    and "w_flags (ws_works z ! x) = SOCKETAA_WORK_FLAGS_IS_SELECT OR SOCKETAA_WORK_FLAGS_IS_RECV"
    and "req = print_line http11_method_get p qs a b @ block ls @ body"
    and "length req \<le> WORKERAA_WORK_RECV_BUFFER_SIZE_DEFAULT"
    and "target_ok p qs" and "number_ok a" and "number_ok b" and "\<forall>l \<in> set ls. line_ok l" and "CHR ''.'' \<notin> set p"
    and "ans_select an > 0" and "ans_recv an = Some req"
    and "length hello_response < length ans" and "\<forall>an \<in> set ans. ans_select an > 0 \<and> ans_send an > 0"
  shows "returns (workeraa_serve True (an # ans) z) (\<lambda>(ended, z'). ended \<and> (\<exists>css. concat css = hello_response
    \<and> ws_trace z' = ws_trace z @ Received req # map Sent css @ [Shutdown, Close]))"
  by (rule serves_get [OF assms])

definition test_request :: "char list" where
  "test_request = ''GET /a?b HTTP/1.1'' @ [CR, LF] @ ''Host: x'' @ [CR, LF, CR, LF]"

lemma test_request_ok:
  "test_request = print_line http11_method_get ''/a'' (Some ''b'') ''1'' ''1'' @ block [''Host: x''] @ []"
  "length test_request \<le> WORKERAA_WORK_RECV_BUFFER_SIZE_DEFAULT" "target_ok ''/a'' (Some ''b'')"
  "number_ok ''1''" "number_ok ''1''" "\<forall>l \<in> set [''Host: x'']. line_ok l" "CHR ''.'' \<notin> set ''/a''"
  by (simp_all add: test_request_def print_line_def method_name_def http11_method_array_def target_def
      WORKERAA_WORK_RECV_BUFFER_SIZE_DEFAULT_def target_ok_def number_ok_def cclass range_defs BUF_INT_SIZE_def decimal_def)
    (auto simp: line_ok_def crlf_at_def nth_Cons' less_Suc_eq)

definition idle_worker :: worker_state where
  "idle_worker = \<lparr>ws_mem = memory_of [], ws_works = [\<lparr>w_conn = 7, w_port = 8080, w_flags = 3\<rparr>],
     ws_worker = \<lparr>p_work = Some 0, p_struct = None, p_data = None, work_id = 0\<rparr>, ws_trace = []\<rparr>"

lemma worker_serves_get_witness:
  "returns (workeraa_serve True
      (\<lparr>ans_select = 1, ans_recv = Some (''GET /a?b HTTP/1.1'' @ [CR, LF] @ ''Host: x'' @ [CR, LF, CR, LF]), ans_send = 0\<rparr>
       # replicate (Suc (length hello_response)) \<lparr>ans_select = 1, ans_recv = None, ans_send = 1\<rparr>) idle_worker)
    (\<lambda>(ended, z'). ended \<and> (\<exists>css. concat css = hello_response
      \<and> ws_trace z' = Received (''GET /a?b HTTP/1.1'' @ [CR, LF] @ ''Host: x'' @ [CR, LF, CR, LF]) # map Sent css @ [Shutdown, Close]))"
proof -
  have "(3 :: 16 word) = SOCKETAA_WORK_FLAGS_IS_SELECT OR SOCKETAA_WORK_FLAGS_IS_RECV"
    by (simp add: SOCKETAA_WORK_FLAGS_IS_SELECT_def SOCKETAA_WORK_FLAGS_IS_RECV_def)
  moreover have "no_failure (memory_of [])" by (simp add: no_failure_def)
  ultimately show ?thesis
    using worker_serves_get [OF _ _ _ _ _ _ test_request_ok, of idle_worker 0
        "\<lparr>ans_select = 1, ans_recv = Some test_request, ans_send = 0\<rparr>"
        "replicate (Suc (length hello_response)) \<lparr>ans_select = 1, ans_recv = None, ans_send = 1\<rparr>"]
    by (simp add: idle_worker_def test_request_def del: replicate.simps)
qed

end
