(* ===== verification/Worker_Network.thy ===== *)
theory Worker_Network
  imports Worker_Http
begin

text \<open>
  The callbacks of \<open>src/worker/workeraa_network.h\<close>, where the struct of a worker is a second worker.  The
  worker is \<^const>\<open>None\<close> for \<open>NULL\<close> and otherwise its \<open>p_struct\<close>, a block of the store whose fields no
  operation reads; the size of the struct is an argument.
\<close>

section \<open>Operations\<close>

definition workeraa_network_free :: "mem \<Rightarrow> cptr option \<Rightarrow> (bool \<times> cptr option \<times> mem) option" where
  "workeraa_network_free m w = (case w of None \<Rightarrow> Some (False, w, m)
     | Some p \<Rightarrow> if p \<noteq> Null then do { m \<leftarrow> c_free m p; Some (True, Some Null, m) } else Some (True, w, m))"

definition workeraa_network_init :: "nat \<Rightarrow> mem \<Rightarrow> cptr option \<Rightarrow> bool \<times> cptr option \<times> mem" where
  "workeraa_network_init n m w = (case w of None \<Rightarrow> (False, w, m)
     | Some p \<Rightarrow> if p = Null then (case c_malloc m n of (p, m) \<Rightarrow> (True, Some p, m)) else (True, w, m))"

text \<open>Receiving and sending call the function that dispatches to them.\<close>

partial_function (option) workeraa_network_func ::
  "nat \<Rightarrow> mem \<Rightarrow> cptr option \<Rightarrow> workeraa_func_enum \<Rightarrow> (bool \<times> cptr option \<times> mem) option" where
  "workeraa_network_func n m w k =
     (if k = WORKERAA_FUNC_INIT then Some (workeraa_network_init n m w)
      else if k = WORKERAA_FUNC_RECV_DATA then
        (if w \<noteq> None then workeraa_network_func n m w WORKERAA_FUNC_RECV_DATA else Some (False, w, m))
      else if k = WORKERAA_FUNC_SEND_DATA then
        (if w \<noteq> None then workeraa_network_func n m w WORKERAA_FUNC_SEND_DATA else Some (False, w, m))
      else if k = WORKERAA_FUNC_FREE then workeraa_network_free m w
      else Some (False, w, m))"

definition workeraa_network_recv :: "nat \<Rightarrow> mem \<Rightarrow> cptr option \<Rightarrow> (bool \<times> cptr option \<times> mem) option" where
  "workeraa_network_recv n m w =
     (if w \<noteq> None then workeraa_network_func n m w WORKERAA_FUNC_RECV_DATA else Some (False, w, m))"

definition workeraa_network_send :: "nat \<Rightarrow> mem \<Rightarrow> cptr option \<Rightarrow> (bool \<times> cptr option \<times> mem) option" where
  "workeraa_network_send n m w =
     (if w \<noteq> None then workeraa_network_func n m w WORKERAA_FUNC_SEND_DATA else Some (False, w, m))"

section \<open>Which calls return\<close>

text \<open>The dispatcher calls these two operations, as in the code.\<close>

lemma workeraa_network_func_calls:
  "workeraa_network_func n m w WORKERAA_FUNC_RECV_DATA = workeraa_network_recv n m w"
  "workeraa_network_func n m w WORKERAA_FUNC_SEND_DATA = workeraa_network_send n m w"
  by (simp_all add: workeraa_network_func.simps [of n m w] workeraa_network_recv_def workeraa_network_send_def)

lemma network_func_ends:
  "workeraa_network_func n m w WORKERAA_FUNC_INIT = Some (workeraa_network_init n m w)"
  "workeraa_network_func n m w WORKERAA_FUNC_FREE = workeraa_network_free m w"
  "workeraa_network_func n m w WORKERAA_FUNC_GET_RECV_BUFFER = Some (False, w, m)"
  "workeraa_network_func n m w WORKERAA_FUNC_GET_SEND_BUFFER = Some (False, w, m)"
  "workeraa_network_func n m w WORKERAA_FUNC_GET_BUFFER = Some (False, w, m)"
  by (simp_all add: workeraa_network_func.simps [of n m w])

lemma network_loop_Some:
  "workeraa_network_func n m w k = Some r \<Longrightarrow>
     w = None \<or> k \<noteq> WORKERAA_FUNC_RECV_DATA \<and> k \<noteq> WORKERAA_FUNC_SEND_DATA"
  by (rule workeraa_network_func.raw_induct
      [of "\<lambda>n m w k r. w = None \<or> k \<noteq> WORKERAA_FUNC_RECV_DATA \<and> k \<noteq> WORKERAA_FUNC_SEND_DATA"])
    (fastforce split: if_splits)

lemma network_loop_None:
  "k = WORKERAA_FUNC_RECV_DATA \<or> k = WORKERAA_FUNC_SEND_DATA \<Longrightarrow> workeraa_network_func n m (Some p) k = None"
  using network_loop_Some [of n m "Some p" k] by (cases "workeraa_network_func n m (Some p) k") auto

text \<open>C24: on a worker, receiving and sending never return, every other call returns unless the worker holds
  a pointer that cannot be freed; and what an initialisation has allocated, if anything, the call that frees
  gives back.\<close>

theorem workeraa_network_returns:
  assumes "mem_ok m"
  shows "(workeraa_network_func n m (Some p) k = None) =
      (k = WORKERAA_FUNC_RECV_DATA \<or> k = WORKERAA_FUNC_SEND_DATA \<or> k = WORKERAA_FUNC_FREE \<and> c_free m p = None)
    \<and> returns (workeraa_network_func n m (Some Null) WORKERAA_FUNC_INIT) (\<lambda>(b, w, m1). b
      \<and> workeraa_network_func n m1 w WORKERAA_FUNC_INIT = Some (True, w, m1) = (\<not> oom m (nalloc m))
      \<and> returns (workeraa_network_func n m1 w WORKERAA_FUNC_FREE)
          (\<lambda>(b, w, m2). b \<and> w = Some Null \<and> blocks m2 = blocks m))"
proof
  show "(workeraa_network_func n m (Some p) k = None) =
      (k = WORKERAA_FUNC_RECV_DATA \<or> k = WORKERAA_FUNC_SEND_DATA \<or> k = WORKERAA_FUNC_FREE \<and> c_free m p = None)"
    by (cases k) (simp_all add: network_loop_None network_func_ends workeraa_network_free_def bind_eq_None_conv)
  have "blocks m (nalloc m) = None" using assms by (simp add: mem_ok_def)
  moreover have "(m\<lparr>nalloc := i\<rparr> = m\<lparr>nalloc := j\<rparr>) = (i = j)" for i j by (cases m) simp
  ultimately show "returns (workeraa_network_func n m (Some Null) WORKERAA_FUNC_INIT) (\<lambda>(b, w, m1). b
      \<and> workeraa_network_func n m1 w WORKERAA_FUNC_INIT = Some (True, w, m1) = (\<not> oom m (nalloc m))
      \<and> returns (workeraa_network_func n m1 w WORKERAA_FUNC_FREE)
          (\<lambda>(b, w, m2). b \<and> w = Some Null \<and> blocks m2 = blocks m))"
    by (auto simp: network_func_ends workeraa_network_init_def workeraa_network_free_def c_malloc_def Let_def)
qed

lemma workeraa_network_returns_witness:
  "workeraa_network_func 64 empty_mem (Some Null) WORKERAA_FUNC_RECV_DATA = None
    \<and> returns (workeraa_network_func 64 empty_mem (Some Null) WORKERAA_FUNC_INIT) (\<lambda>(b, w, m1). b)"
  using workeraa_network_returns [OF mem_ok_empty, of 64 Null WORKERAA_FUNC_RECV_DATA]
  by (auto simp: returns_iff)

end
