(* ===== verification/Socket_Server.thy ===== *)
theory Socket_Server
  imports Socket_Worker Work_Queue_Proofs
begin

unbundle bit_operations_syntax

text \<open>
  The server and the client, \<open>src/socket/socketaa_server.h\<close>, \<open>src/socket/socketaa_client.h\<close> and
  \<open>src/socket/socketaa_init.h\<close>, as they are built for Linux.  The answers of the operating system are
  arguments: one record for the calls before the loop, and one for each of its rounds.
  \<open>server_step\<close> puts the loop of the server and the workers together.
\<close>

section \<open>The server\<close>

definition socketaa_free_wsa :: int where "socketaa_free_wsa = 0"

definition WORKERAA_POOL_WORKER_COUNT_DEFAULT :: nat where "WORKERAA_POOL_WORKER_COUNT_DEFAULT = 1"
definition WORKERAA_POOL_WORKER_COUNT_MAX :: nat where "WORKERAA_POOL_WORKER_COUNT_MAX = 255"

text \<open>What the pool gets: memory for its workers, the shared state and its slots, the mutex, the condition, the
  threads.\<close>

record pool_answers =
  got_workers :: bool
  got_sync :: bool
  got_slots :: bool
  got_mutex :: bool
  got_cond :: bool
  got_thread :: "nat \<Rightarrow> bool"

record listen_answers =
  ans_socket :: int
  ans_fcntl :: int
  ans_bind :: int
  ans_listen :: int

record accept_answers =
  acc_select :: int
  acc_conn :: int
  acc_lock :: bool
  acc_alloc :: bool

text \<open>The parts of \<open>server->work\<close> that are in use, the work structs of the queue, and the flag \<open>is_read\<close>; the
  flags \<open>is_write\<close> and \<open>is_accepted\<close> are zero throughout.\<close>

record server_state =
  sv_pool :: workeraa_pool
  sv_works :: "socketaa_work list"
  sv_work :: socketaa_work
  sv_read :: bool

definition new_conn :: "16 word \<Rightarrow> int \<Rightarrow> socketaa_work" where
  "new_conn pt c = \<lparr>w_conn = c, w_port = pt,
     w_flags = SOCKETAA_WORK_FLAGS_IS_SELECT OR SOCKETAA_WORK_FLAGS_IS_RECV\<rparr>"

text \<open>A round; the result says whether the loop goes on.  The listening socket is in the set for reading when
  \<open>is_read\<close> is set.\<close>

definition server_round :: "accept_answers \<Rightarrow> 16 word \<Rightarrow> server_state \<Rightarrow> (bool \<times> server_state) option" where
  "server_round an pt z = (let read_set = sv_read z; z = z\<lparr>sv_read := False\<rparr> in
     if acc_select an > 0
     then (if read_set
       then (if acc_conn an = - 1 then Some (False, z)
         else (let z = z\<lparr>sv_read := True, sv_work := new_conn pt (acc_conn an)\<rparr> in do {
           y \<leftarrow> sync (sv_pool z);
           (_, y, ws) \<leftarrow> workeraa_set_work (acc_lock an) (acc_alloc an) (sv_work z) y (sv_works z);
           Some (True, z\<lparr>sv_pool := (sv_pool z)\<lparr>sync := Some y\<rparr>, sv_works := ws\<rparr>) }))
       else Some (True, z))
     else Some (acc_select an \<noteq> SOCKETAA_SOCKET_ERROR, z))"

text \<open>The loop on a list of answers, one for each round; the result says whether it has ended.\<close>

fun server_loop :: "accept_answers list \<Rightarrow> 16 word \<Rightarrow> server_state \<Rightarrow> (bool \<times> server_state) option" where
  "server_loop [] pt z = Some (False, z)"
| "server_loop (an # ans) pt z = do {
     (goes_on, z) \<leftarrow> server_round an pt z;
     if goes_on then server_loop ans pt z else Some (True, z) }"

text \<open>The result is \<^const>\<open>None\<close> while the loop runs.  The results of \<open>workeraa_pool_init\<close> and of \<open>setsockopt\<close>
  are not used.\<close>

definition socketaa_server :: "pool_answers \<Rightarrow> listen_answers \<Rightarrow> accept_answers list \<Rightarrow> server_state \<Rightarrow>
    (int option \<times> server_state) option" where
  "socketaa_server pa la ans z = (
     let pt = w_port (sv_work z); pool = sv_pool z;
         pool = (if worker_count pool = 0 then pool\<lparr>worker_count := WORKERAA_POOL_WORKER_COUNT_DEFAULT\<rparr>
           else if worker_count pool > WORKERAA_POOL_WORKER_COUNT_MAX
           then pool\<lparr>worker_count := WORKERAA_POOL_WORKER_COUNT_MAX\<rparr> else pool)
     in do {
       (_, pool) \<leftarrow> workeraa_pool_init (got_workers pa) (got_sync pa) (got_slots pa) (got_mutex pa) (got_cond pa) (got_thread pa) pool;
       let z = z\<lparr>sv_pool := pool\<rparr>;
       if ans_socket la = - 1 \<or> ans_fcntl la \<noteq> 0 \<or> ans_bind la \<noteq> 0 \<or> ans_listen la \<noteq> 0
       then Some (Some socketaa_free_wsa, z)
       else do {
         (ended, z) \<leftarrow> server_loop ans pt (z\<lparr>sv_read := True\<rparr>);
         Some (if ended then Some socketaa_free_wsa else None, z) } })"

section \<open>The client\<close>

definition SOCKETAA_EINPROGRESS :: int where "SOCKETAA_EINPROGRESS = 10036"

record connect_answers =
  con_socket :: int
  con_connect :: int
  con_fcntl :: int

text \<open>The flags \<open>is_send\<close> and \<open>is_connected\<close>; \<open>is_recv\<close> is zero throughout, and no data is sent or
  received.  The answers are those of \<open>select\<close>.\<close>

fun client_loop :: "int list \<Rightarrow> bool \<Rightarrow> bool \<Rightarrow> bool \<times> bool \<times> bool" where
  "client_loop [] sends connected = (False, sends, connected)"
| "client_loop (n # ns) sends connected = (
     if n > 0 \<and> sends \<and> \<not> connected then (True, True, True)
     else if n = SOCKETAA_SOCKET_ERROR then (True, False, connected)
     else client_loop ns False connected)"

definition socketaa_client :: "connect_answers \<Rightarrow> int list \<Rightarrow> int option" where
  "socketaa_client ca ns = (if con_socket ca = - 1 then Some socketaa_free_wsa
     else if con_connect ca \<noteq> 0 \<and> con_connect ca \<noteq> SOCKETAA_EINPROGRESS then Some socketaa_free_wsa
     else if con_fcntl ca \<noteq> 0 then Some socketaa_free_wsa
     else if fst (client_loop ns True False) then Some socketaa_free_wsa else None)"

section \<open>The server and the workers together\<close>

text \<open>The state has the works that the workers have taken, each with the number of its struct, and the
  connections that the server has accepted.  A worker may change the struct of a work that it has taken.\<close>

type_synonym system = "server_state \<times> (nat \<times> socketaa_work) list \<times> int list"

definition accepts :: "accept_answers \<Rightarrow> server_state \<Rightarrow> bool" where
  "accepts an z \<longleftrightarrow> acc_select an > 0 \<and> sv_read z \<and> acc_conn an \<noteq> - 1"

definition set_sync :: "workeraa_sync \<Rightarrow> server_state \<Rightarrow> server_state" where
  "set_sync y z = z\<lparr>sv_pool := (sv_pool z)\<lparr>sync := Some y\<rparr>\<rparr>"

inductive system_step :: "16 word \<Rightarrow> system \<Rightarrow> system \<Rightarrow> bool" for pt where
  server: "server_round an pt z = Some (True, z') \<Longrightarrow> acc_lock an \<Longrightarrow> acc_alloc an \<Longrightarrow>
    system_step pt (z, taken, conns) (z', taken, if accepts an z then conns @ [acc_conn an] else conns)"
| take_work: "sync (sv_pool z) = Some y \<Longrightarrow> workeraa_get_work True [] y p = Some (Done (True, Some x, y')) \<Longrightarrow>
    system_step pt (z, taken, conns) (set_sync y' z, taken @ [(x, sv_works z ! x)], conns)"
| use_work: "(x, v) \<in> set taken \<Longrightarrow>
    system_step pt (z, taken, conns) (z\<lparr>sv_works := (sv_works z)[x := v']\<rparr>, taken, conns)"

inductive_cases system_stepE: "system_step pt s s'"

text \<open>The connections are in line: \<open>n\<close> slots, the first works taken, the others waiting.\<close>

fun system_ok :: "nat \<Rightarrow> 16 word \<Rightarrow> system \<Rightarrow> bool" where
  "system_ok n pt (z, taken, conns) \<longleftrightarrow> sync (sv_pool z) = Some (line n (length taken) (length conns))
     \<and> length (sv_works z) = length conns \<and> length taken \<le> length conns \<and> map fst taken = [0..<length taken]
     \<and> map snd taken @ drop (length taken) (sv_works z) = map (new_conn pt) conns"

lemma server_round_ok:
  assumes "system_ok n pt (z, taken, conns)" and "server_round an pt z = Some (True, z')" and "acc_lock an" and "acc_alloc an"
    and "length (if accepts an z then conns @ [acc_conn an] else conns) < n"
  shows "system_ok n pt (z', taken, if accepts an z then conns @ [acc_conn an] else conns)"
proof (cases "accepts an z")
  case False
  with assms(1,2) show ?thesis by (auto simp: server_round_def accepts_def Let_def split: if_splits)
next
  case True
  have "workeraa_set_work True True (new_conn pt (acc_conn an)) (line n (length taken) (length conns)) (sv_works z)
      = Some (True, line n (length taken) (length conns + 1), sv_works z @ [new_conn pt (acc_conn an)])"
    using assms(1,5) True by (intro set_work_line) auto
  with True assms show ?thesis
    by (auto simp: server_round_def accepts_def Let_def drop_append)
qed

lemma take_work_ok:
  assumes "system_ok n pt (z, taken, conns)" and "sync (sv_pool z) = Some y"
    and "workeraa_get_work True [] y p = Some (Done (True, Some x, y'))" and "length conns < n"
  shows "system_ok n pt (set_sync y' z, taken @ [(x, sv_works z ! x)], conns)"
proof -
  let ?r = "length taken"
  have y: "y = line n ?r (length conns)" using assms(1,2) by simp
  have "work_count y \<noteq> 0"
    using assms(3) by (subst (asm) workeraa_get_work_def) (auto simp: wait_for_work.simps [of "[]"] split: if_splits)
  then have lt: "?r < length conns" by (simp add: y)
  then have g: "x = ?r" "y' = line n (?r + 1) (length conns)"
    using assms(3,4) get_work_line [of ?r "length conns" n "[]" p] by (auto simp: y)
  have "drop ?r (sv_works z) = sv_works z ! ?r # drop (Suc ?r) (sv_works z)"
    using lt assms(1) by (intro Cons_nth_drop_Suc [symmetric]) simp
  with assms(1) lt g show ?thesis by (simp add: set_sync_def)
qed

lemma use_work_ok:
  assumes "system_ok n pt (z, taken, conns)" and "(x, v) \<in> set taken"
  shows "system_ok n pt (z\<lparr>sv_works := (sv_works z)[x := v']\<rparr>, taken, conns)"
proof -
  have "x \<in> set (map fst taken)" using assms(2) by force
  moreover have "map fst taken = [0..<length taken]" using assms(1) by simp
  ultimately have "x < length taken" by (metis atLeastLessThan_iff set_upt)
  with assms(1) show ?thesis by (simp add: drop_update_cancel)
qed

lemma system_step_ok:
  "system_step pt s s' \<Longrightarrow> system_ok n pt s \<Longrightarrow> length (snd (snd s')) < n \<Longrightarrow> system_ok n pt s'"
proof (induction rule: system_step.induct)
  case (server an z z' taken conns)
  then show ?case using server_round_ok [of n pt z taken conns an z'] by (simp only: snd_conv)
qed (auto simp del: system_ok.simps intro: take_work_ok use_work_ok)

lemma system_step_conns: "system_step pt s s' \<Longrightarrow> length (snd (snd s)) \<le> length (snd (snd s'))"
  by (induction rule: system_step.induct) auto

lemma system_steps_ok:
  "(system_step pt)\<^sup>*\<^sup>* s s' \<Longrightarrow> system_ok n pt s \<Longrightarrow> length (snd (snd s')) < n \<Longrightarrow> system_ok n pt s'"
  by (induction rule: rtranclp_induct) (fastforce simp del: system_ok.simps dest: system_step_conns intro: system_step_ok)+

text \<open>Where the server begins.\<close>

definition started :: "nat \<Rightarrow> server_state \<Rightarrow> bool" where
  "started n z \<longleftrightarrow> (\<exists>a0 a1 a2 mutex cond create pool b. 0 < worker_count pool
     \<and> workeraa_pool_init a0 a1 a2 mutex cond create pool = Some (b, sv_pool z))
     \<and> sync (sv_pool z) \<noteq> None \<and> work_size_max (sv_pool z) = n \<and> sv_works z = []"

lemma pool_init_sync:
  assumes "workeraa_pool_init a0 a1 a2 mutex cond create pool = Some (b, p')" and "0 < worker_count pool"
  shows "\<exists>ok p1. workeraa_sync_init a1 a2 mutex cond pool = (ok, p1) \<and> sync p' = sync p1 \<and> work_size_max p' = work_size_max p1"
  using assms by (auto simp: workeraa_pool_init_def Let_def split: prod.splits if_splits)

lemma sync_init_fails: "workeraa_sync_init a1 a2 mutex cond pool = (False, p1) \<Longrightarrow> sync p1 = None"
  by (auto simp: workeraa_sync_init_def Let_def split: if_splits)

lemma started_line:
  assumes "started n z"
  shows "sync (sv_pool z) = Some (line n 0 0)"
proof -
  obtain a1 a2 mutex cond pool ok p1 where p1: "workeraa_sync_init a1 a2 mutex cond pool = (ok, p1)"
      "sync (sv_pool z) = sync p1" "work_size_max (sv_pool z) = work_size_max p1"
    using assms pool_init_sync unfolding started_def by metis
  with assms have ok using sync_init_fails by (cases ok) (auto simp: started_def)
  then show ?thesis using p1 sync_init_line(1) assms by (auto simp: started_def)
qed

lemma started_ok: "started n z \<Longrightarrow> system_ok n pt (z, [], [])"
  using started_line [of n z] by (simp add: started_def)

lemma next_waiting:
  assumes "started n z0" and "(system_step pt)\<^sup>*\<^sup>* (z0, [], []) (z, taken, conns)"
    and "length taken < length conns" and "length conns < n" and "sync (sv_pool z) = Some y"
  shows "\<exists>y'. workeraa_get_work True [] y p = Some (Done (True, Some (length taken), y'))"
    and "length taken < length (sv_works z)" and "sv_works z ! length taken = new_conn pt (conns ! length taken)"
proof -
  have ok: "system_ok n pt (z, taken, conns)"
    using system_steps_ok [OF assms(2) started_ok [OF assms(1)]] assms(4) by simp
  with assms(3-5) get_work_line [of "length taken" "length conns" n "[]" p]
  show "\<exists>y'. workeraa_get_work True [] y p = Some (Done (True, Some (length taken), y'))" by auto
  show "length taken < length (sv_works z)" using ok assms(3) by simp
  have "(map snd taken @ drop (length taken) (sv_works z)) ! length taken = map (new_conn pt) conns ! length taken"
    using ok by simp
  then show "sv_works z ! length taken = new_conn pt (conns ! length taken)"
    using ok assms(3) by (simp add: nth_append)
qed

text \<open>C8: whatever the interleaving of the server and the workers, and whatever the workers do with what they
  have taken, as long as fewer connections have been accepted than the queue has slots: the works that
  the workers have taken, followed by those that wait, are the accepted connections in the order of
  their arrival, each with the port of the server and the flags that ask for receiving.\<close>

theorem server_hands_on_connections:
  assumes "started n z0" and "(system_step pt)\<^sup>*\<^sup>* (z0, [], []) (z, taken, conns)" and "length conns < n"
  shows "map snd taken @ drop (length taken) (sv_works z) = map (new_conn pt) conns"
  using system_steps_ok [OF assms(2) started_ok [OF assms(1)]] assms(3) by simp

definition test_server :: server_state where
  "test_server = \<lparr>sv_pool = (test_pool 4)\<lparr>workers := Some 2, sync := Some (line 4 0 0)\<rparr>, sv_works = [],
     sv_work = test_work 0, sv_read = True\<rparr>"

lemma test_started: "started 4 test_server"
proof -
  have "start_workers (\<lambda>_. True) 2 0 = 2" by (simp add: start_workers.simps)
  then have "workeraa_pool_init True True True True True (\<lambda>_. True) (test_pool 4) = Some (False, sv_pool test_server)"
    using test_pool_init [of 4] by (simp add: workeraa_pool_init_def test_server_def Let_def) (simp add: test_pool_def)
  moreover have "worker_count (test_pool 4) = 2" by (simp add: test_pool_def)
  ultimately have "\<exists>a0 a1 a2 mutex cond create pool b. 0 < worker_count pool
      \<and> workeraa_pool_init a0 a1 a2 mutex cond create pool = Some (b, sv_pool test_server)"
    by (metis zero_less_numeral)
  then show ?thesis by (simp add: started_def) (simp add: test_server_def test_pool_def)
qed

definition test_accepted :: server_state where
  "test_accepted = test_server\<lparr>sv_pool := (sv_pool test_server)\<lparr>sync := Some (line 4 0 1)\<rparr>, sv_works := [new_conn 8080 7],
     sv_work := new_conn 8080 7\<rparr>"

lemma test_accepts: "(system_step 8080)\<^sup>*\<^sup>* (test_server, [], []) (test_accepted, [], [7])"
proof -
  let ?an = "\<lparr>acc_select = 1, acc_conn = 7, acc_lock = True, acc_alloc = True\<rparr>"
  have "server_round ?an 8080 test_server = Some (True, test_accepted)"
    using set_work_line [of 0 4 0 "[]" "new_conn 8080 7"]
    by (simp add: server_round_def test_server_def test_accepted_def Let_def)
  moreover have "accepts ?an test_server" by (simp add: accepts_def test_server_def)
  ultimately show ?thesis using system_step.server [of ?an 8080 test_server test_accepted "[]" "[]"] by auto
qed

lemma server_hands_on_connections_witness:
  "map snd [] @ drop (length []) (sv_works test_accepted) = map (new_conn 8080) [7]"
  using server_hands_on_connections [OF test_started test_accepts] by simp

section \<open>When the slots are used up\<close>

lemma accept_one:
  assumes "sync (sv_pool z) = Some (line n 0 w)" and "w < n" and "length (sv_works z) = w" and "sv_read z" and "c \<noteq> - 1"
  obtains z' where "system_step pt (z, taken, conns) (z', taken, conns @ [c])"
    and "sync (sv_pool z') = Some (line n 0 (w + 1))" and "length (sv_works z') = w + 1" and "sv_read z'"
proof -
  let ?an = "\<lparr>acc_select = 1, acc_conn = c, acc_lock = True, acc_alloc = True\<rparr>"
  let ?z = "z\<lparr>sv_read := True, sv_work := new_conn pt c, sv_pool := (sv_pool z)\<lparr>sync := Some (line n 0 (w + 1))\<rparr>,
    sv_works := sv_works z @ [new_conn pt c]\<rparr>"
  have "server_round ?an pt z = Some (True, ?z)"
    using set_work_line [of w n 0 "sv_works z" "new_conn pt c"] assms by (simp add: server_round_def Let_def)
  from system_step.server [OF this, of taken conns] assms show ?thesis
    by (intro that [of ?z]) (simp_all add: accepts_def)
qed

lemma accept_all:
  assumes "sync (sv_pool z) = Some (line n 0 w)" and "w + length cs \<le> n" and "length (sv_works z) = w" and "sv_read z"
    and "- 1 \<notin> set cs"
  shows "\<exists>z'. (system_step pt)\<^sup>*\<^sup>* (z, taken, conns) (z', taken, conns @ cs)
    \<and> sync (sv_pool z') = Some (line n 0 (w + length cs))"
  using assms
proof (induction cs arbitrary: z w conns)
  case Nil
  then show ?case by auto
next
  case (Cons c cs)
  obtain z1 where 1: "system_step pt (z, taken, conns) (z1, taken, conns @ [c])"
      "sync (sv_pool z1) = Some (line n 0 (w + 1))" "length (sv_works z1) = w + 1" "sv_read z1"
    using accept_one [of z n w c pt taken conns] Cons(2-6) by auto
  with Cons(1) [of z1 "w + 1" "conns @ [c]"] Cons(3,6) show ?case
    by (auto intro: converse_rtranclp_into_rtranclp)
qed

lemma take_all:
  assumes "sync (sv_pool z) = Some (line n r n)" and "r + k = n"
  shows "\<exists>z' ts. (system_step pt)\<^sup>*\<^sup>* (z, taken, conns) (z', taken @ ts, conns) \<and> length ts = k
    \<and> sync (sv_pool z') = Some (line n n n)"
  using assms
proof (induction k arbitrary: z r taken)
  case 0
  then show ?case by auto
next
  case (Suc k)
  let ?z = "set_sync (line n (r + 1) n) z" and ?t = "(r, sv_works z ! r)"
  have "system_step pt (z, taken, conns) (?z, taken @ [?t], conns)"
    using Suc(2,3) get_work_line [of r n n "[]" None] by (intro system_step.take_work) simp_all
  moreover obtain z' ts where "(system_step pt)\<^sup>*\<^sup>* (?z, taken @ [?t], conns) (z', (taken @ [?t]) @ ts, conns)"
      "length ts = k" "sync (sv_pool z') = Some (line n n n)"
    using Suc(1) [of ?z "r + 1" "taken @ [?t]"] Suc(3) by (auto simp: set_sync_def)
  ultimately show ?case
    by (intro exI [of _ z'] exI [of _ "?t # ts"]) (auto intro: converse_rtranclp_into_rtranclp)
qed

text \<open>A state in which every slot has been written and read: no step changes the queue, and none takes work.\<close>

fun wedged :: "nat \<Rightarrow> (nat \<times> socketaa_work) list \<Rightarrow> system \<Rightarrow> bool" where
  "wedged n ts (z, taken, conns) \<longleftrightarrow> sync (sv_pool z) = Some (line n n n) \<and> taken = ts"

lemma wedged_step: "system_step pt s s' \<Longrightarrow> wedged n ts s \<Longrightarrow> wedged n ts s'"
proof (induction rule: system_step.induct)
  case (server an z z' taken conns)
  have "workeraa_set_work True True x (line n n n) ws = Some (False, line n n n, ws)" for x ws
    by (simp add: step_defs queue_defs Let_def)
  with server show ?case by (auto simp: server_round_def Let_def split: if_splits)
next
  case (take_work z y p x y' taken conns)
  then show ?case by (auto simp: step_defs wait_for_work.simps line_def)
qed simp

lemma wedged_steps: "(system_step pt)\<^sup>*\<^sup>* s s' \<Longrightarrow> wedged n ts s \<Longrightarrow> wedged n ts s'"
  by (induction rule: rtranclp_induct) (auto intro: wedged_step)

text \<open>C9: the server serves as many connections as its queue has slots.  After a burst of that many connections,
  whatever they are, there is a run in which the workers take them all; from there on, whatever is accepted and
  whatever the workers do, no worker is ever given work again.\<close>

theorem server_wedges:
  assumes "started n z0" and "sv_read z0" and "length conns = n" and "- 1 \<notin> set conns"
  shows "\<exists>z taken. (system_step pt)\<^sup>*\<^sup>* (z0, [], []) (z, taken, conns) \<and> length taken = n
    \<and> (\<forall>z' taken' conns'. (system_step pt)\<^sup>*\<^sup>* (z, taken, conns) (z', taken', conns') \<longrightarrow> taken' = taken)"
proof -
  have "sv_works z0 = []" using assms(1) by (simp add: started_def)
  then obtain z1 where 1: "(system_step pt)\<^sup>*\<^sup>* (z0, [], []) (z1, [], conns)" "sync (sv_pool z1) = Some (line n 0 n)"
    using accept_all [OF started_line [OF assms(1)], of conns pt "[]" "[]"] assms(2-4) by auto
  obtain z2 ts where 2: "(system_step pt)\<^sup>*\<^sup>* (z1, [], conns) (z2, ts, conns)" "length ts = n"
      "sync (sv_pool z2) = Some (line n n n)"
    using take_all [OF 1(2), of n pt "[]" conns] by auto
  have "taken' = ts" if "(system_step pt)\<^sup>*\<^sup>* (z2, ts, conns) (z', taken', conns')" for z' taken' conns'
    using wedged_steps [OF that, of n ts] 2(3) by simp
  with rtranclp_trans [OF 1(1) 2(1)] 2(2) show ?thesis by blast
qed

lemma server_wedges_witness:
  "\<exists>z taken. (system_step 8080)\<^sup>*\<^sup>* (test_server, [], []) (z, taken, [5, 6, 7, 8]) \<and> length taken = 4"
  using server_wedges [OF test_started, of "[5, 6, 7, 8]" 8080] by (auto simp: test_server_def)

section \<open>Failures\<close>

text \<open>C27: when the shared state of the pool cannot be made, the server does not notice: it listens, and the
  first connection that it accepts makes it use a null pointer.\<close>

theorem server_without_pool:
  assumes "got_workers pa" and "\<not> (got_sync pa \<and> got_slots pa \<and> got_mutex pa \<and> got_cond pa)"
    and "ans_socket la \<noteq> - 1" and "ans_fcntl la = 0" and "ans_bind la = 0" and "ans_listen la = 0"
    and "acc_select an > 0" and "acc_conn an \<noteq> - 1"
  shows "socketaa_server pa la (an # ans) z = None"
proof -
  have fails: "\<exists>b pool'. workeraa_pool_init (got_workers pa) (got_sync pa) (got_slots pa) (got_mutex pa) (got_cond pa) (got_thread pa) pool
      = Some (b, pool') \<and> sync pool' = None" if "0 < worker_count pool" for pool
    using that assms(1,2) by (auto simp: workeraa_pool_init_def workeraa_sync_init_def Let_def split: if_splits prod.splits)
  define pool where "pool = (let pool = sv_pool z in if worker_count pool = 0 then pool\<lparr>worker_count := WORKERAA_POOL_WORKER_COUNT_DEFAULT\<rparr>
      else if worker_count pool > WORKERAA_POOL_WORKER_COUNT_MAX
      then pool\<lparr>worker_count := WORKERAA_POOL_WORKER_COUNT_MAX\<rparr> else pool)"
  have "0 < worker_count pool"
    by (simp add: pool_def Let_def WORKERAA_POOL_WORKER_COUNT_DEFAULT_def WORKERAA_POOL_WORKER_COUNT_MAX_def)
  from fails [OF this] obtain b pool' where p: "workeraa_pool_init (got_workers pa) (got_sync pa) (got_slots pa) (got_mutex pa)
      (got_cond pa) (got_thread pa) pool = Some (b, pool')" "sync pool' = None" by blast
  have "server_round an pt (z\<lparr>sv_pool := pool', sv_read := True\<rparr>) = None" for pt
    using assms(7,8) p(2) by (simp add: server_round_def Let_def)
  then show ?thesis
    using assms(3-6) p(1) by (simp add: socketaa_server_def Let_def pool_def [unfolded Let_def, symmetric])
qed

lemma server_without_pool_witness:
  "socketaa_server \<lparr>got_workers = True, got_sync = False, got_slots = True, got_mutex = True, got_cond = True, got_thread = \<lambda>_. True\<rparr>
    \<lparr>ans_socket = 3, ans_fcntl = 0, ans_bind = 0, ans_listen = 0\<rparr>
    [\<lparr>acc_select = 1, acc_conn = 7, acc_lock = True, acc_alloc = True\<rparr>] test_server = None"
  by (rule server_without_pool) simp_all

text \<open>On Linux neither the server nor the client reports a failure; one failed call of \<open>accept\<close> ends the server;
  a connection that finds no place in the queue is neither queued nor closed.\<close>

lemma server_result: "socketaa_server pa la ans z = Some (Some e, z') \<Longrightarrow> e = 0"
  by (auto simp: socketaa_server_def socketaa_free_wsa_def Let_def bind_eq_Some_conv split: if_splits)

lemma client_result: "socketaa_client ca ns = Some e \<Longrightarrow> e = 0"
  by (auto simp: socketaa_client_def socketaa_free_wsa_def split: if_splits)

lemma server_ends_on_accept_error:
  "acc_select an > 0 \<Longrightarrow> acc_conn an = - 1 \<Longrightarrow> sv_read z \<Longrightarrow> server_loop (an # ans) pt z = Some (True, z\<lparr>sv_read := False\<rparr>)"
  by (simp add: server_round_def)

lemma server_drops_connection:
  assumes "accepts an z" and "sync (sv_pool z) = Some y" and "workeraa_work_check_write_index y = False"
  shows "server_round an pt z = Some (True, z\<lparr>sv_work := new_conn pt (acc_conn an), sv_read := True\<rparr>)"
  using assms by (cases z) (cases "sv_pool z", auto simp: server_round_def accepts_def workeraa_set_work_def Let_def)

end
