(* ===== verification/Worker_Threads.thy ===== *)
theory Worker_Threads
  imports Work_Queue
begin

text \<open>
  The threads of the pool: \<open>workeraa_run\<close>, which starts one, and the loop of \<open>workeraa_pool_init\<close> on the array of
  workers, of which theory \<open>Work_Queue\<close> keeps the count only.  \<open>workeraa_start\<close>, the body of a thread, is
  \<open>workeraa_main\<close>, whose loop has no end; its rounds are in theory \<open>Socket_Worker\<close>.
\<close>

section \<open>Operations\<close>

text \<open>A worker of the array: its thread (\<^const>\<open>None\<close> for zero), whether its attributes are set, and whether it
  points to the shared state.  The rest of the struct is zero.\<close>

record worker_slot =
  slot_thread :: "nat option"
  slot_attr :: bool
  slot_sync :: bool

definition worker_slot_zero :: worker_slot where
  "worker_slot_zero = \<lparr>slot_thread = None, slot_attr = False, slot_sync = False\<rparr>"

text \<open>\<open>started\<close> is the thread that \<open>pthread_create\<close> gives, \<^const>\<open>None\<close> when it fails.\<close>

definition workeraa_run :: "nat option \<Rightarrow> worker_slot \<Rightarrow> bool \<times> worker_slot" where
  "workeraa_run started w = (let w = w\<lparr>slot_attr := True\<rparr> in case started of
     None \<Rightarrow> (False, w\<lparr>slot_thread := None, slot_attr := False\<rparr>)
   | Some t \<Rightarrow> (True, w\<lparr>slot_thread := Some t\<rparr>))"

definition workeraa_begin :: "workeraa_pool \<Rightarrow> bool \<times> workeraa_pool" where
  "workeraa_begin pool = (False, pool)"

text \<open>The loop from worker \<open>i\<close> on; the result is the \<open>i\<close> at which it ends, and the array.\<close>

function run_workers :: "(nat \<Rightarrow> nat option) \<Rightarrow> nat \<Rightarrow> worker_slot list \<Rightarrow> nat \<times> worker_slot list" where
  "run_workers started i ws = (if i < length ws
     then (let (ok, w) = workeraa_run (started i) ((ws ! i)\<lparr>slot_sync := True\<rparr>); ws = ws[i := w]
       in if ok then run_workers started (i + 1) ws else (i, ws))
     else (i, ws))"
  by pat_completeness auto
termination
  by (relation "measure (\<lambda>(started, i, ws). length ws - i)") auto

declare run_workers.simps [simp del]

section \<open>What is started\<close>

text \<open>A worker with the thread \<open>t\<close>.\<close>

definition running :: "nat option \<Rightarrow> worker_slot" where
  "running t = \<lparr>slot_thread = t, slot_attr = t \<noteq> None, slot_sync = True\<rparr>"

lemma workeraa_run_zero:
  "workeraa_run t (worker_slot_zero\<lparr>slot_sync := True\<rparr>) = (t \<noteq> None, running t)"
  by (cases t) (simp_all add: workeraa_run_def worker_slot_zero_def running_def)

lemma run_workers_from:
  "i \<le> n \<Longrightarrow> k = start_workers (\<lambda>i. started i \<noteq> None) n i \<Longrightarrow>
   run_workers started i (map (\<lambda>i. running (started i)) [0..<i] @ replicate (n - i) worker_slot_zero) =
     (k, map (\<lambda>i. running (started i)) [0..<min (Suc k) n] @ replicate (n - min (Suc k) n) worker_slot_zero)
   \<and> i \<le> k \<and> k \<le> n \<and> (\<forall>j. i \<le> j \<and> j < k \<longrightarrow> started j \<noteq> None) \<and> (k < n \<longrightarrow> started k = None)"
proof (induction "n - i" arbitrary: i)
  case 0
  then show ?case by (auto simp: run_workers.simps start_workers.simps)
next
  case (Suc d)
  let ?ws = "map (\<lambda>i. running (started i)) [0..<i] @ replicate (n - i) worker_slot_zero"
  have i: "i < n" using Suc(2) by simp
  have "replicate (n - i) worker_slot_zero = worker_slot_zero # replicate (n - Suc i) worker_slot_zero"
    using i by (simp add: Suc_diff_Suc flip: replicate_Suc)
  then have at: "?ws ! i = worker_slot_zero"
    and up: "?ws[i := running (started i)] = map (\<lambda>i. running (started i)) [0..<Suc i] @ replicate (n - Suc i) worker_slot_zero"
    by (simp_all add: nth_append list_update_append)
  note unf = run_workers.simps [of started i ?ws] start_workers.simps [of "\<lambda>i. started i \<noteq> None" n i]
  show ?case
  proof (cases "started i")
    case None
    then show ?thesis
      using i Suc(4) at up unfolding unf by (auto simp: workeraa_run_zero)
  next
    case (Some t)
    have "d = n - Suc i" "Suc i \<le> n" using Suc(2) by simp_all
    moreover have k: "k = start_workers (\<lambda>i. started i \<noteq> None) n (Suc i)"
      using Suc(4) Some i unfolding unf by simp
    ultimately have IH: "run_workers started (Suc i) (?ws[i := running (started i)]) =
        (k, map (\<lambda>i. running (started i)) [0..<min (Suc k) n] @ replicate (n - min (Suc k) n) worker_slot_zero)
        \<and> Suc i \<le> k \<and> k \<le> n \<and> (\<forall>j. Suc i \<le> j \<and> j < k \<longrightarrow> started j \<noteq> None) \<and> (k < n \<longrightarrow> started k = None)"
      unfolding up by (rule Suc(1))
    have "run_workers started i ?ws = run_workers started (Suc i) (?ws[i := running (started i)])"
      using i Some at by (subst run_workers.simps) (simp add: workeraa_run_zero)
    moreover have "started j \<noteq> None" if "i \<le> j \<and> j < k" for j
      using IH Some that by (cases "j = i") auto
    ultimately show ?thesis using IH by simp
  qed
qed

text \<open>The count that \<open>workeraa_pool_init\<close> stores is that of the workers with a thread: the loop starts the
  threads in turn, and ends at the first that cannot be started.  That worker has no thread but points to the
  shared state, and those after it are as \<open>memset\<close> left them.\<close>

theorem run_workers_prefix:
  fixes n started
  defines "k \<equiv> start_workers (\<lambda>i. started i \<noteq> None) n 0"
  shows "run_workers started 0 (replicate n worker_slot_zero) =
    (k, map (\<lambda>i. running (started i)) [0..<min (Suc k) n] @ replicate (n - min (Suc k) n) worker_slot_zero)
    \<and> k \<le> n \<and> (\<forall>i < k. started i \<noteq> None) \<and> (k < n \<longrightarrow> started k = None)"
  using run_workers_from [of 0 n k started] unfolding k_def by simp

end
