(* ===== verification/Server_Example.thy ===== *)
theory Server_Example
  imports Socket_Server Worker_Threads
begin

text \<open>
  The example program of the socket library, \<open>src/socket/test.c\<close>: it takes the working directory as the path to
  serve and runs the server with two workers.  \<open>malloc\<close> is the one of theory \<open>Memory\<close>; the answer of \<open>getcwd\<close> is
  an argument, \<^const>\<open>None\<close> for an error.  The messages on the standard error are left out.
\<close>

section \<open>The program\<close>

definition PATH_MAX :: nat where "PATH_MAX = 4096"

text \<open>\<open>getcwd(buf, n)\<close> stores the path when it fits with its terminator, and fails otherwise.\<close>

definition c_getcwd :: "mem \<Rightarrow> cptr \<Rightarrow> nat \<Rightarrow> string option \<Rightarrow> (bool \<times> mem) option" where
  "c_getcwd m b n cwd = (case cwd of None \<Rightarrow> Some (False, m)
     | Some d \<Rightarrow> if length d < n then do { m \<leftarrow> store_n m b (d @ [NUL]); Some (True, m) } else Some (False, m))"

text \<open>The fields of the server struct that \<open>main\<close> sets; all others are zero.\<close>

definition test_config :: server_state where
  "test_config = \<lparr>sv_pool = \<lparr>workers = None, worker_count = 1 + 1, sync = None, work_size_max = 1024\<rparr>, sv_works = [],
     sv_work = \<lparr>w_conn = 0, w_port = 8080, w_flags = 0\<rparr>, sv_read = False\<rparr>"

text \<open>The results: the exit code (\<^const>\<open>None\<close> while the server runs), the path, and the server.\<close>

definition test_main :: "mem \<Rightarrow> string option \<Rightarrow> pool_answers \<Rightarrow> listen_answers \<Rightarrow> accept_answers list \<Rightarrow>
    (int option \<times> stringaa \<times> server_state \<times> mem) option" where
  "test_main m cwd pa la ans = (case c_malloc m (PATH_MAX + 1) of (b, m) \<Rightarrow>
     if b = Null then Some (Some (- 1), stringaa_zero, test_config, m)
     else do {
       (got, m) \<leftarrow> c_getcwd m b PATH_MAX cwd;
       if \<not> got then Some (Some (- 1), stringaa_zero, test_config, m)
       else do {
         (ok, path, m) \<leftarrow> stringaa_set_chars m stringaa_zero b;
         (r, z) \<leftarrow> (if ok then socketaa_server pa la ans test_config else Some (Some 0, test_config));
         case r of None \<Rightarrow> Some (None, path, z, m)
         | Some _ \<Rightarrow> do { m \<leftarrow> c_free m b; Some (Some 0, path, z, m) } } })"

section \<open>The server it runs\<close>

definition all_work :: "pool_answers \<Rightarrow> listen_answers \<Rightarrow> bool" where
  "all_work pa la \<longleftrightarrow> got_workers pa \<and> got_sync pa \<and> got_slots pa \<and> got_mutex pa \<and> got_cond pa
     \<and> (\<forall>i < 2. got_thread pa i) \<and> ans_socket la \<noteq> - 1 \<and> ans_fcntl la = 0 \<and> ans_bind la = 0 \<and> ans_listen la = 0"

lemma getcwd_path:
  assumes "\<not> oom m (nalloc m)" and "d \<noteq> []" and "length d < PATH_MAX" and "NUL \<notin> set d"
  obtains m1 m2 path where "c_malloc m (PATH_MAX + 1) = (Ptr (nalloc m) 0, m1)"
    "c_getcwd m1 (Ptr (nalloc m) 0) PATH_MAX (Some d) = Some (True, m2)"
    "stringaa_set_chars m2 stringaa_zero (Ptr (nalloc m) 0) = Some (True, path, m2)"
    "chars m2 path = d" "c_free m2 (Ptr (nalloc m) 0) \<noteq> None"
proof -
  let ?a = "nalloc m" and ?n = "PATH_MAX + 1"
  let ?m1 = "m\<lparr>blocks := (blocks m)(?a \<mapsto> map (junk m ?a) [0..<?n]), nalloc := Suc ?a\<rparr>"
  let ?bs = "d @ NUL # drop (Suc (length d)) (map (junk m ?a) [0..<?n])"
  let ?m2 = "?m1\<lparr>blocks := (blocks ?m1)(?a \<mapsto> ?bs)\<rparr>"
  let ?path = "(set_flags [STRINGAA_IS_INIT] (stringaa_zero\<lparr>buf := Ptr ?a 0, buf_size := length d\<rparr>))
    \<lparr>write_pos := length d, is_null_terminated := True, buf_size := Suc (length d)\<rparr>"
  have "c_malloc m ?n = (Ptr ?a 0, ?m1)" using assms(1) by (simp add: c_malloc_def Let_def)
  moreover have "c_getcwd ?m1 (Ptr ?a 0) PATH_MAX (Some d) = Some (True, ?m2)"
    using assms(3) by (simp add: c_getcwd_def store_n_in)
  moreover have "stringaa_set_chars ?m2 stringaa_zero (Ptr ?a 0) = Some (True, ?path, ?m2)"
    using assms(2,4) nul_index_nul [of d]
    by (simp add: stringaa_set_chars_def stringaa_set_chars_size_def c_strlen_def set_flags_def end_of_def Let_def)
  moreover have "chars ?m2 ?path = d"
    by (simp add: chars_def load_n_in set_flags_def)
  moreover have "c_free ?m2 (Ptr ?a 0) \<noteq> None" by (simp add: dom_def)
  ultimately show thesis using that by blast
qed

text \<open>C14: when the working directory has a path that fits, and every resource is to be had (memory, the mutex, the
  condition, both threads, the listening socket), the example program sets that path and runs the server on
  port 8080 with two started workers and a queue of 1024 slots: what it does is the loop of the server,
  which waits for connections, from such a pool on, and it exits with 0 when that loop ends.\<close>

theorem test_main_serves:
  assumes "\<not> oom m (nalloc m)" and "d \<noteq> []" and "length d < PATH_MAX" and "NUL \<notin> set d" and "all_work pa la"
  shows "\<exists>z0. started 1024 z0 \<and> workers (sv_pool z0) = Some 2 \<and> worker_count (sv_pool z0) = 2
    \<and> sv_read z0 \<and> w_port (sv_work z0) = 8080
    \<and> (case server_loop ans 8080 z0 of None \<Rightarrow> test_main m (Some d) pa la ans = None
       | Some (ended, z) \<Rightarrow> returns (test_main m (Some d) pa la ans) (\<lambda>(r, path, z', m'). z' = z
           \<and> (if ended then r = Some 0 else r = None \<and> chars m' path = d)))"
proof -
  obtain m1 m2 path where path: "c_malloc m (PATH_MAX + 1) = (Ptr (nalloc m) 0, m1)"
    "c_getcwd m1 (Ptr (nalloc m) 0) PATH_MAX (Some d) = Some (True, m2)"
    "stringaa_set_chars m2 stringaa_zero (Ptr (nalloc m) 0) = Some (True, path, m2)"
    "chars m2 path = d" "c_free m2 (Ptr (nalloc m) 0) \<noteq> None"
    using getcwd_path [OF assms(1-4)] .
  obtain pool where pool: "workeraa_pool_init True True True True True (got_thread pa) (sv_pool test_config) = Some (False, pool)"
      "workers pool = Some 2" "worker_count pool = 2" "sync pool \<noteq> None" "work_size_max pool = 1024"
    using assms(5) by (simp add: workeraa_pool_init_def workeraa_sync_init_def test_config_def Let_def all_work_def
        start_workers.simps [of _ "Suc (Suc 0)"] numeral_2_eq_2)
  let ?z0 = "test_config\<lparr>sv_pool := pool, sv_read := True\<rparr>"
  have "0 < worker_count (sv_pool test_config)" by (simp add: test_config_def)
  with pool(1) have "\<exists>a0 a1 a2 mutex cond create pool b. 0 < worker_count pool
      \<and> workeraa_pool_init a0 a1 a2 mutex cond create pool = Some (b, sv_pool ?z0)" by force
  with pool have "started 1024 ?z0" by (simp add: started_def) (simp add: test_config_def)
  moreover have "socketaa_server pa la ans test_config = do {
      (ended, z) \<leftarrow> server_loop ans 8080 ?z0; Some (if ended then Some socketaa_free_wsa else None, z) }"
    using assms(5) pool(1)
    by (simp add: socketaa_server_def all_work_def Let_def test_config_def WORKERAA_POOL_WORKER_COUNT_MAX_def)
  then have "case server_loop ans 8080 ?z0 of None \<Rightarrow> test_main m (Some d) pa la ans = None
       | Some (ended, z) \<Rightarrow> returns (test_main m (Some d) pa la ans) (\<lambda>(r, path, z', m'). z' = z
           \<and> (if ended then r = Some 0 else r = None \<and> chars m' path = d))"
    using path by (cases "server_loop ans 8080 ?z0") (auto simp: test_main_def returns_iff split: if_splits)
  moreover have "workers (sv_pool ?z0) = Some 2" "worker_count (sv_pool ?z0) = 2" "sv_read ?z0" "w_port (sv_work ?z0) = 8080"
    using pool(2,3) by (simp_all add: test_config_def)
  ultimately show ?thesis by blast
qed

lemma test_main_serves_witness:
  "returns (test_main empty_mem (Some ''/srv'')
      \<lparr>got_workers = True, got_sync = True, got_slots = True, got_mutex = True, got_cond = True, got_thread = \<lambda>i. True\<rparr>
      \<lparr>ans_socket = 3, ans_fcntl = 0, ans_bind = 0, ans_listen = 0\<rparr> [])
    (\<lambda>(r, path, z, m). r = None \<and> chars m path = ''/srv'' \<and> started 1024 z \<and> worker_count (sv_pool z) = 2 \<and> sv_read z)"
  using test_main_serves [of empty_mem "''/srv''"
      "\<lparr>got_workers = True, got_sync = True, got_slots = True, got_mutex = True, got_cond = True, got_thread = \<lambda>i. True\<rparr>"
      "\<lparr>ans_socket = 3, ans_fcntl = 0, ans_bind = 0, ans_listen = 0\<rparr>" "[]"]
  by (auto simp: empty_mem_def all_work_def PATH_MAX_def returns_iff)

end
