(* ===== verification/Stringaa_Digits.thy ===== *)
theory Stringaa_Digits
  imports Prelude "HOL-Library.Word" "HOL-Library.Signed_Division" "HOL-Library.Monad_Syntax"
begin

text \<open>
  The digit operations of \<open>src/string/stringaa_math.h\<close>, one column of the written methods for products,
  sums and differences of decimal numbers, and the products of odd numbers of
  \<open>src/string/stringaa_math_factorial.h\<close>.  A \<open>char\<close> is a signed byte, the arithmetic is that of \<open>int\<close>,
  and an array of digits is a tuple.  The operations on whole strings are in theory \<open>Stringaa_Math\<close>.
\<close>

unbundle bit_operations_syntax

section \<open>Operations\<close>

text \<open>\<open>s[0]\<close> is the high digit, \<open>s[1]\<close> the low one, \<open>s[2]\<close> a term.\<close>

definition stringaa_mul_char ::
  "8 word \<times> 8 word \<times> 8 word \<Rightarrow> 8 word \<Rightarrow> 8 word \<Rightarrow> 8 word \<times> 8 word \<times> 8 word" where
  "stringaa_mul_char s c1 c2 = (case s of (s0, s1, s2) \<Rightarrow>
     let i = sint c1 * sint c2 + sint s0 + sint s2
     in (word_of_int (i sdiv 10), word_of_int (i smod 10), s2))"

definition stringaa_char_to_int :: "8 word \<Rightarrow> 8 word" where
  "stringaa_char_to_int c = c AND 0xf"

definition stringaa_int_to_char :: "8 word \<Rightarrow> 8 word" where
  "stringaa_int_to_char c = c OR 0x30"

definition stringaa_add_char :: "8 word \<times> 8 word \<Rightarrow> 8 word \<Rightarrow> 8 word \<Rightarrow> 8 word \<times> 8 word" where
  "stringaa_add_char s c1 c2 = (case s of (s0, s1) \<Rightarrow>
     let i = sint c1 + sint c2 + sint s0 in (word_of_int (i sdiv 10), word_of_int (i smod 10)))"

definition stringaa_sub_char :: "8 word \<times> 8 word \<Rightarrow> 8 word \<Rightarrow> 8 word \<Rightarrow> 8 word \<times> 8 word" where
  "stringaa_sub_char s c1 c2 = (case s of (s0, s1) \<Rightarrow>
     let c = word_of_int (sint c1 - sint c2 - sint s0) :: 8 word
     in if sint c < 0
        then (let c = word_of_int (sint c + 10) :: 8 word in (1, word_of_int (sint c + 10)))
        else (0, c))"

section \<open>Columns\<close>

definition is_digit :: "8 word \<Rightarrow> bool" where
  "is_digit c \<longleftrightarrow> 0 \<le> sint c \<and> sint c < 10"

lemma sint_small: "- 128 \<le> i \<Longrightarrow> i < 128 \<Longrightarrow> sint (word_of_int i :: 8 word) = i"
  by (simp add: signed_of_int signed_take_bit_int_eq_self)

lemma sdiv_10: "0 \<le> i \<Longrightarrow> i sdiv (10 :: int) = i div 10 \<and> i smod (10 :: int) = i mod 10"
  by (simp add: signed_divide_int_def signed_modulo_int_def sgn_if mult_div_mod_eq minus_div_mult_eq_mod)

lemma split_10:
  assumes "0 \<le> i" and "i < 100"
  shows "is_digit (word_of_int (i sdiv 10))" "is_digit (word_of_int (i smod 10))"
    "10 * sint (word_of_int (i sdiv 10) :: 8 word) + sint (word_of_int (i smod 10) :: 8 word) = i"
  using assms by (auto simp: is_digit_def sdiv_10 sint_small)

lemma digit_product: "is_digit c1 \<Longrightarrow> is_digit c2 \<Longrightarrow> 0 \<le> sint c1 * sint c2 \<and> sint c1 * sint c2 \<le> 81"
  using mult_mono [of "sint c1" 9 "sint c2" 9] by (simp add: is_digit_def)

text \<open>A column of a product, with the carry and a term, has a value below one hundred: the two results are
  digits, and they are the value.  The same holds for a column of a sum, where the carry stays at most 1.\<close>

theorem stringaa_columns:
  assumes "is_digit c1" and "is_digit c2" and "is_digit s0" and "is_digit s2"
  shows "(case stringaa_mul_char (s0, s1, s2) c1 c2 of (h, l, t) \<Rightarrow> is_digit h \<and> is_digit l \<and> t = s2
      \<and> 10 * sint h + sint l = sint c1 * sint c2 + sint s0 + sint s2)
    \<and> (case stringaa_add_char (s0, s1) c1 c2 of (h, l) \<Rightarrow> is_digit h \<and> is_digit l
      \<and> 10 * sint h + sint l = sint c1 + sint c2 + sint s0 \<and> (sint s0 \<le> 1 \<longrightarrow> sint h \<le> 1))"
proof -
  have "0 \<le> sint c1 * sint c2 + sint s0 + sint s2" "sint c1 * sint c2 + sint s0 + sint s2 < 100"
    using digit_product [OF assms(1,2)] assms(3,4) by (simp_all add: is_digit_def)
  note mul = split_10 [OF this]
  have add: "0 \<le> sint c1 + sint c2 + sint s0" "sint c1 + sint c2 + sint s0 < 100"
    using assms by (simp_all add: is_digit_def)
  note sum = split_10 [OF add]
  have "sint (word_of_int ((sint c1 + sint c2 + sint s0) sdiv 10) :: 8 word) \<le> 1" if "sint s0 \<le> 1"
    using sum(2,3) assms(1,2) that by (simp add: is_digit_def)
  with mul sum show ?thesis by (simp add: stringaa_mul_char_def stringaa_add_char_def Let_def)
qed

lemma stringaa_columns_witness:
  "(case stringaa_mul_char (9, 0, 9) 9 9 of (h, l, t) \<Rightarrow> 10 * sint h + sint l = 99)
    \<and> (case stringaa_add_char (9, 0) 9 9 of (h, l) \<Rightarrow> 10 * sint h + sint l = 27)"
  using stringaa_columns [of 9 9 9 9 0] by (auto simp: is_digit_def split: prod.splits)

text \<open>A column of a difference is right when nothing is borrowed; with a borrow, ten is added twice.\<close>

lemma stringaa_sub_char_digits:
  assumes "is_digit c1" and "is_digit c2" and "0 \<le> sint b" and "sint b \<le> 1"
  defines "d \<equiv> sint c1 - sint c2 - sint b"
  shows "stringaa_sub_char (b, s1) c1 c2 = (if d < 0 then (1, word_of_int (d + 20)) else (0, word_of_int d))"
proof -
  have "- 10 \<le> d" "d < 10" using assms(1-4) unfolding d_def is_digit_def by linarith+
  then have "sint (word_of_int d :: 8 word) = d" "d < 0 \<Longrightarrow> sint (word_of_int (d + 10) :: 8 word) = d + 10"
    using sint_small [of d] sint_small [of "d + 10"] by simp_all
  moreover have "d < 0 \<Longrightarrow> (word_of_int (d + 10 + 10) :: 8 word) = word_of_int (d + 20)" by simp
  ultimately show ?thesis
    unfolding stringaa_sub_char_def prod.case Let_def d_def [symmetric] by (simp del: of_int_add)
qed

lemma digit_cases: "is_digit c \<Longrightarrow> c \<in> {0, 1, 2, 3, 4, 5, 6, 7, 8, 9}"
proof -
  assume "is_digit c"
  then have "sint c = 0 \<or> sint c = 1 \<or> sint c = 2 \<or> sint c = 3 \<or> sint c = 4 \<or> sint c = 5 \<or> sint c = 6
      \<or> sint c = 7 \<or> sint c = 8 \<or> sint c = 9"
    unfolding is_digit_def by presburger
  then have "word_of_int (sint c) \<in> {0 :: 8 word, 1, 2, 3, 4, 5, 6, 7, 8, 9}"
    by (elim disjE) (simp_all only: of_int_0 of_int_1 of_int_numeral insert_iff simp_thms)
  then show "c \<in> {0, 1, 2, 3, 4, 5, 6, 7, 8, 9}" by simp
qed

lemma char_of_digit: "is_digit c \<Longrightarrow> stringaa_int_to_char c = word_of_int (48 + sint c)"
  using digit_cases [of c] by (auto simp: stringaa_int_to_char_def)

lemma char_digit_roundtrip: "is_digit c \<Longrightarrow> stringaa_char_to_int (stringaa_int_to_char c) = c"
  using digit_cases [of c] by (auto simp: stringaa_char_to_int_def stringaa_int_to_char_def)

section \<open>Products of odd numbers\<close>

text \<open>The two loops of \<open>src/string/stringaa_math_factorial.h\<close> on \<open>int\<close>.  A result outside the 32 bits of an
  \<open>int\<close> is undefined in C and \<^term>\<open>None\<close> here.\<close>

definition int_value :: "int \<Rightarrow> int option" where
  "int_value i = (if - (2 ^ 31) \<le> i \<and> i < 2 ^ 31 then Some i else None)"

function mul_odd_loop :: "(int \<Rightarrow> bool) \<Rightarrow> int \<Rightarrow> int \<Rightarrow> int \<Rightarrow> int option" where
  "mul_odd_loop use n i c = (if i \<le> n
     then do {
       c \<leftarrow> (if use i then int_value (c * i) else Some c);
       _ \<leftarrow> int_value (i + 2);
       mul_odd_loop use n (i + 2) c }
     else Some c)"
  by pat_completeness auto
termination by (relation "measure (\<lambda>(use, n, i, c). nat (n + 2 - i))") auto

declare mul_odd_loop.simps [simp del]

definition stringaa_mul_odd_n_int :: "int \<Rightarrow> int option" where
  "stringaa_mul_odd_n_int n = mul_odd_loop (\<lambda>i. True) n 1 1"

definition stringaa_mul_odd_n_m_int :: "int \<Rightarrow> int \<Rightarrow> int option" where
  "stringaa_mul_odd_n_m_int n m = mul_odd_loop (\<lambda>i. i \<noteq> m) n 1 1"

text \<open>A result is the product of the numbers that are used.\<close>

definition every_second :: "int \<Rightarrow> int \<Rightarrow> int set" where
  "every_second i n = {j \<in> {i..n}. even (j - i)}"

lemma every_second_step: "every_second i n = (if i \<le> n then insert i (every_second (i + 2) n) else {})"
proof -
  have "j \<in> every_second i n \<longleftrightarrow> i \<le> n \<and> (j = i \<or> j \<in> every_second (i + 2) n)" for j
    unfolding every_second_def mem_Collect_eq atLeastAtMost_iff by presburger
  then show ?thesis by (simp add: set_eq_iff)
qed

lemma every_second_new: "finite (every_second i n)" "i \<notin> every_second (i + 2) n"
  by (auto simp: every_second_def intro: finite_subset [of _ "{i..n}"])

lemma mul_odd_loop_product:
  "mul_odd_loop use n i c = Some r \<Longrightarrow> r = c * \<Prod>{j \<in> every_second i n. use j}"
proof (induction use n i c arbitrary: r rule: mul_odd_loop.induct)
  case (1 use n i c)
  show ?case
  proof (cases "i \<le> n")
    case False
    with 1(2) show ?thesis by (subst every_second_step) (simp add: mul_odd_loop.simps)
  next
    case True
    let ?c = "if use i then c * i else c"
    have "mul_odd_loop use n (i + 2) ?c = Some r" "int_value (i + 2) = Some (i + 2)"
      "(if use i then int_value (c * i) else Some c) = Some ?c"
      using 1(2) True by (auto simp: mul_odd_loop.simps [of use n i] int_value_def split: bind_splits if_splits)
    with 1(1) [OF True] have "r = ?c * \<Prod>{j \<in> every_second (i + 2) n. use j}" by blast
    moreover have "{j \<in> every_second i n. use j}
        = (if use i then insert i {j \<in> every_second (i + 2) n. use j} else {j \<in> every_second (i + 2) n. use j})"
      using True by (subst every_second_step) auto
    ultimately show ?thesis using every_second_new [of "i + 2" n] every_second_new(2) [of i n] by simp
  qed
qed

text \<open>To leave numbers out does not bring an overflow about.\<close>

lemma mul_odd_loop_fewer:
  "mul_odd_loop (\<lambda>i. True) n i c = Some r \<Longrightarrow> 1 \<le> i \<Longrightarrow> 0 < c' \<Longrightarrow> c' \<le> c \<Longrightarrow> c < 2 ^ 31 \<Longrightarrow>
    \<exists>r'. mul_odd_loop use n i c' = Some r'"
proof (induction "\<lambda>i :: int. True" n i c arbitrary: c' rule: mul_odd_loop.induct)
  case (1 n i c)
  show ?case
  proof (cases "i \<le> n")
    case False
    then show ?thesis by (simp add: mul_odd_loop.simps)
  next
    case True
    let ?c = "if use i then c' * i else c'"
    from 1(2) True have step: "int_value (c * i) = Some (c * i)" "int_value (i + 2) = Some (i + 2)"
      "mul_odd_loop (\<lambda>i. True) n (i + 2) (c * i) = Some r"
      by (auto simp: mul_odd_loop.simps [of _ n i] int_value_def split: bind_splits if_splits)
    have le: "c * i < 2 ^ 31" "c' * i \<le> c * i" "c' \<le> c' * i" "0 < c' * i"
      using step(1) 1(3-5) by (auto simp: int_value_def mult_right_mono split: if_splits)
    from step(1) le have "(if use i then int_value (c' * i) else Some c') = Some ?c"
      by (simp add: int_value_def)
    moreover have "\<exists>r'. mul_odd_loop use n (i + 2) ?c = Some r'"
      using 1(1) [OF True, of "c * i" "i + 2" ?c] step le 1(3,4) by (cases "use i") simp_all
    ultimately show ?thesis using True step(2) by (simp add: mul_odd_loop.simps [of use n i])
  qed
qed

lemma mul_odd_small: "n \<le> 20 \<Longrightarrow> \<exists>r. mul_odd_loop (\<lambda>i. True) n 1 1 = Some r"
  by (simp add: mul_odd_loop.simps int_value_def)

lemma mul_odd_large: "20 < n \<Longrightarrow> mul_odd_loop (\<lambda>i. True) n 1 1 = None"
  by (simp add: mul_odd_loop.simps int_value_def)

text \<open>C23: the products of the odd numbers up to \<open>n\<close>, and of those but \<open>m\<close>, are computed without an overflow
  up to 20; from 21 on the first one overflows.\<close>

theorem stringaa_mul_odd_bounds:
  "if n \<le> 20
   then stringaa_mul_odd_n_int n = Some (\<Prod>{i \<in> {1..n}. odd i})
     \<and> stringaa_mul_odd_n_m_int n m = Some (\<Prod>{i \<in> {1..n}. odd i \<and> i \<noteq> m})
   else stringaa_mul_odd_n_int n = None"
proof (cases "n \<le> 20")
  case True
  have "every_second 1 n = {i \<in> {1..n}. odd i}" by (auto simp: every_second_def)
  then have m: "{j \<in> every_second 1 n. j \<noteq> m} = {i \<in> {1..n}. odd i \<and> i \<noteq> m}"
      "{j \<in> every_second 1 n. True} = {i \<in> {1..n}. odd i}" by auto
  from mul_odd_small [OF True] obtain r where r: "mul_odd_loop (\<lambda>i. True) n 1 1 = Some r" by blast
  then obtain r' where "mul_odd_loop (\<lambda>i. i \<noteq> m) n 1 1 = Some r'"
    using mul_odd_loop_fewer [of n 1 1 r 1 "\<lambda>i. i \<noteq> m"] by auto
  with True r mul_odd_loop_product [OF r] show ?thesis
    using mul_odd_loop_product [of "\<lambda>i. i \<noteq> m" n 1 1 r']
    unfolding stringaa_mul_odd_n_int_def stringaa_mul_odd_n_m_int_def m by simp
qed (simp add: stringaa_mul_odd_n_int_def mul_odd_large)

end
