(* ===== verification/Stringaa_Math.thy ===== *)
theory Stringaa_Math
  imports Stringaa_Digits Reader
begin

text \<open>
  The arithmetic on decimal numbers of any length of \<open>src/string/stringaa_math.h\<close>, and its use in
  \<open>src/string/stringaa_math_factorial.h\<close>.  These functions are written for a string library that is not in the
  repository: \<open>stringaa.h\<close> has no \<open>stringaa_begin_pos\<close>, \<open>stringaa_next_pos\<close> or \<open>stringaa_set_size\<close>, and its
  struct has no \<open>buf_pos\<close> and no \<open>is_int\<close>.  What they call and the fields they read are therefore a
  parameter, the record \<open>number_ops\<close> over any type of numbers; the operands of a call do not share a buffer.
  \<^const>\<open>None\<close> is a fault of one of these operations or a loop that never ends.
\<close>

section \<open>The string library as a parameter\<close>

record 'n number_ops =
  op_begin_pos :: "'n \<Rightarrow> 'n"
  op_end_pos :: "'n \<Rightarrow> 'n"
  op_next_pos :: "'n \<Rightarrow> bool \<times> 'n"
  op_prev_pos :: "'n \<Rightarrow> bool \<times> 'n"
  op_get_char :: "'n \<Rightarrow> 8 word option"
  op_set_char :: "8 word \<Rightarrow> 'n \<Rightarrow> 'n option"
  op_set_size :: "nat \<Rightarrow> 'n \<Rightarrow> 'n option"
  op_malloc_copy :: "'n \<Rightarrow> bool \<times> 'n"
  op_buf_size :: "'n \<Rightarrow> nat"
  op_buf_pos :: "'n \<Rightarrow> nat"
  op_set_buf_pos :: "nat \<Rightarrow> 'n \<Rightarrow> 'n"
  op_is_int :: "'n \<Rightarrow> bool"
  op_is_alloc :: "'n \<Rightarrow> bool"
  op_set_byte :: "nat \<Rightarrow> 8 word \<Rightarrow> 'n \<Rightarrow> 'n option"
  op_set_zero :: "'n \<Rightarrow> 'n option"
  op_set_init :: "'n \<Rightarrow> 'n"

text \<open>\<open>op_set_byte i c s\<close> is \<open>s->buf[i] = c\<close>, \<open>op_set_zero s\<close> is \<open>memset(s->buf, 0, s->buf_size)\<close>, and
  \<open>op_set_init\<close> sets \<open>is_init\<close>.  A difference of two sizes is one of \<open>size_t\<close>.\<close>

definition size_diff :: "nat \<Rightarrow> nat \<Rightarrow> nat" where
  "size_diff a b = nat ((int a - int b) mod 2 ^ 64)"

lemma size_diff_small [simp]: "b \<le> a \<Longrightarrow> a < 2 ^ 64 \<Longrightarrow> size_diff a b = a - b"
  by (simp add: size_diff_def of_nat_diff [symmetric] del: of_nat_diff)

section \<open>Conversion\<close>

text \<open>The loop of both conversions, over all characters.\<close>

partial_function (option) convert_chars :: "'n number_ops \<Rightarrow> (8 word \<Rightarrow> 8 word) \<Rightarrow> 'n \<Rightarrow> 'n option" where
  "convert_chars ops f s = do {
     c \<leftarrow> op_get_char ops s;
     s \<leftarrow> op_set_char ops (f c) s;
     let (go, s) = op_next_pos ops s;
     if go then convert_chars ops f s else Some s }"

definition stringaa_chars_to_int :: "'n number_ops \<Rightarrow> 'n \<Rightarrow> (bool \<times> 'n) option" where
  "stringaa_chars_to_int ops s = (let (ok, s) = (if op_is_alloc ops s then (True, s) else op_malloc_copy ops s) in
     if ok then do {
       s \<leftarrow> convert_chars ops (\<lambda>c. c AND 0xf) (op_begin_pos ops s);
       Some (True, s) }
     else Some (False, s))"

definition stringaa_int_to_chars :: "'n number_ops \<Rightarrow> 'n \<Rightarrow> (bool \<times> 'n) option" where
  "stringaa_int_to_chars ops s = (let (ok, s) = (if op_is_alloc ops s then (True, s) else op_malloc_copy ops s) in
     if ok then do {
       s \<leftarrow> convert_chars ops (\<lambda>c. c OR 0x30) (op_begin_pos ops s);
       Some (True, s) }
     else Some (False, s))"

text \<open>What every operation does first with an operand; the result of the conversion is not tested.\<close>

definition as_int :: "'n number_ops \<Rightarrow> 'n \<Rightarrow> 'n option" where
  "as_int ops s = (if op_is_int ops s then Some s
     else do { (_, s) \<leftarrow> stringaa_chars_to_int ops s; Some s })"

text \<open>\<open>while (stringaa_get_char(s) == 0) { if (!stringaa_next_pos(s)) break; }\<close>\<close>

partial_function (option) skip_zeros :: "'n number_ops \<Rightarrow> 'n \<Rightarrow> 'n option" where
  "skip_zeros ops s = do {
     c \<leftarrow> op_get_char ops s;
     if c = 0 then (let (go, s) = op_next_pos ops s in if go then skip_zeros ops s else Some s)
     else Some s }"

section \<open>Product\<close>

text \<open>A row of the product: the digit \<open>c\<close> times \<open>s1\<close>, added to \<open>s\<close> from its position on.\<close>

partial_function (option) mul_row :: "'n number_ops \<Rightarrow> 8 word \<Rightarrow> 8 word \<times> 8 word \<times> 8 word \<Rightarrow> 'n \<Rightarrow> 'n \<Rightarrow>
    ((8 word \<times> 8 word \<times> 8 word) \<times> 'n \<times> 'n) option" where
  "mul_row ops c c2 s s1 = do {
     t \<leftarrow> op_get_char ops s;
     d \<leftarrow> op_get_char ops s1;
     let c2 = stringaa_mul_char (fst c2, fst (snd c2), t) d c;
     s \<leftarrow> op_set_char ops (fst (snd c2)) s;
     let (go, s) = op_prev_pos ops s;
     if \<not> go then Some (c2, s, s1)
     else let (go, s1) = op_prev_pos ops s1 in
       if \<not> go \<and> fst c2 = 0 then Some (c2, s, s1) else mul_row ops c c2 s s1 }"

partial_function (option) mul_rows :: "'n number_ops \<Rightarrow> 8 word \<times> 8 word \<times> 8 word \<Rightarrow> 'n \<Rightarrow> 'n \<Rightarrow> 'n \<Rightarrow>
    ('n \<times> 'n \<times> 'n) option" where
  "mul_rows ops c2 s s1 s2 = do {
     let p = op_buf_pos ops s;
     c \<leftarrow> op_get_char ops s2;
     (c2, s, s1) \<leftarrow> mul_row ops c c2 s s1;
     let (go, s2) = op_prev_pos ops s2;
     if \<not> go then Some (s, s1, s2)
     else mul_rows ops c2 (snd (op_prev_pos ops (op_set_buf_pos ops p s))) (op_end_pos ops s1) s2 }"

definition stringaa_mul :: "'n number_ops \<Rightarrow> 'n \<Rightarrow> 'n \<Rightarrow> 'n \<Rightarrow> (int \<times> 'n \<times> 'n \<times> 'n) option" where
  "stringaa_mul ops s s1 s2 = do {
     s1 \<leftarrow> as_int ops s1;
     s2 \<leftarrow> as_int ops s2;
     s1 \<leftarrow> skip_zeros ops (op_begin_pos ops s1);
     s2 \<leftarrow> skip_zeros ops (op_begin_pos ops s2);
     let n1 = size_diff (op_buf_size ops s1) (op_buf_pos ops s1);
     let n2 = size_diff (op_buf_size ops s2) (op_buf_pos ops s2);
     s \<leftarrow> op_set_size ops (n1 + n2 + 1) s;
     s \<leftarrow> op_set_zero ops s;
     (s, s1, s2) \<leftarrow> mul_rows ops (0, 0, 0) (op_end_pos ops s) (op_end_pos ops s1) (op_end_pos ops s2);
     Some (1, op_set_init ops s, s1, s2) }"

section \<open>Sum\<close>

text \<open>The loop of \<open>stringaa_add\<close>: the columns go into \<open>s\<close>, and the two operands are left where they are when
  they have no more digits.\<close>

partial_function (option) add_columns :: "'n number_ops \<Rightarrow> 8 word \<times> 8 word \<Rightarrow> 'n \<Rightarrow> 'n \<Rightarrow> 'n \<Rightarrow>
    ('n \<times> 'n \<times> 'n) option" where
  "add_columns ops c2 s s1 s2 = do {
     d1 \<leftarrow> op_get_char ops s1;
     d2 \<leftarrow> op_get_char ops s2;
     let c2 = stringaa_add_char c2 d1 d2;
     s \<leftarrow> op_set_char ops (snd c2) s;
     let (go, s) = op_prev_pos ops s;
     if \<not> go then Some (s, s1, s2)
     else add_columns ops c2 s (snd (op_prev_pos ops s1)) (snd (op_prev_pos ops s2)) }"

definition stringaa_add_numbers :: "'n number_ops \<Rightarrow> 'n \<Rightarrow> 'n \<Rightarrow> 'n \<Rightarrow> (int \<times> 'n \<times> 'n \<times> 'n) option" where
  "stringaa_add_numbers ops s s1 s2 = do {
     s1 \<leftarrow> as_int ops s1;
     s2 \<leftarrow> as_int ops s2;
     s \<leftarrow> op_set_size ops ((if op_buf_size ops s1 > op_buf_size ops s2 then op_buf_size ops s1
       else op_buf_size ops s2) + 2) s;
     s \<leftarrow> op_set_byte ops (size_diff (op_buf_size ops s) 1) 0 s;
     (s, s1, s2) \<leftarrow> add_columns ops (0, 0) (op_end_pos ops s) (op_end_pos ops s1) (op_end_pos ops s2);
     Some (1, op_set_init ops s, s1, s2) }"

text \<open>The loop of \<open>stringaa_add_to\<close>, and of \<open>stringaa_sub\<close>: the columns go into \<open>s1\<close>.\<close>

partial_function (option) add_columns_to :: "'n number_ops \<Rightarrow> 8 word \<times> 8 word \<Rightarrow> 'n \<Rightarrow> 'n \<Rightarrow> ('n \<times> 'n) option" where
  "add_columns_to ops c2 s1 s2 = do {
     d1 \<leftarrow> op_get_char ops s1;
     d2 \<leftarrow> op_get_char ops s2;
     let c2 = stringaa_add_char c2 d1 d2;
     s1 \<leftarrow> op_set_char ops (snd c2) s1;
     let (go, s1) = op_prev_pos ops s1;
     if \<not> go then Some (s1, s2)
     else add_columns_to ops c2 s1 (snd (op_prev_pos ops s2)) }"

text \<open>\<open>stringaa_set_size\<close> of the larger size and two, on \<open>s1\<close>, with a zero at the end.\<close>

definition enlarge :: "'n number_ops \<Rightarrow> 'n \<Rightarrow> 'n \<Rightarrow> 'n option" where
  "enlarge ops s1 s2 = do {
     s1 \<leftarrow> op_set_size ops ((if op_buf_size ops s1 > op_buf_size ops s2 then op_buf_size ops s1
       else op_buf_size ops s2) + 2) s1;
     op_set_byte ops (size_diff (op_buf_size ops s1) 1) 0 s1 }"

definition stringaa_add_to :: "'n number_ops \<Rightarrow> 'n \<Rightarrow> 'n \<Rightarrow> (int \<times> 'n \<times> 'n) option" where
  "stringaa_add_to ops s1 s2 = do {
     s1 \<leftarrow> as_int ops s1;
     s2 \<leftarrow> as_int ops s2;
     s1 \<leftarrow> skip_zeros ops (op_begin_pos ops s1);
     s2 \<leftarrow> skip_zeros ops (op_begin_pos ops s2);
     let n1 = size_diff (op_buf_size ops s1) (op_buf_pos ops s1);
     let n2 = size_diff (op_buf_size ops s2) (op_buf_pos ops s2);
     s1 \<leftarrow> (if op_buf_size ops s1 < (if n1 > n2 then n1 else n2) + 1 then enlarge ops s1 s2 else Some s1);
     (s1, s2) \<leftarrow> add_columns_to ops (0, 0) (op_end_pos ops s1) (op_end_pos ops s2);
     Some (1, op_set_init ops s1, s2) }"

section \<open>Difference\<close>

text \<open>The loop of \<open>stringaa_sub\<close> is that of \<open>stringaa_add_to\<close>, with \<open>stringaa_add_char\<close>.\<close>

definition stringaa_sub :: "'n number_ops \<Rightarrow> 'n \<Rightarrow> 'n \<Rightarrow> (int \<times> 'n \<times> 'n) option" where
  "stringaa_sub ops s1 s2 = do {
     s1 \<leftarrow> as_int ops s1;
     s2 \<leftarrow> as_int ops s2;
     let s1 = op_begin_pos ops s1;
     let s2 = op_begin_pos ops s2;
     d1 \<leftarrow> op_get_char ops s1;
     d2 \<leftarrow> (if d1 \<noteq> 0 then Some 0 else op_get_char ops s2);
     s1 \<leftarrow> (if d1 \<noteq> 0 \<or> d2 \<noteq> 0 then enlarge ops s1 s2 else Some s1);
     (s1, s2) \<leftarrow> add_columns_to ops (0, 0) (op_end_pos ops s1) (op_end_pos ops s2);
     Some (1, op_set_init ops s1, s2) }"

section \<open>Comparison\<close>

partial_function (option) compare_chars :: "'n number_ops \<Rightarrow> 'n \<Rightarrow> 'n \<Rightarrow> (int \<times> 'n \<times> 'n) option" where
  "compare_chars ops s1 s2 = do {
     d1 \<leftarrow> op_get_char ops s1;
     d2 \<leftarrow> op_get_char ops s2;
     let i = sint d1 - sint d2;
     if i < 0 then Some (- 1, s1, s2)
     else if i > 0 then Some (1, s1, s2)
     else let (go, s1) = op_next_pos ops s1 in
       if \<not> go then Some (0, s1, s2)
       else let (go, s2) = op_next_pos ops s2 in
         if \<not> go then Some (0, s1, s2) else compare_chars ops s1 s2 }"

definition stringaa_compare :: "'n number_ops \<Rightarrow> 'n \<Rightarrow> 'n \<Rightarrow> (int \<times> 'n \<times> 'n) option" where
  "stringaa_compare ops s1 s2 = do {
     s1 \<leftarrow> skip_zeros ops (op_begin_pos ops s1);
     s2 \<leftarrow> skip_zeros ops (op_begin_pos ops s2);
     let n1 = size_diff (op_buf_size ops s1) (op_buf_pos ops s1);
     let n2 = size_diff (op_buf_size ops s2) (op_buf_pos ops s2);
     if n1 < n2 then Some (- 1, s1, s2)
     else if n1 > n2 then Some (1, s1, s2)
     else compare_chars ops s1 s2 }"

section \<open>Products of odd numbers\<close>

text \<open>
  The functions of \<open>stringaa_math_factorial.h\<close> on strings also copy, set and print strings and call
  \<open>stringaa_add\<close> with two arguments, which the one of \<open>stringaa_math.h\<close> does not have: four more parameters, and
  \<open>op_blank\<close> for a zeroed struct.  The second function prints its steps.
\<close>

record 'n factorial_ops =
  op_numbers :: "'n number_ops"
  op_blank :: 'n
  op_set_string :: "string \<Rightarrow> 'n \<Rightarrow> 'n option"
  op_add :: "'n \<Rightarrow> 'n \<Rightarrow> 'n option"
  op_copy :: "'n \<Rightarrow> 'n \<Rightarrow> 'n option"
  op_print :: "'n \<Rightarrow> string option"

partial_function (option) mul_odd_n_steps :: "'n factorial_ops \<Rightarrow> 'n \<Rightarrow> 'n \<Rightarrow> 'n \<Rightarrow> 'n \<Rightarrow> 'n \<Rightarrow> 'n option" where
  "mul_odd_n_steps f c c1 i i_inc n = do {
     (r, i, n) \<leftarrow> stringaa_compare (op_numbers f) i n;
     if r \<le> 0 then do {
       i \<leftarrow> op_add f i i_inc;
       (_, c1, c, i) \<leftarrow> stringaa_mul (op_numbers f) c1 c i;
       c \<leftarrow> op_copy f c c1;
       mul_odd_n_steps f c c1 i i_inc n }
     else Some n }"

definition stringaa_mul_odd_n :: "'n factorial_ops \<Rightarrow> 'n \<Rightarrow> 'n \<Rightarrow> (int \<times> 'n \<times> 'n) option" where
  "stringaa_mul_odd_n f s n = do {
     i \<leftarrow> op_set_string f ''1'' (op_blank f);
     i_inc \<leftarrow> op_set_string f ''2'' (op_blank f);
     n \<leftarrow> mul_odd_n_steps f (op_blank f) (op_blank f) i i_inc n;
     Some (1, s, n) }"

partial_function (option) mul_odd_n_m_steps :: "'n factorial_ops \<Rightarrow> 'n \<Rightarrow> 'n \<Rightarrow> 'n \<Rightarrow> 'n \<Rightarrow> 'n \<Rightarrow> 'n \<Rightarrow> string \<Rightarrow>
    (string \<times> 'n \<times> 'n) option" where
  "mul_odd_n_m_steps f c c1 i i_inc n m out = do {
     (r, i, n) \<leftarrow> stringaa_compare (op_numbers f) i n;
     if r \<le> 0 then do {
       i \<leftarrow> op_add f i i_inc;
       pi \<leftarrow> op_print f i;
       pinc \<leftarrow> op_print f i_inc;
       let out = out @ ''i = '' @ pi @ [LF] @ ''i_inc = '' @ pinc @ [LF];
       (r, i, m) \<leftarrow> stringaa_compare (op_numbers f) i m;
       if r \<noteq> 0 then do {
         (_, c1, c, i) \<leftarrow> stringaa_mul (op_numbers f) c1 c i;
         pc \<leftarrow> op_print f c;
         pc1 \<leftarrow> op_print f c1;
         c \<leftarrow> op_copy f c c1;
         pcopy \<leftarrow> op_print f c;
         mul_odd_n_m_steps f c c1 i i_inc n m
           (out @ ''c = '' @ pc @ [LF] @ ''c1 = '' @ pc1 @ [LF] @ ''copy c = '' @ pcopy @ [LF]) }
       else mul_odd_n_m_steps f c c1 i i_inc n m out }
     else Some (out, n, m) }"

definition stringaa_mul_odd_n_m_string :: "'n factorial_ops \<Rightarrow> 'n \<Rightarrow> 'n \<Rightarrow> 'n \<Rightarrow>
    (int \<times> string \<times> 'n \<times> 'n \<times> 'n) option" where
  "stringaa_mul_odd_n_m_string f s n m = do {
     i \<leftarrow> op_set_string f ''1'' (op_blank f);
     i_inc \<leftarrow> op_set_string f ''2'' (op_blank f);
     c \<leftarrow> op_set_string f ''1'' (op_blank f);
     (out, n, m) \<leftarrow> mul_odd_n_m_steps f c (op_blank f) i i_inc n m [];
     Some (1, out, s, n, m) }"

lemmas [code] = convert_chars.simps skip_zeros.simps mul_row.simps mul_rows.simps add_columns.simps
  add_columns_to.simps compare_chars.simps mul_odd_n_steps.simps mul_odd_n_m_steps.simps

end
