(* ===== verification/Stringaa_Math_Proofs.thy ===== *)
theory Stringaa_Math_Proofs
  imports Stringaa_Math
begin

text \<open>
  What the operations on long numbers compute.  The locale \<open>number_reader\<close> states what the comparison needs of
  the string library, and is interpreted on the read positions of \<open>stringaa.h\<close>.  The operations that write at
  the position have no counterpart there; what they need is the predicate \<open>number_cursor\<close>, the laws that the
  comments of \<open>stringaa.h\<close> give for the functions that move the read position.
\<close>

section \<open>Values\<close>

text \<open>The first digit is the highest.\<close>

fun number_value :: "8 word list \<Rightarrow> int" where
  "number_value [] = 0"
| "number_value (d # ds) = sint d * 10 ^ length ds + number_value ds"

abbreviation digit_list :: "8 word list \<Rightarrow> bool" where
  "digit_list ds \<equiv> list_all is_digit ds"

lemma number_value_bounds: "digit_list ds \<Longrightarrow> 0 \<le> number_value ds \<and> number_value ds < 10 ^ length ds"
proof (induction ds)
  case (Cons d ds)
  then have "0 \<le> sint d" "sint d \<le> 9" by (simp_all add: is_digit_def)
  then have "0 \<le> sint d * 10 ^ length ds" by simp
  moreover have "sint d * 10 ^ length ds \<le> 9 * 10 ^ length ds"
    using \<open>sint d \<le> 9\<close> by (intro mult_right_mono) simp_all
  moreover have "0 \<le> number_value ds" "number_value ds < 10 ^ length ds" using Cons by simp_all
  ultimately show ?case unfolding number_value.simps list.size(4) add_Suc_right add_0_right power_Suc
    by linarith
qed simp

lemma number_value_append: "number_value (xs @ ys) = number_value xs * 10 ^ length ys + number_value ys"
  by (induction xs) (simp_all add: algebra_simps power_add)

lemma number_value_zeros: "number_value (dropWhile ((=) 0) ds) = number_value ds"
  by (induction ds) simp_all

lemma number_value_first:
  assumes "digit_list (d # ds)" and "d \<noteq> 0"
  shows "10 ^ length ds \<le> number_value (d # ds)"
proof -
  have "sint d \<noteq> 0" using assms(2) by (simp add: signed_eq_0_iff)
  then have "1 \<le> sint d" using assms(1) by (simp add: is_digit_def)
  then have "1 * 10 ^ length ds \<le> sint d * 10 ^ length ds" by (intro mult_right_mono) simp_all
  moreover have "0 \<le> number_value ds" using number_value_bounds [of ds] assms(1) by simp
  ultimately show ?thesis unfolding number_value.simps by linarith
qed

text \<open>Without leading zeros the longer number is the greater one.\<close>

lemma number_value_shorter:
  assumes "digit_list xs" and "digit_list ys" and "length xs < length ys" and "hd ys \<noteq> 0"
  shows "number_value xs < number_value ys"
proof -
  obtain y zs where y: "ys = y # zs" using assms(3) by (cases ys) auto
  have "number_value xs < 10 ^ length xs" using number_value_bounds [OF assms(1)] by simp
  also have "(10 :: int) ^ length xs \<le> 10 ^ length zs" using assms(3) y by (intro power_increasing) simp_all
  also have "\<dots> \<le> number_value ys" using number_value_first [of y zs] assms(2,4) y by simp
  finally show ?thesis .
qed

text \<open>Numbers of one length compare as their first digits that differ.\<close>

lemma number_value_cons_less:
  assumes "digit_list xs" and "digit_list ys" and "length xs = length ys" and "sint x < sint y"
  shows "number_value (x # xs) < number_value (y # ys)"
proof -
  have "(sint x + 1) * 10 ^ length xs \<le> sint y * 10 ^ length xs"
    using assms(4) by (intro mult_right_mono) simp_all
  then show ?thesis
    using number_value_bounds [OF assms(1)] number_value_bounds [OF assms(2)] assms(3)
    by (simp add: algebra_simps)
qed

section \<open>Comparison\<close>

text \<open>
  What a number is to its reader: digits and a position.  A move behind the last digit fails, and leaves the
  position at the end, where a zero is read.
\<close>

locale number_reader =
  fixes ops :: "'n number_ops" and ds :: "'n \<Rightarrow> 8 word list" and slack :: "'n \<Rightarrow> nat" and ok :: "'n \<Rightarrow> bool"
  assumes pos_le: "ok s \<Longrightarrow> op_buf_pos ops s \<le> length (ds s)"
    and buf_size: "ok s \<Longrightarrow> op_buf_size ops s = length (ds s) + slack s"
    and begin_pos: "ok s \<Longrightarrow> ok (op_begin_pos ops s) \<and> ds (op_begin_pos ops s) = ds s
      \<and> slack (op_begin_pos ops s) = slack s \<and> op_buf_pos ops (op_begin_pos ops s) = 0"
    and next_pos: "ok s \<Longrightarrow> op_next_pos ops s = (go, t) \<Longrightarrow> ok t \<and> ds t = ds s \<and> slack t = slack s
      \<and> go = (Suc (op_buf_pos ops s) < length (ds s))
      \<and> op_buf_pos ops t = min (Suc (op_buf_pos ops s)) (length (ds s))"
    and get_char: "ok s \<Longrightarrow> op_get_char ops s = Some (if op_buf_pos ops s < length (ds s)
      then ds s ! op_buf_pos ops s else 0)"
begin

definition rest :: "'n \<Rightarrow> 8 word list" where
  "rest s = drop (op_buf_pos ops s) (ds s)"

definition same :: "'n \<Rightarrow> 'n \<Rightarrow> bool" where
  "same s t \<longleftrightarrow> ok t \<and> ds t = ds s \<and> slack t = slack s"

lemma get_char_rest: "ok s \<Longrightarrow> op_get_char ops s = Some (case rest s of [] \<Rightarrow> 0 | d # _ \<Rightarrow> d)"
  by (auto simp: get_char rest_def Cons_nth_drop_Suc [symmetric])

lemma next_pos_rest:
  assumes "ok s" and "op_next_pos ops s = (go, t)"
  shows "same s t" "rest t = tl (rest s)" "go = (tl (rest s) \<noteq> [])"
  using next_pos [OF assms] pos_le [OF assms(1)]
  by (auto simp: same_def rest_def drop_Suc [symmetric] tl_drop min_def le_antisym)

lemma size_rest:
  assumes "ok s" and "length (ds s) + slack s < 2 ^ 64"
  shows "size_diff (op_buf_size ops s) (op_buf_pos ops s) = length (rest s) + slack s"
  using assms(2) buf_size [OF assms(1)] pos_le [OF assms(1)] by (simp add: rest_def)

lemma skip_zeros_rest:
  "ok s \<Longrightarrow> \<exists>t. skip_zeros ops s = Some t \<and> same s t \<and> rest t = dropWhile ((=) 0) (rest s)"
proof (induction "rest s" arbitrary: s)
  case Nil
  obtain go t where n: "op_next_pos ops s = (go, t)" by fastforce
  from next_pos_rest [OF Nil(2) n] Nil get_char_rest [OF Nil(2)] n show ?case
    by (auto simp: skip_zeros.simps [of ops s])
next
  case (Cons d rs)
  note get = get_char_rest [OF Cons(3), folded Cons(2), simplified]
  show ?case
  proof (cases "d = 0")
    case False
    with get Cons(2,3) show ?thesis by (simp add: skip_zeros.simps [of ops s] same_def flip: Cons(2))
  next
    case True
    obtain go t where n: "op_next_pos ops s = (go, t)" by fastforce
    note t = next_pos_rest [OF Cons(3) n, folded Cons(2), simplified]
    have "ok t" using t(1) by (simp add: same_def)
    with Cons(1) [of t] t obtain u where "skip_zeros ops t = Some u" "same t u"
        "rest u = dropWhile ((=) 0) rs" by auto
    with True get n t show ?thesis
      by (auto simp: skip_zeros.simps [of ops s] same_def simp flip: Cons(2))
  qed
qed

lemma compare_chars_rest:
  "ok s1 \<Longrightarrow> ok s2 \<Longrightarrow> length (rest s1) = length (rest s2) \<Longrightarrow> digit_list (rest s1) \<Longrightarrow> digit_list (rest s2) \<Longrightarrow>
   \<exists>t1 t2. compare_chars ops s1 s2 = Some (sgn (number_value (rest s1) - number_value (rest s2)), t1, t2)
     \<and> same s1 t1 \<and> same s2 t2"
proof (induction "rest s1" arbitrary: s1 s2)
  case Nil
  then have "rest s2 = []" by (metis length_0_conv)
  moreover obtain go t where n: "op_next_pos ops s1 = (go, t)" by fastforce
  ultimately show ?case
    using Nil get_char_rest [OF Nil(2)] get_char_rest [OF Nil(3)] next_pos_rest [OF Nil(2) n] n
    by (auto simp: compare_chars.simps [of ops s1 s2] same_def)
next
  case (Cons x xs)
  then obtain y ys where ys: "rest s2 = y # ys" by (cases "rest s2") auto
  note xs = Cons(2) [symmetric]
  have len: "length xs = length ys" and dig: "digit_list xs" "digit_list ys"
    using Cons(5-7) xs ys by simp_all
  note get = get_char_rest [OF Cons(3)] get_char_rest [OF Cons(4)]
  note unf = compare_chars.simps [of ops s1 s2]
  obtain go1 t1 where n1: "op_next_pos ops s1 = (go1, t1)" by fastforce
  obtain go2 t2 where n2: "op_next_pos ops s2 = (go2, t2)" by fastforce
  note t1 = next_pos_rest [OF Cons(3) n1, unfolded xs list.sel]
  note t2 = next_pos_rest [OF Cons(4) n2, unfolded ys list.sel]
  consider (lt) "sint x < sint y" | (gt) "sint y < sint x" | (eq) "sint x = sint y" by linarith
  then show ?case
  proof cases
    case lt
    with number_value_cons_less [OF dig len lt] get Cons(3,4) show ?thesis
      unfolding unf xs ys by (simp add: same_def)
  next
    case gt
    with number_value_cons_less [OF dig(2,1) len [symmetric] gt] get Cons(3,4) show ?thesis
      unfolding unf xs ys by (simp add: same_def)
  next
    case eq
    have "ok t1" "ok t2" using t1 t2 by (simp_all add: same_def)
    with Cons(1) [of t1 t2] t1 t2 len dig
    obtain u1 u2 where u: "compare_chars ops t1 t2 = Some (sgn (number_value xs - number_value ys), u1, u2)"
        "same t1 u1" "same t2 u2" by auto
    show ?thesis
    proof (cases "xs = []")
      case True
      with eq get n1 t1 len Cons(4) show ?thesis unfolding unf xs ys by (auto simp: same_def)
    next
      case False
      then have "go1" "go2" using t1 t2 len by auto
      with eq get n1 n2 u t1 t2 len show ?thesis unfolding unf xs ys by (auto simp: same_def)
    qed
  qed
qed

lemma rest_begin: "ok s \<Longrightarrow> rest (op_begin_pos ops s) = ds s \<and> same s (op_begin_pos ops s)"
  using begin_pos [of s] by (simp add: rest_def same_def)

lemma compare_correct:
  assumes "ok s1" and "ok s2" and "slack s1 = slack s2" and "digit_list (ds s1)" and "digit_list (ds s2)"
    and "length (ds s1) + slack s1 < 2 ^ 64" and "length (ds s2) + slack s2 < 2 ^ 64"
  shows "\<exists>t1 t2. stringaa_compare ops s1 s2 = Some (sgn (number_value (ds s1) - number_value (ds s2)), t1, t2)
    \<and> same s1 t1 \<and> same s2 t2"
proof -
  let ?r1 = "dropWhile ((=) 0) (ds s1)" and ?r2 = "dropWhile ((=) 0) (ds s2)"
  obtain t1 where t1: "skip_zeros ops (op_begin_pos ops s1) = Some t1" "same s1 t1" "rest t1 = ?r1"
    using skip_zeros_rest [of "op_begin_pos ops s1"] rest_begin [OF assms(1)] by (auto simp: same_def)
  obtain t2 where t2: "skip_zeros ops (op_begin_pos ops s2) = Some t2" "same s2 t2" "rest t2 = ?r2"
    using skip_zeros_rest [of "op_begin_pos ops s2"] rest_begin [OF assms(2)] by (auto simp: same_def)
  have ok: "ok t1" "ok t2" using t1 t2 by (simp_all add: same_def)
  have size: "size_diff (op_buf_size ops t1) (op_buf_pos ops t1) = length ?r1 + slack s1"
      "size_diff (op_buf_size ops t2) (op_buf_pos ops t2) = length ?r2 + slack s1"
    using size_rest [OF ok(1)] size_rest [OF ok(2)] t1 t2 assms(3,6,7) by (simp_all add: same_def)
  have dig: "digit_list ?r1" "digit_list ?r2"
    using assms(4,5) by (auto simp: list_all_iff dest: set_dropWhileD)
  have hd: "r \<noteq> [] \<Longrightarrow> hd r \<noteq> 0" if "r = dropWhile ((=) 0) xs" for r xs :: "8 word list"
    using hd_dropWhile [of "(=) 0" xs] that by auto
  have val: "number_value (ds s1) = number_value ?r1" "number_value (ds s2) = number_value ?r2"
    by (simp_all add: number_value_zeros)
  consider (lt) "length ?r1 < length ?r2" | (gt) "length ?r2 < length ?r1" | (eq) "length ?r1 = length ?r2"
    by linarith
  then show ?thesis
  proof cases
    case lt
    then have "number_value ?r1 < number_value ?r2"
      using number_value_shorter [OF dig lt] hd [OF refl, of "ds s2"] by fastforce
    with lt t1 t2 size show ?thesis unfolding stringaa_compare_def val by simp
  next
    case gt
    then have "number_value ?r2 < number_value ?r1"
      using number_value_shorter [OF dig(2,1) gt] hd [OF refl, of "ds s1"] by fastforce
    with gt t1 t2 size show ?thesis unfolding stringaa_compare_def val by simp
  next
    case eq
    from compare_chars_rest [OF ok] eq dig t1 t2 size show ?thesis
      unfolding stringaa_compare_def val by (auto simp: same_def)
  qed
qed

end

text \<open>
  The functions that \<open>stringaa.h\<close> has: the position is the read position, and \<open>is_binary\<close> is what \<open>is_int\<close> was.
  Nothing in it writes at the read position or sets a size, so that those operations fault.
\<close>

definition char_word :: "char \<Rightarrow> 8 word" where
  "char_word c = of_char c"

definition read_ops :: "mem \<Rightarrow> stringaa number_ops" where
  "read_ops m = \<lparr>op_begin_pos = (\<lambda>s. snd (stringaa_begin_read_pos s)), op_end_pos = (\<lambda>s. snd (stringaa_end_read_pos s)),
     op_next_pos = stringaa_next_read_pos, op_prev_pos = stringaa_prev_read_pos,
     op_get_char = (\<lambda>s. map_option char_word (stringaa_get_char m s)), op_set_char = (\<lambda>c s. None),
     op_set_size = (\<lambda>n s. None), op_malloc_copy = (\<lambda>s. (False, s)), op_buf_size = buf_size, op_buf_pos = read_pos,
     op_set_buf_pos = (\<lambda>p s. s\<lparr>read_pos := p\<rparr>), op_is_int = is_binary, op_is_alloc = is_alloc,
     op_set_byte = (\<lambda>i c s. None), op_set_zero = (\<lambda>s. None), op_set_init = (\<lambda>s. s\<lparr>is_init := True\<rparr>)\<rparr>"

abbreviation digits_of :: "mem \<Rightarrow> stringaa \<Rightarrow> 8 word list" where
  "digits_of m s \<equiv> map char_word (chars m s)"

lemma char_word_NUL [simp]: "char_word NUL = 0"
  by (simp add: char_word_def)

interpretation sr: number_reader "read_ops m" "digits_of m" "\<lambda>s. buf_size s - write_pos s"
    "\<lambda>s. cursor m s \<and> write_pos s \<le> buf_size s" for m
  by unfold_locales
    (auto simp: read_ops_def cursor_def stringaa_begin_read_pos_def stringaa_next_read_pos_def peek_def split: if_splits)

text \<open>C22: with the read positions of \<open>stringaa.h\<close>, the comparison of two strings of digits, both null-terminated
  or both not, returns the sign of the difference of the numbers they are: leading zeros do not count.\<close>

theorem stringaa_compare_sign:
  assumes "readable m s1" and "readable m s2" and "digit_list (digits_of m s1)" and "digit_list (digits_of m s2)"
    and "buf_size s1 = write_pos s1 + k" and "buf_size s2 = write_pos s2 + k"
    and "buf_size s1 < 2 ^ 64" and "buf_size s2 < 2 ^ 64"
  shows "returns (stringaa_compare (read_ops m) s1 s2)
    (\<lambda>(r, t1, t2). r = sgn (number_value (digits_of m s1) - number_value (digits_of m s2)))"
proof -
  let ?s1 = "s1\<lparr>read_pos := 0\<rparr>" and ?s2 = "s2\<lparr>read_pos := 0\<rparr>"
  have "stringaa_compare (read_ops m) s1 s2 = stringaa_compare (read_ops m) ?s1 ?s2"
    by (simp add: stringaa_compare_def read_ops_def stringaa_begin_read_pos_def)
  moreover have "\<exists>t1 t2. stringaa_compare (read_ops m) ?s1 ?s2
      = Some (sgn (number_value (digits_of m ?s1) - number_value (digits_of m ?s2)), t1, t2)"
    using sr.compare_correct [of m ?s1 ?s2] assms unfolding cursor_def by (simp, blast)
  ultimately show ?thesis by (auto simp: returns_iff)
qed

lemma stringaa_compare_sign_witness:
  "returns (stringaa_compare (read_ops (memory_of [[CHR 0x00, CHR 0x04, CHR 0x02], [CHR 0x09]])) (string_at 0 3) (string_at 1 1))
    (\<lambda>(r, t1, t2). r = 1)"
  using stringaa_compare_sign [of "memory_of [[CHR 0x00, CHR 0x04, CHR 0x02], [CHR 0x09]]" "string_at 0 3" "string_at 1 1" 0]
  by (simp add: char_word_def is_digit_def)

section \<open>Sums in place\<close>

text \<open>
  What the comments of \<open>stringaa.h\<close> say of the position: it is set to the first, the next, the previous or the
  last character, and a character is read and set at it.  Where a move that fails leaves it is not said beyond
  the bounds of the buffer.  The buffer has \<open>k\<close> bytes more than the number has digits.
\<close>

definition number_cursor :: "nat \<Rightarrow> 'n number_ops \<Rightarrow> ('n \<Rightarrow> 8 word list) \<Rightarrow> bool" where
  "number_cursor k ops ds \<longleftrightarrow> (\<forall>s. op_buf_size ops s = length (ds s) + k \<and> ds (op_set_init ops s) = ds s
     \<and> ds (op_begin_pos ops s) = ds s \<and> op_buf_pos ops (op_begin_pos ops s) = 0
     \<and> op_is_alloc ops (op_begin_pos ops s) = op_is_alloc ops s
     \<and> ds (op_end_pos ops s) = ds s \<and> op_buf_pos ops (op_end_pos ops s) = length (ds s) - 1
     \<and> (\<forall>go t. op_next_pos ops s = (go, t) \<longrightarrow> ds t = ds s \<and> go = (Suc (op_buf_pos ops s) < length (ds s))
         \<and> op_is_alloc ops t = op_is_alloc ops s
         \<and> (if go then op_buf_pos ops t = Suc (op_buf_pos ops s)
            else length (ds s) - 1 \<le> op_buf_pos ops t \<and> op_buf_pos ops t \<le> length (ds s)))
     \<and> (\<forall>go t. op_prev_pos ops s = (go, t) \<longrightarrow> ds t = ds s
         \<and> (op_buf_pos ops s < length (ds s) \<longrightarrow> go = (0 < op_buf_pos ops s)
           \<and> (go \<longrightarrow> op_buf_pos ops t = op_buf_pos ops s - 1)))
     \<and> (op_buf_pos ops s < length (ds s) \<longrightarrow> op_get_char ops s = Some (ds s ! op_buf_pos ops s)
         \<and> (\<forall>c. \<exists>t. op_set_char ops c s = Some t \<and> ds t = (ds s)[op_buf_pos ops s := c]
           \<and> op_buf_pos ops t = op_buf_pos ops s \<and> op_is_alloc ops t = op_is_alloc ops s)))"

lemma number_cursorD:
  assumes "number_cursor k ops ds"
  shows "op_buf_size ops s = length (ds s) + k" "ds (op_set_init ops s) = ds s"
    "ds (op_begin_pos ops s) = ds s" "op_buf_pos ops (op_begin_pos ops s) = 0"
    "ds (op_end_pos ops s) = ds s" "op_buf_pos ops (op_end_pos ops s) = length (ds s) - 1"
    "op_buf_pos ops s < length (ds s) \<Longrightarrow> op_get_char ops s = Some (ds s ! op_buf_pos ops s)"
    "op_is_alloc ops (op_begin_pos ops s) = op_is_alloc ops s"
  using assms unfolding number_cursor_def by blast+

lemma cursor_next:
  assumes "number_cursor k ops ds" and "op_next_pos ops s = (go, t)"
  shows "ds t = ds s" "go = (Suc (op_buf_pos ops s) < length (ds s))" "go \<Longrightarrow> op_buf_pos ops t = Suc (op_buf_pos ops s)"
    "\<not> go \<Longrightarrow> length (ds s) - 1 \<le> op_buf_pos ops t \<and> op_buf_pos ops t \<le> length (ds s)"
    "op_is_alloc ops t = op_is_alloc ops s"
proof -
  have "ds t = ds s \<and> go = (Suc (op_buf_pos ops s) < length (ds s)) \<and> op_is_alloc ops t = op_is_alloc ops s
      \<and> (if go then op_buf_pos ops t = Suc (op_buf_pos ops s)
         else length (ds s) - 1 \<le> op_buf_pos ops t \<and> op_buf_pos ops t \<le> length (ds s))"
    using assms unfolding number_cursor_def by blast
  then show "ds t = ds s" "go = (Suc (op_buf_pos ops s) < length (ds s))" "go \<Longrightarrow> op_buf_pos ops t = Suc (op_buf_pos ops s)"
    "\<not> go \<Longrightarrow> length (ds s) - 1 \<le> op_buf_pos ops t \<and> op_buf_pos ops t \<le> length (ds s)"
    "op_is_alloc ops t = op_is_alloc ops s" by auto
qed

lemma cursor_prev:
  assumes "number_cursor k ops ds" and "op_prev_pos ops s = (go, t)"
  shows "ds t = ds s" "op_buf_pos ops s < length (ds s) \<Longrightarrow> go = (0 < op_buf_pos ops s)"
    "op_buf_pos ops s < length (ds s) \<Longrightarrow> go \<Longrightarrow> op_buf_pos ops t = op_buf_pos ops s - 1"
  using assms unfolding number_cursor_def by blast+

lemma cursor_set:
  assumes "number_cursor k ops ds" and "op_buf_pos ops s < length (ds s)"
  obtains t where "op_set_char ops c s = Some t" "ds t = (ds s)[op_buf_pos ops s := c]"
    "op_buf_pos ops t = op_buf_pos ops s" "op_is_alloc ops t = op_is_alloc ops s"
proof -
  have "\<exists>t. op_set_char ops c s = Some t \<and> ds t = (ds s)[op_buf_pos ops s := c]
      \<and> op_buf_pos ops t = op_buf_pos ops s \<and> op_is_alloc ops t = op_is_alloc ops s"
    using assms unfolding number_cursor_def by blast
  then show thesis using that by blast
qed

text \<open>The value of the digits up to position \<open>i\<close>.\<close>

abbreviation value_upto :: "nat \<Rightarrow> 8 word list \<Rightarrow> int" where
  "value_upto i xs \<equiv> number_value (take (Suc i) xs)"

lemma value_upto_step: "i < length xs \<Longrightarrow> value_upto i xs = 10 * number_value (take i xs) + sint (xs ! i)"
  by (simp add: take_Suc_conv_app_nth number_value_append)

lemma digit_list_update: "digit_list xs \<Longrightarrow> is_digit l \<Longrightarrow> digit_list (xs[i := l])"
  using set_update_subset_insert [of xs i l] by (auto simp: list_all_iff)

text \<open>One column of the loop.\<close>

lemma add_column:
  assumes "number_cursor k ops ds" and "op_buf_pos ops s1 = i" and "op_buf_pos ops s2 = i"
    and "i < length (ds s1)" and "length (ds s2) = length (ds s1)"
    and "digit_list (ds s1)" and "digit_list (ds s2)" and "0 \<le> sint c" and "sint c \<le> 1"
  obtains t h l where "is_digit l" "0 \<le> sint h" "sint h \<le> 1"
    "10 * sint h + sint l = sint (ds s1 ! i) + sint (ds s2 ! i) + sint c"
    "ds t = (ds s1)[i := l]" "op_buf_pos ops t = i"
    "add_columns_to ops (c, x) s1 s2 = (let (go, t) = op_prev_pos ops t in
       if \<not> go then Some (t, s2) else add_columns_to ops (h, l) t (snd (op_prev_pos ops s2)))"
proof -
  have d: "is_digit (ds s1 ! i)" "is_digit (ds s2 ! i)" "is_digit c"
    using assms by (simp_all add: list_all_length is_digit_def)
  obtain h l where hl: "stringaa_add_char (c, x) (ds s1 ! i) (ds s2 ! i) = (h, l)" by fastforce
  have col: "is_digit h" "is_digit l" "10 * sint h + sint l = sint (ds s1 ! i) + sint (ds s2 ! i) + sint c"
      "sint h \<le> 1"
    using stringaa_columns [OF d(1,2,3), of 0 x] hl assms(9) by (simp_all add: is_digit_def)
  obtain t where t: "op_set_char ops l s1 = Some t" "ds t = (ds s1)[i := l]" "op_buf_pos ops t = i"
    using cursor_set [OF assms(1), of s1 l] assms(2,4) by auto
  have "op_get_char ops s1 = Some (ds s1 ! i)" "op_get_char ops s2 = Some (ds s2 ! i)"
    using number_cursorD(7) [OF assms(1)] assms(2-5) by simp_all
  with hl t(1) have "add_columns_to ops (c, x) s1 s2 = (let (go, t) = op_prev_pos ops t in
       if \<not> go then Some (t, s2) else add_columns_to ops (h, l) t (snd (op_prev_pos ops s2)))"
    by (simp add: add_columns_to.simps [of ops "(c, x)"])
  with that col t show thesis by (simp add: is_digit_def)
qed

text \<open>The columns from position \<open>i\<close> up to the first, with a carry \<open>c\<close> into the first of them and \<open>h\<close> out of the last.\<close>

lemma add_columns_to_sum:
  assumes "number_cursor k ops ds"
  shows "op_buf_pos ops s1 = i \<Longrightarrow> op_buf_pos ops s2 = i \<Longrightarrow> i < length (ds s1) \<Longrightarrow> length (ds s2) = length (ds s1) \<Longrightarrow>
    digit_list (ds s1) \<Longrightarrow> digit_list (ds s2) \<Longrightarrow> 0 \<le> sint c \<Longrightarrow> sint c \<le> 1 \<Longrightarrow>
    \<exists>t1 t2 h. add_columns_to ops (c, x) s1 s2 = Some (t1, t2) \<and> length (ds t1) = length (ds s1) \<and> digit_list (ds t1)
      \<and> drop (Suc i) (ds t1) = drop (Suc i) (ds s1) \<and> 0 \<le> h
      \<and> value_upto i (ds t1) + h * 10 ^ Suc i = value_upto i (ds s1) + value_upto i (ds s2) + sint c"
proof (induction i arbitrary: s1 s2 c x)
  case (0 s1 s2 c x)
  obtain t h l where t: "is_digit l" "0 \<le> sint h" "sint h \<le> 1"
    "10 * sint h + sint l = sint (ds s1 ! 0) + sint (ds s2 ! 0) + sint c"
    "ds t = (ds s1)[0 := l]" "op_buf_pos ops t = 0"
    "add_columns_to ops (c, x) s1 s2 = (let (go, t) = op_prev_pos ops t in
       if \<not> go then Some (t, s2) else add_columns_to ops (h, l) t (snd (op_prev_pos ops s2)))" 
    by (rule add_column [OF assms 0, of x])
  obtain go u where u: "op_prev_pos ops t = (go, u)" by fastforce
  have "\<not> go" "ds u = (ds s1)[0 := l]" using cursor_prev [OF assms u] t(5,6) 0(3) by simp_all
  moreover have "value_upto 0 (ds u) = sint l" "value_upto 0 (ds s1) = sint (ds s1 ! 0)" "value_upto 0 (ds s2) = sint (ds s2 ! 0)"
    using value_upto_step [of 0 "ds u"] value_upto_step [of 0 "ds s1"] value_upto_step [of 0 "ds s2"] \<open>ds u = (ds s1)[0 := l]\<close> 0(3,4)
    by simp_all
  moreover have "digit_list (ds u)"
    using 0(5) t(1) \<open>ds u = (ds s1)[0 := l]\<close> by (simp add: digit_list_update)
  ultimately show ?case using t(2,4,7) u by (auto simp: Let_def)
next
  case (Suc i s1 s2 c x)
  obtain t h l where t: "is_digit l" "0 \<le> sint h" "sint h \<le> 1"
    "10 * sint h + sint l = sint (ds s1 ! Suc i) + sint (ds s2 ! Suc i) + sint c"
    "ds t = (ds s1)[Suc i := l]" "op_buf_pos ops t = Suc i"
    "add_columns_to ops (c, x) s1 s2 = (let (go, t) = op_prev_pos ops t in
       if \<not> go then Some (t, s2) else add_columns_to ops (h, l) t (snd (op_prev_pos ops s2)))" 
    by (rule add_column [OF assms Suc(2-9), of x])
  obtain go u where u: "op_prev_pos ops t = (go, u)" by fastforce
  obtain go2 v where v: "op_prev_pos ops s2 = (go2, v)" by fastforce
  have go: "go" "ds u = (ds s1)[Suc i := l]" "op_buf_pos ops u = i"
    using cursor_prev [OF assms u] t(5,6) Suc(4) by simp_all
  have v2: "ds v = ds s2" "op_buf_pos ops v = i"
    using cursor_prev [OF assms v] Suc(3-5) by simp_all
  have du: "digit_list (ds u)" using Suc(6) t(1) go(2) by (simp add: digit_list_update)
  obtain t1 t2 g where r: "add_columns_to ops (h, l) u v = Some (t1, t2)" "length (ds t1) = length (ds u)"
      "digit_list (ds t1)" "drop (Suc i) (ds t1) = drop (Suc i) (ds u)" "0 \<le> g"
      "value_upto i (ds t1) + g * 10 ^ Suc i = value_upto i (ds u) + value_upto i (ds s2) + sint h"
    using Suc(1) [OF go(3) v2(2), of h l] Suc(4-7) go v2 du t(2,3) by auto
  have l: "ds t1 ! Suc i = l" "drop (Suc (Suc i)) (ds t1) = drop (Suc (Suc i)) (ds s1)"
    using arg_cong [OF r(4), of "\<lambda>xs. xs ! 0"] arg_cong [OF r(4), of tl] r(2) go(2) Suc(4)
    by (simp_all add: drop_Suc [symmetric] tl_drop)
  have "value_upto (Suc i) (ds t1) = 10 * value_upto i (ds t1) + sint l"
      "value_upto (Suc i) (ds s1) = 10 * value_upto i (ds s1) + sint (ds s1 ! Suc i)"
      "value_upto (Suc i) (ds s2) = 10 * value_upto i (ds s2) + sint (ds s2 ! Suc i)" "value_upto i (ds u) = value_upto i (ds s1)"
    using value_upto_step [of "Suc i" "ds t1"] value_upto_step [of "Suc i" "ds s1"] value_upto_step [of "Suc i" "ds s2"]
      Suc(4,5) r(2) go(2) l(1) by simp_all
  then have "value_upto (Suc i) (ds t1) + g * 10 ^ Suc (Suc i) = value_upto (Suc i) (ds s1) + value_upto (Suc i) (ds s2) + sint c"
    using r(6) t(4) by simp
  then show ?case using t(7) u v go r l v2 by (auto simp: Let_def)
qed

lemma skip_zeros_cursor:
  assumes "number_cursor k ops ds"
  shows "op_buf_pos ops s < length (ds s) \<Longrightarrow> \<exists>t. skip_zeros ops s = Some t \<and> ds t = ds s \<and> op_buf_pos ops s \<le> op_buf_pos ops t
    \<and> op_buf_pos ops t \<le> length (ds s)
    \<and> (ds s ! op_buf_pos ops s = 0 \<and> Suc (op_buf_pos ops s) < length (ds s) \<longrightarrow> op_buf_pos ops s < op_buf_pos ops t)"
proof (induction "length (ds s) - op_buf_pos ops s" arbitrary: s rule: less_induct)
  case less
  obtain go t where t: "op_next_pos ops s = (go, t)" by fastforce
  note n = cursor_next [OF assms t]
  have get: "op_get_char ops s = Some (ds s ! op_buf_pos ops s)" using number_cursorD(7) [OF assms less(2)] .
  note unf = skip_zeros.simps [of ops s]
  show ?case
  proof (cases "ds s ! op_buf_pos ops s = 0 \<and> go")
    case True
    with n have t': "op_buf_pos ops t = Suc (op_buf_pos ops s)" "Suc (op_buf_pos ops s) < length (ds s)" by simp_all
    then have "length (ds t) - op_buf_pos ops t < length (ds s) - op_buf_pos ops s" "op_buf_pos ops t < length (ds t)"
      using n(1) by simp_all
    from less(1) [OF this] n(1) obtain u where "skip_zeros ops t = Some u" "ds u = ds s"
        "op_buf_pos ops t \<le> op_buf_pos ops u" "op_buf_pos ops u \<le> length (ds s)" by auto
    with True n get t show ?thesis unfolding unf by auto
  next
    case False
    with n get t less(2) show ?thesis unfolding unf by (cases "ds s ! op_buf_pos ops s = 0") auto
  qed
qed

lemma add_in_place:
  assumes "number_cursor k ops ds" and "digit_list (ds s1)" and "digit_list (ds s2)"
    and "ds s1 = 0 # xs" and "ds s2 = 0 # ys" and "length xs = length ys"
  shows "\<exists>t1 t2. add_columns_to ops (0, 0) (op_end_pos ops s1) (op_end_pos ops s2) = Some (t1, t2)
    \<and> number_value (ds t1) = number_value (ds s1) + number_value (ds s2)"
proof -
  note e = number_cursorD(5,6) [OF assms(1)]
  let ?n = "length xs"
  obtain t1 t2 h where t: "add_columns_to ops (0, 0) (op_end_pos ops s1) (op_end_pos ops s2) = Some (t1, t2)"
      "length (ds t1) = Suc ?n" "digit_list (ds t1)" "0 \<le> h"
      "value_upto ?n (ds t1) + h * 10 ^ Suc ?n = value_upto ?n (ds s1) + value_upto ?n (ds s2)"
    using add_columns_to_sum [OF assms(1), of "op_end_pos ops s1" ?n "op_end_pos ops s2" 0 0] e assms(2-6) by auto
  then have sum: "number_value (ds t1) + h * 10 ^ Suc ?n = number_value (ds s1) + number_value (ds s2)"
    using assms(4-6) by simp
  have "number_value (ds s1) < 10 ^ ?n" "number_value (ds s2) < 10 ^ ?n" "0 \<le> number_value (ds t1)" "0 < (10 :: int) ^ ?n"
    using number_value_bounds [of xs] number_value_bounds [of ys] number_value_bounds [OF t(3)] assms(2-6) by simp_all
  then have "h * 10 ^ Suc ?n < 1 * 10 ^ Suc ?n" using sum unfolding power_Suc by linarith
  then have "h < 1" by (rule mult_right_less_imp_less) simp
  with t(4) have "h = 0" by simp
  with t(1) sum show ?thesis by simp
qed

text \<open>C25: \<open>stringaa_sub\<close> adds.  On two numbers of the same length with a leading zero, which \<open>stringaa_add_to\<close> adds
  up in place, it leaves the same result, the sum, and not the difference.\<close>

theorem stringaa_sub_adds:
  assumes "number_cursor k ops ds" and "op_is_int ops s1" and "op_is_int ops s2"
    and "digit_list (ds s1)" and "digit_list (ds s2)" and "ds s1 = 0 # xs" and "ds s2 = 0 # ys"
    and "length xs = length ys" and "xs \<noteq> []" and "length (ds s1) + k < 2 ^ 64"
  shows "returns (stringaa_add_to ops s1 s2) (\<lambda>(r, t1, t2). r = 1
      \<and> number_value (ds t1) = number_value (ds s1) + number_value (ds s2))
    \<and> returns (stringaa_sub ops s1 s2) (\<lambda>(r, t1, t2). r = 1
      \<and> number_value (ds t1) = number_value (ds s1) + number_value (ds s2))"
proof -
  note D = number_cursorD [OF assms(1)]
  let ?b1 = "op_begin_pos ops s1" and ?b2 = "op_begin_pos ops s2"
  have get: "op_get_char ops ?b1 = Some 0" "op_get_char ops ?b2 = Some 0"
    using D(7) [of ?b1] D(7) [of ?b2] D(3,4) assms(6,7) by simp_all
  obtain t1 where t1: "skip_zeros ops ?b1 = Some t1" "ds t1 = ds s1" "0 < op_buf_pos ops t1" "op_buf_pos ops t1 \<le> length (ds s1)"
    using skip_zeros_cursor [OF assms(1), of ?b1] D(3,4) assms(6,9) by auto
  obtain t2 where t2: "skip_zeros ops ?b2 = Some t2" "ds t2 = ds s2" "0 < op_buf_pos ops t2" "op_buf_pos ops t2 \<le> length (ds s2)"
    using skip_zeros_cursor [OF assms(1), of ?b2] D(3,4) assms(7,8,9) by (cases ys) auto
  have room: "\<not> op_buf_size ops t1 < max (size_diff (op_buf_size ops t1) (op_buf_pos ops t1))
      (size_diff (op_buf_size ops t2) (op_buf_pos ops t2)) + 1"
    using t1 t2 D(1) assms(6-8,10) by auto
  obtain u1 u2 where u: "add_columns_to ops (0, 0) (op_end_pos ops t1) (op_end_pos ops t2) = Some (u1, u2)"
      "number_value (ds u1) = number_value (ds s1) + number_value (ds s2)"
    using add_in_place [OF assms(1), of t1 t2 xs ys] t1 t2 assms by auto
  obtain v1 v2 where v: "add_columns_to ops (0, 0) (op_end_pos ops ?b1) (op_end_pos ops ?b2) = Some (v1, v2)"
      "number_value (ds v1) = number_value (ds s1) + number_value (ds s2)"
    using add_in_place [OF assms(1), of ?b1 ?b2 xs ys] D(3) assms by auto
  show ?thesis
    using room u v t1(1) t2(1) get assms(2,3) D(2)
    by (simp add: stringaa_add_to_def stringaa_sub_def as_int_def Let_def max_def split: if_splits)
qed

text \<open>An instance: digits in an array with one byte behind them.  A move that fails stays, or goes to the end.\<close>

record number =
  num_digits :: "8 word list"
  num_pos :: nat

definition plain_ops :: "bool \<Rightarrow> number number_ops" where
  "plain_ops stay = \<lparr>op_begin_pos = (\<lambda>s. s\<lparr>num_pos := 0\<rparr>), op_end_pos = (\<lambda>s. s\<lparr>num_pos := length (num_digits s) - 1\<rparr>),
     op_next_pos = (\<lambda>s. if Suc (num_pos s) < length (num_digits s) then (True, s\<lparr>num_pos := Suc (num_pos s)\<rparr>)
       else (False, s\<lparr>num_pos := if stay then length (num_digits s) - 1 else length (num_digits s)\<rparr>)),
     op_prev_pos = (\<lambda>s. if 0 < num_pos s then (True, s\<lparr>num_pos := num_pos s - 1\<rparr>)
       else (False, s\<lparr>num_pos := if stay then 0 else length (num_digits s)\<rparr>)),
     op_get_char = (\<lambda>s. Some (if num_pos s < length (num_digits s) then num_digits s ! num_pos s else 0)),
     op_set_char = (\<lambda>c s. if num_pos s < length (num_digits s)
       then Some (s\<lparr>num_digits := (num_digits s)[num_pos s := c]\<rparr>) else None),
     op_set_size = (\<lambda>n s. Some (s\<lparr>num_digits := replicate (n - 1) 0, num_pos := 0\<rparr>)), op_malloc_copy = (\<lambda>s. (True, s)),
     op_buf_size = (\<lambda>s. length (num_digits s) + 1), op_buf_pos = num_pos, op_set_buf_pos = (\<lambda>p s. s\<lparr>num_pos := p\<rparr>),
     op_is_int = (\<lambda>s. True), op_is_alloc = (\<lambda>s. True), op_set_byte = (\<lambda>i c s. Some (if i < length (num_digits s)
       then s\<lparr>num_digits := (num_digits s)[i := c]\<rparr> else s)),
     op_set_zero = (\<lambda>s. Some (s\<lparr>num_digits := map (\<lambda>_. 0) (num_digits s)\<rparr>)), op_set_init = (\<lambda>s. s)\<rparr>"

lemma plain_cursor: "number_cursor 1 (plain_ops stay) num_digits"
  by (auto simp: number_cursor_def plain_ops_def)

lemma stringaa_sub_adds_witness:
  "returns (stringaa_sub (plain_ops True) \<lparr>num_digits = [0, 5], num_pos = 0\<rparr> \<lparr>num_digits = [0, 3], num_pos = 0\<rparr>)
    (\<lambda>(r, t1, t2). r = 1 \<and> number_value (num_digits t1) = 8)"
  using stringaa_sub_adds [OF plain_cursor, of True "\<lparr>num_digits = [0, 5], num_pos = 0\<rparr>"
      "\<lparr>num_digits = [0, 3], num_pos = 0\<rparr>" "[5]" "[3]"]
  by (simp add: plain_ops_def is_digit_def)

section \<open>Conversion\<close>

lemma convert_chars_map:
  assumes "number_cursor k ops ds"
  shows "op_buf_pos ops s < length (ds s) \<Longrightarrow> \<exists>t. convert_chars ops f s = Some t
    \<and> ds t = take (op_buf_pos ops s) (ds s) @ map f (drop (op_buf_pos ops s) (ds s)) \<and> op_is_alloc ops t = op_is_alloc ops s"
proof (induction "length (ds s) - op_buf_pos ops s" arbitrary: s rule: less_induct)
  case less
  let ?p = "op_buf_pos ops s" and ?xs = "ds s"
  have get: "op_get_char ops s = Some (?xs ! ?p)" using number_cursorD(7) [OF assms less(2)] .
  obtain u where u: "op_set_char ops (f (?xs ! ?p)) s = Some u" "ds u = ?xs[?p := f (?xs ! ?p)]"
      "op_buf_pos ops u = ?p" "op_is_alloc ops u = op_is_alloc ops s"
    using cursor_set [OF assms less(2)] .
  obtain go t where t: "op_next_pos ops u = (go, t)" by fastforce
  note n = cursor_next [OF assms t]
  note unf = convert_chars.simps [of ops f s]
  have cut: "take (Suc ?p) (ds u) = take ?p ?xs @ [f (?xs ! ?p)]" "drop (Suc ?p) (ds u) = drop (Suc ?p) ?xs"
    using less(2) u(2) by (simp_all add: take_Suc_conv_app_nth)
  have split: "drop ?p ?xs = ?xs ! ?p # drop (Suc ?p) ?xs" using less(2) by (simp add: Cons_nth_drop_Suc)
  show ?case
  proof (cases go)
    case True
    with n u have t': "op_buf_pos ops t = Suc ?p" "Suc ?p < length ?xs" "ds t = ds u" "length (ds t) = length ?xs" by simp_all
    then have "length (ds t) - op_buf_pos ops t < length ?xs - ?p" "op_buf_pos ops t < length (ds t)" by simp_all
    from less(1) [OF this] t'(1)
    obtain v where v: "convert_chars ops f t = Some v" "ds v = take (Suc ?p) (ds t) @ map f (drop (Suc ?p) (ds t))"
        "op_is_alloc ops v = op_is_alloc ops t" by auto
    with True t' n u get t cut split show ?thesis unfolding unf by simp
  next
    case False
    with n u less(2) have "length ?xs = Suc ?p" by simp
    then have "ds u = take ?p ?xs @ [f (?xs ! ?p)]" using cut(1) u(2) by simp
    with False n u get t split \<open>length ?xs = Suc ?p\<close> show ?thesis unfolding unf by simp
  qed
qed

text \<open>C26: \<open>stringaa_int_to_chars\<close> turns every digit of an allocated number into its character, and
  \<open>stringaa_chars_to_int\<close> turns the characters back into the digits.\<close>

theorem stringaa_conversion_roundtrip:
  assumes "number_cursor k ops ds" and "digit_list (ds s)" and "ds s \<noteq> []" and "op_is_alloc ops s"
  shows "returns (stringaa_int_to_chars ops s) (\<lambda>(b, t). b \<and> ds t = map (\<lambda>c. word_of_int (48 + sint c)) (ds s)
    \<and> returns (stringaa_chars_to_int ops t) (\<lambda>(b, u). b \<and> ds u = ds s))"
proof -
  note D = number_cursorD [OF assms(1)]
  have all: "\<exists>t. convert_chars ops f (op_begin_pos ops u) = Some t \<and> ds t = map f (ds u)
      \<and> op_is_alloc ops t = op_is_alloc ops u" if "ds u \<noteq> []" for f u
    using convert_chars_map [OF assms(1), of "op_begin_pos ops u" f] D(3,4,8) that by simp
  obtain t where t: "convert_chars ops (\<lambda>c. c OR 0x30) (op_begin_pos ops s) = Some t"
      "ds t = map (\<lambda>c. c OR 0x30) (ds s)" "op_is_alloc ops t"
    using all [OF assms(3), of "\<lambda>c. c OR 0x30"] assms(4) by auto
  have "ds t \<noteq> []" using t(2) assms(3) by simp
  then obtain u where u: "convert_chars ops (\<lambda>c. c AND 0xf) (op_begin_pos ops t) = Some u"
      "ds u = map (\<lambda>c. c AND 0xf) (ds t)"
    using all [of t "\<lambda>c. c AND 0xf"] by auto
  have dig: "c OR 0x30 = word_of_int (48 + sint c)" "(c OR 0x30) AND 0xf = c" if "c \<in> set (ds s)" for c
    using char_of_digit [of c] char_digit_roundtrip [of c] assms(2) that
    by (simp_all add: list_all_iff stringaa_int_to_char_def stringaa_char_to_int_def)
  have "ds t = map (\<lambda>c. word_of_int (48 + sint c)) (ds s)" "ds u = ds s"
    unfolding u(2) t(2) map_map using dig by (simp_all add: map_idI)
  then show ?thesis
    using t(1,3) u(1) assms(4) by (simp add: stringaa_int_to_chars_def stringaa_chars_to_int_def)
qed

lemma stringaa_conversion_roundtrip_witness:
  "returns (stringaa_int_to_chars (plain_ops False) \<lparr>num_digits = [4, 2], num_pos = 0\<rparr>) (\<lambda>(b, t).
    num_digits t = [52, 50] \<and> returns (stringaa_chars_to_int (plain_ops False) t) (\<lambda>(b, u). num_digits u = [4, 2]))"
  using stringaa_conversion_roundtrip [OF plain_cursor, of "\<lparr>num_digits = [4, 2], num_pos = 0\<rparr>" False]
  by (simp add: is_digit_def plain_ops_def returns_iff) blast

section \<open>Products\<close>

text \<open>When a row ends with a carry, the loop goes on: it takes the first digit of \<open>s1\<close> once more, or, where a
  failed move goes to the end, all of its digits.  Either way, nine times nine is not 81, while twelve
  times thirteen is 156.\<close>

definition plain_product :: "bool \<Rightarrow> 8 word list \<Rightarrow> 8 word list \<Rightarrow> int option" where
  "plain_product stay xs ys = do {
     (_, t, _) \<leftarrow> stringaa_mul (plain_ops stay) \<lparr>num_digits = [], num_pos = 0\<rparr> \<lparr>num_digits = xs, num_pos = 0\<rparr>
       \<lparr>num_digits = ys, num_pos = 0\<rparr>;
     Some (number_value (num_digits t)) }"

lemma plain_products:
  "map (\<lambda>stay. (plain_product stay [1, 2] [1, 3], plain_product stay [9] [9])) [True, False]
    = [(Some 156, Some 9991), (Some 156, Some 8181)]"
  by code_simp

section \<open>Products of odd numbers\<close>

text \<open>Neither function stores what it has computed: the result \<open>s\<close> is as it was.\<close>

lemma mul_odd_no_result:
  "stringaa_mul_odd_n f s n = Some (r, t, n') \<Longrightarrow> r = 1 \<and> t = s"
  "stringaa_mul_odd_n_m_string f s n m = Some (r, out, t, n', m') \<Longrightarrow> r = 1 \<and> t = s"
  by (auto simp: stringaa_mul_odd_n_def stringaa_mul_odd_n_m_string_def split: bind_splits)

end
