(* ===== verification/Spec2Isabelle.thy ===== *)
theory Spec2Isabelle
  imports Uri_Properties Uri_Escape Uri_Resolve_Proofs Stringaa_Find Http_Rejects Work_Queue_Steps Http_Values_Verdicts
    Http_Print Http_Example Worker_Request Worker_Network Socket_Server Server_Example Stringaa_Math_Proofs
begin

text \<open>
  This development models httpaa, a library of C headers: an HTTP/1.1 request parser (\<open>src/http\<close>) over a URI
  parser and resolver (\<open>src/url\<close>) over counted strings (\<open>src/string\<close>), and a server that hands connections
  (\<open>src/socket\<close>) to a pool of workers (\<open>src/worker\<close>).  Each theory models the part of the program that its
  opening text names; definitions have the names of the C functions, \<open>_Proofs\<close>, \<open>_Safety\<close>, \<open>_Rejects\<close>,
  \<open>_Properties\<close> and \<open>_Steps\<close> hold theorems about the theory they are named after.

  How C is read.  \<open>Memory\<close> is the heap: numbered blocks of bytes, pointers with an offset, \<open>malloc\<close> that may fail,
  \<open>free\<close>, \<open>memcpy\<close>, \<open>memmove\<close>.  An access outside a live block, an overflow of an \<open>int\<close> where it matters, or a
  loop that does not end has the result \<^const>\<open>None\<close>, so that \<open>returns\<close> (\<open>Prelude\<close>) says at once that a call
  ends, that it commits no memory error, and what holds then.  A struct that a function changes through a pointer
  is an argument and a part of the result.  A \<open>size_t\<close> is a natural number: positions are bounded by the blocks
  they index; where one is cast to \<open>int\<close>, that is written out.

  Strings.  \<open>Stringaa\<close> is the record \<open>stringaa\<close> with the cursor operations, views and output of \<open>stringaa.h\<close>;
  \<open>Reader\<close> the interface \<open>char_reader\<close> through which the parsers read, interpreted on the model;
  \<open>Stringaa_Buffer\<close> allocation, growth, copying and appending, with the contract \<open>byte_sink\<close>; \<open>Stringaa_Find\<close> the
  search; \<open>Stringaa_Digits\<close> the digits of \<open>stringaa_math.h\<close> and the products of \<open>stringaa_math_factorial.h\<close>, on 8 bit
  words and on integers with the bounds of \<open>int\<close>; \<open>Stringaa_Math\<close> the operations of these two files on numbers of any
  length.  Nothing includes them, and they call a string library that is not in the repository: it is the
  parameter \<open>number_ops\<close>.  \<open>Stringaa_Math_Proofs\<close> shows what they compute, the comparison under the locale
  \<open>number_reader\<close>, which the read positions of \<open>stringaa.h\<close> interpret, and what writes under \<open>number_cursor\<close>, of
  which \<open>plain_ops\<close> is an instance.

  URIs.  \<open>Uri_Chars\<close> holds the character classes and the scanning loop of \<open>uriaa_rfc2396.h\<close>, \<open>Uri_Parser\<close> one
  function per production, \<open>Uri_Contract\<close> the contract \<open>uri_scanner\<close> that each of them is shown to keep by an
  interpretation: it returns, changes only the read position, and records views inside the data.
  \<open>Uri_Properties\<close> says what they accept, \<open>Uri_Escape\<close> is escaping and unescaping with their equality to
  functions on lists and what the one makes of the other, \<open>Uri_Resolve\<close> the resolution of references with the removal of dot segments.

  HTTP.  \<open>Http_Tables\<close> and \<open>Http_Codes\<close> are the arrays and enumerations of \<open>httpaa_arrays.h\<close>, \<open>Http_Lexer\<close> the
  tokens, \<open>Http_Request\<close> the parser of requests.  \<open>Http_Headers\<close> reduces its header loops to a function on lists
  of characters; \<open>Http_Request_Proofs\<close> shows that a request that is written out is parsed back,
  \<open>Http_Safety\<close> that any bytes are parsed safely, \<open>Http_Rejects\<close> what is turned down.  \<open>Http_Print\<close> is the
  printing of a parsed request, compared with the text it came from.  \<open>Http_Values\<close> and \<open>Http_Header_Values\<close>
  are the parsers of header values, \<open>Http_Values_Proofs\<close> what they accept, \<open>Http_Values_Safety\<close> which of them
  return, \<open>Http_Values_Verdicts\<close> both for all of them side by side; the program does not call them.
  \<open>Http_Example\<close> is the program \<open>testaa.c\<close>, with the bytes it prints.

  Workers.  \<open>Work_Queue\<close> is the ring of works with its indices, the calls that put and take under the mutex, and
  the start of the pool; \<open>Work_Queue_Proofs\<close> the contract \<open>work_channel\<close>, kept until the write index reaches
  the last slot, and what happens from there on; \<open>Work_Queue_Steps\<close> the invariant of all interleavings; \<open>Worker_Threads\<close> the
  array of workers and the threads they get.
  \<open>Worker_Http\<close> are the callbacks of a worker on an HTTP port, \<open>Worker_Network\<close> those that call themselves.
  \<open>Socket_Worker\<close> is the loop over \<open>select\<close>, \<open>recv\<close> and \<open>send\<close>; \<open>Worker_Answer\<close> composes the response from the
  contract \<open>appends\<close>, \<open>Worker_Request\<close> follows a connection from its first byte to its last.
  \<open>Socket_Server\<close> is the server and the client, and the step relation \<open>system_step\<close> of the server together with
  any number of workers.  \<open>Server_Example\<close> is \<open>main\<close> of \<open>test.c\<close>, which runs the server.  The theorem of this theory joins the two: a connection that the server accepts is
  the one that a worker takes and answers.

  Inputs from outside.  What the operating system answers is an argument: booleans for \<open>malloc\<close> of a struct and for
  the \<open>pthread\<close> calls, records such as \<open>answers\<close> and \<open>accept_answers\<close> for one round of a loop over \<open>select\<close>.  The
  loops of the workers, the server and the client run on a list with one answer for each round, and say whether
  they have ended when it is used up; the theorems hold for every list, or ask for one longer than what is to be
  sent, which suffices as every round then sends a byte or more.  The calls on a socket are collected in a trace.
  Loops that may not end are defined by \<open>partial_function (option)\<close>, all others by recursion with a measure.

  Not modelled.  The branches for Windows.  Debug output, the text of the traces that the string and URI functions
  and \<open>httpaa_get_filename\<close> print (the memory they read for it is read), and what \<open>test.c\<close> writes on the
  standard error.  Declarations, include files, and structs, members and enumerations that nothing reads.  The two stubs of \<open>test.c\<close> that nothing calls.  The endless loop of
  \<open>workeraa_main\<close> and with it \<open>workeraa_start\<close>: \<open>workeraa_main_round\<close> is one round.  Memory is shared between
  threads only through the queue; the works themselves are changed by one worker each, as \<open>system_step\<close> states.
\<close>

unbundle bit_operations_syntax

section \<open>From the listening socket to the response\<close>

definition fresh_worker :: "mem \<Rightarrow> socketaa_work list \<Rightarrow> nat \<Rightarrow> worker_state" where
  "fresh_worker m ws i = \<lparr>ws_mem = m, ws_works = ws,
     ws_worker = \<lparr>p_work = None, p_struct = None, p_data = None, work_id = i\<rparr>, ws_trace = []\<rparr>"

text \<open>C1: the whole program.  However the server and the workers have interleaved, as long as fewer connections
  have been accepted than the queue has slots: when a connection waits, a worker that asks for work
  gets the one that has waited longest.  When that worker is fresh, \<open>malloc\<close> works and the peer takes at least a
  byte in every round, it answers a GET request that arrives in one piece and fits the buffer: it sends the whole
  response on the connection, shuts it down and closes it.  The request is one that the parser takes: its target
  is a path that begins with one slash, not two, and has no dot and no escape, with or without a query that has no
  escape; its version is two numbers that fit; its header lines, known or not, are not empty and hold
  no line end.\<close>

theorem server_answers_connections:
  assumes "started n z0" and "(system_step 8080)\<^sup>*\<^sup>* (z0, [], []) (z, taken, conns)"
    and "length taken < length conns" and "length conns < n" and "sync (sv_pool z) = Some y"
    and "no_failure m" and "req = print_line http11_method_get p qs a b @ block ls @ body"
    and "length req \<le> WORKERAA_WORK_RECV_BUFFER_SIZE_DEFAULT"
    and "target_ok p qs" and "number_ok a" and "number_ok b" and "\<forall>l \<in> set ls. line_ok l" and "CHR ''.'' \<notin> set p"
    and "ans_select an > 0" and "ans_recv an = Some req"
    and "length hello_response < length ans" and "\<forall>an \<in> set ans. ans_select an > 0 \<and> ans_send an > 0"
  defines "x \<equiv> length taken"
  shows "\<exists>y'. workeraa_get_work True [] y None = Some (Done (True, Some x, y')) \<and> w_conn (sv_works z ! x) = conns ! x
    \<and> returns (workeraa_main_round True [] True (an # ans) y (fresh_worker m (sv_works z) i))
      (\<lambda>r. \<exists>z' css. r = Done (y', True, z') \<and> concat css = hello_response
        \<and> ws_trace z' = Received req # map Sent css @ [Shutdown, Close])"
proof -
  note waiting = next_waiting [OF assms(1-5), folded x_def]
  from waiting(1) [of None] obtain y' where y': "workeraa_get_work True [] y None = Some (Done (True, Some x, y'))" by blast
  let ?z = "\<lparr>ws_mem = m, ws_works = sv_works z,
        ws_worker = \<lparr>p_work = Some x, p_struct = None, p_data = None, work_id = i\<rparr>, ws_trace = []\<rparr>"
  have "w_port (ws_works ?z ! x) = 8080"
      "w_flags (ws_works ?z ! x) = SOCKETAA_WORK_FLAGS_IS_SELECT OR SOCKETAA_WORK_FLAGS_IS_RECV"
    using waiting(3) by (simp_all add: new_conn_def)
  with serves_get [of ?z x, OF _ _ _ _ _ _ assms(7-17)] assms(6) waiting(2)
  have "returns (workeraa_serve True (an # ans) ?z) (\<lambda>(ended, z'). ended \<and> (\<exists>css. concat css = hello_response
      \<and> ws_trace z' = Received req # map Sent css @ [Shutdown, Close]))"
    by simp
  with y' have "returns (workeraa_main_round True [] True (an # ans) y (fresh_worker m (sv_works z) i))
      (\<lambda>r. \<exists>z' css. r = Done (y', True, z') \<and> concat css = hello_response
        \<and> ws_trace z' = Received req # map Sent css @ [Shutdown, Close])"
    by (fastforce simp: workeraa_main_round_def fresh_worker_def returns_iff)
  with y' waiting(3) show ?thesis by (auto simp: new_conn_def)
qed

lemma server_answers_connections_witness:
  "\<exists>y'. workeraa_get_work True [] (line 4 0 1) None = Some (Done (True, Some 0, y'))
    \<and> returns (workeraa_main_round True [] True
        (\<lparr>ans_select = 1, ans_recv = Some (''GET /a?b HTTP/1.1'' @ [CR, LF] @ ''Host: x'' @ [CR, LF, CR, LF]), ans_send = 0\<rparr>
         # replicate (Suc (length hello_response)) \<lparr>ans_select = 1, ans_recv = None, ans_send = 1\<rparr>)
        (line 4 0 1) (fresh_worker (memory_of []) (sv_works test_accepted) 0))
      (\<lambda>r. \<exists>z' css. r = Done (y', True, z') \<and> concat css = hello_response \<and> ws_trace z' =
        Received (''GET /a?b HTTP/1.1'' @ [CR, LF] @ ''Host: x'' @ [CR, LF, CR, LF]) # map Sent css @ [Shutdown, Close])"
proof -
  let ?an = "\<lparr>ans_select = 1, ans_recv = Some test_request, ans_send = 0\<rparr>"
  let ?ans = "replicate (Suc (length hello_response)) \<lparr>ans_select = 1, ans_recv = None, ans_send = 1\<rparr>"
  have "\<forall>an \<in> set ?ans. ans_select an > 0 \<and> ans_send an > 0" "length hello_response < length ?ans"
    by (simp_all del: replicate.simps)
  moreover have "no_failure (memory_of [])" by (simp add: no_failure_def)
  moreover have "sync (sv_pool test_accepted) = Some (line 4 0 1)" by (simp add: test_accepted_def)
  ultimately show ?thesis
    using server_answers_connections [OF test_started test_accepts _ _ _ _ test_request_ok, of "line 4 0 1" "memory_of []" ?an ?ans 0]
    unfolding test_request_def by (simp del: replicate.simps) blast
qed

end
